theory Spec2Isabelle
  imports Main "HOL-Library.Sublist"
begin

section \<open>Strings as the analyzer uses them\<close>

text \<open>
  A JavaScript string is modelled as a HOL \<open>string\<close>: a list of code units, each below 256.
  The analyzer only ever inspects ASCII characters (braces, quotes, the letters of its
  patterns, tab and newline) and the white space class, so this is the fragment of its
  inputs on which every comparison of the source is represented exactly.
\<close>

definition nl :: char where
  "nl = CHR 0x0A"

definition tab :: char where
  "tab = CHR 0x09"

text \<open>\<open>s.split(c)\<close> for a one-character separator: never empty, \<open>''''.split(c) = ['''']\<close>.\<close>

fun split_on :: "char \<Rightarrow> string \<Rightarrow> string list" where
  "split_on c [] = [[]]"
| "split_on c (x # xs) =
     (if x = c then [] # split_on c xs
      else (case split_on c xs of
              [] \<Rightarrow> [[x]]
            | l # ls \<Rightarrow> (x # l) # ls))"

text \<open>\<open>xs.join(sep)\<close> for a one-character separator.\<close>

fun join_with :: "char \<Rightarrow> string list \<Rightarrow> string" where
  "join_with c [] = []"
| "join_with c [l] = l"
| "join_with c (l # m # ls) = l @ c # join_with c (m # ls)"

text \<open>White space and line terminators of ECMAScript, below code unit 256:
  tab, line feed, vertical tab, form feed, carriage return, space, no-break space.\<close>

definition is_space :: "char \<Rightarrow> bool" where
  "is_space c = (c = CHR 0x09 \<or> c = CHR 0x0A \<or> c = CHR 0x0B \<or> c = CHR 0x0C
                 \<or> c = CHR 0x0D \<or> c = CHR 0x20 \<or> c = CHR 0xA0)"

definition js_trim :: "string \<Rightarrow> string" where
  "js_trim s = rev (dropWhile is_space (rev (dropWhile is_space s)))"

text \<open>\<open>s.startsWith(p)\<close>, returning what follows the prefix.\<close>

fun strip_prefix :: "string \<Rightarrow> string \<Rightarrow> string option" where
  "strip_prefix [] s = Some s"
| "strip_prefix (p # ps) [] = None"
| "strip_prefix (p # ps) (c # cs) = (if p = c then strip_prefix ps cs else None)"

definition startsWith :: "string \<Rightarrow> string \<Rightarrow> bool" where
  "startsWith s p = (strip_prefix p s \<noteq> None)"

section \<open>The regular expressions of the source\<close>

text \<open>
  The fragment of ECMAScript regular expressions the analyzer uses: literals, character
  classes, sequence, ordered alternative, the greedy optional group, greedy \<open>*\<close> and \<open>+\<close>
  and lazy \<open>+?\<close> over a character class, one capture group, and the end anchor \<open>$\<close>
  (no pattern has the \<open>m\<close> flag, so \<open>$\<close> is the end of the input).
\<close>

datatype rx =
    Lit string
  | Cls "char \<Rightarrow> bool"
  | Seq rx rx
  | Alt rx rx
  | Opt rx
  | Star "char \<Rightarrow> bool"
  | Plus "char \<Rightarrow> bool"
  | LazyPlus "char \<Rightarrow> bool"
  | Cap rx
  | Eoi

type_synonym rx_result = "(string \<times> string option) option"

type_synonym rx_cont = "string \<Rightarrow> string option \<Rightarrow> rx_result"

text \<open>Greedy repetition of a class: the longest run first, shorter ones on backtracking.\<close>

fun star_greedy :: "(char \<Rightarrow> bool) \<Rightarrow> string \<Rightarrow> (string \<Rightarrow> rx_result) \<Rightarrow> rx_result" where
  "star_greedy P [] k = k []"
| "star_greedy P (c # cs) k =
     (if P c then (case star_greedy P cs k of
                     Some r \<Rightarrow> Some r
                   | None \<Rightarrow> k (c # cs))
      else k (c # cs))"

text \<open>Lazy repetition of a class: the shortest run first, longer ones on backtracking.\<close>

fun star_lazy :: "(char \<Rightarrow> bool) \<Rightarrow> string \<Rightarrow> (string \<Rightarrow> rx_result) \<Rightarrow> rx_result" where
  "star_lazy P [] k = k []"
| "star_lazy P (c # cs) k =
     (case k (c # cs) of
        Some r \<Rightarrow> Some r
      | None \<Rightarrow> (if P c then star_lazy P cs k else None))"

text \<open>
  The backtracking matcher, anchored at the start of \<open>s\<close>. The continuation \<open>k\<close> receives
  the rest of the input and the capture; \<open>None\<close> makes the matcher try its next choice.
\<close>

fun rx_match :: "rx \<Rightarrow> string \<Rightarrow> string option \<Rightarrow> rx_cont \<Rightarrow> rx_result" where
  "rx_match (Lit p) s cap k =
     (case strip_prefix p s of None \<Rightarrow> None | Some s' \<Rightarrow> k s' cap)"
| "rx_match (Cls P) s cap k =
     (case s of [] \<Rightarrow> None | c # cs \<Rightarrow> if P c then k cs cap else None)"
| "rx_match (Seq a b) s cap k = rx_match a s cap (\<lambda>s' cap'. rx_match b s' cap' k)"
| "rx_match (Alt a b) s cap k =
     (case rx_match a s cap k of Some r \<Rightarrow> Some r | None \<Rightarrow> rx_match b s cap k)"
| "rx_match (Opt a) s cap k =
     (case rx_match a s cap k of Some r \<Rightarrow> Some r | None \<Rightarrow> k s cap)"
| "rx_match (Star P) s cap k = star_greedy P s (\<lambda>s'. k s' cap)"
| "rx_match (Plus P) s cap k =
     (case s of [] \<Rightarrow> None
      | c # cs \<Rightarrow> if P c then star_greedy P cs (\<lambda>s'. k s' cap) else None)"
| "rx_match (LazyPlus P) s cap k =
     (case s of [] \<Rightarrow> None
      | c # cs \<Rightarrow> if P c then star_lazy P cs (\<lambda>s'. k s' cap) else None)"
| "rx_match (Cap a) s cap k =
     rx_match a s cap (\<lambda>s' cap'. k s' (Some (take (length s - length s') s)))"
| "rx_match Eoi s cap k = (if s = [] then k s cap else None)"

text \<open>\<open>pattern.exec(s)\<close> with \<open>lastIndex = 0\<close>: the leftmost start position at which the
  pattern matches. The result is the input after the match and capture group 1.\<close>

fun rx_exec :: "rx \<Rightarrow> string \<Rightarrow> rx_result" where
  "rx_exec r [] = rx_match r [] None (\<lambda>s' cap. Some (s', cap))"
| "rx_exec r (c # cs) =
     (case rx_match r (c # cs) None (\<lambda>s' cap. Some (s', cap)) of
        Some m \<Rightarrow> Some m
      | None \<Rightarrow> rx_exec r cs)"

text \<open>\<open>pattern.test(s)\<close>.\<close>

definition rx_test :: "rx \<Rightarrow> string \<Rightarrow> bool" where
  "rx_test r s = (rx_exec r s \<noteq> None)"

text \<open>Sequences and alternatives of more than two parts.\<close>

fun seqs :: "rx list \<Rightarrow> rx" where
  "seqs [] = Lit []"
| "seqs [r] = r"
| "seqs (r # q # rs) = Seq r (seqs (q # rs))"

fun alts :: "rx list \<Rightarrow> rx" where
  "alts [] = Cls (\<lambda>c. False)"
| "alts [r] = r"
| "alts (r # q # rs) = Alt r (alts (q # rs))"

text \<open>The character classes of the patterns: \<open>\s\<close>, \<open>.\<close>, \<open>\w\<close>, \<open>['"`]\<close>, \<open>['"]\<close>,
  \<open>[^'"]\<close> and \<open>[^}]\<close>.\<close>

definition cls_dot :: "char \<Rightarrow> bool" where
  "cls_dot c = (c \<noteq> CHR 0x0A \<and> c \<noteq> CHR 0x0D)"

definition cls_word :: "char \<Rightarrow> bool" where
  "cls_word c =
     (let n = (of_char c :: nat)
      in (97 \<le> n \<and> n \<le> 122) \<or> (65 \<le> n \<and> n \<le> 90) \<or> (48 \<le> n \<and> n \<le> 57) \<or> n = 95)"

definition cls_quote3 :: "char \<Rightarrow> bool" where
  "cls_quote3 c = (c = CHR 0x27 \<or> c = CHR 0x22 \<or> c = CHR 0x60)"

definition cls_quote2 :: "char \<Rightarrow> bool" where
  "cls_quote2 c = (c = CHR 0x27 \<or> c = CHR 0x22)"

definition cls_not_quote2 :: "char \<Rightarrow> bool" where
  "cls_not_quote2 c = (\<not> cls_quote2 c)"

definition cls_not_rbrace :: "char \<Rightarrow> bool" where
  "cls_not_rbrace c = (c \<noteq> CHR ''}'')"

section \<open>Data model\<close>

text \<open>The \<open>kind\<close> of an extracted declaration: the strings \<open>'test'\<close> and \<open>'describe'\<close>.\<close>

datatype declKind = Test | Describe

text \<open>The \<open>type\<close> of a test change: \<open>'added'\<close>, \<open>'removed'\<close>, \<open>'modified'\<close>.\<close>

datatype testChangeType = Added | Removed | Modified

text \<open>The \<open>impactType\<close> of a test change: \<open>'direct'\<close>, \<open>'indirect'\<close>.\<close>

datatype impactOrigin = Direct | Indirect

text \<open>The \<open>changeType\<close> of a changed file.\<close>

datatype fileChangeType = FileAdded | FileDeleted | FileModified | FileRenamed

text \<open>An entry of \<open>extractTestsFromContent\<close>: \<open>{testName, lineNumber, content, kind}\<close>.\<close>

record extractedTest =
  testName :: string
  lineNumber :: nat
  content :: string
  kind :: declKind

text \<open>A test change: \<open>{type, testName, filePath, lineNumber, changeKind, impactType,
  impactedBy}\<close>; \<open>impactedBy\<close> is absent (\<open>None\<close>) on direct records.\<close>

record testChange =
  tc_type :: testChangeType
  tc_testName :: string
  tc_filePath :: string
  tc_lineNumber :: nat
  changeKind :: declKind
  impactType :: impactOrigin
  impactedBy :: "string option"

text \<open>An entry of \<open>getChangedFiles\<close>: \<open>{path, changeType}\<close>.\<close>

record changedFile =
  path :: string
  changeType :: fileChangeType

text \<open>An entry of \<open>extractImports\<close>: \<open>{source, lineNumber}\<close>.\<close>

record importInfo =
  source :: string
  imp_lineNumber :: nat

section \<open>isPlaywrightTestFile\<close>

text \<open>The three \<open>testFilePatterns\<close>:
  \<^verbatim>\<open>/\.spec\.(ts|js|tsx|jsx)$/\<close>, \<^verbatim>\<open>/\.test\.(ts|js|tsx|jsx)$/\<close> and
  \<^verbatim>\<open>/playwright\.(ts|js|config\.(ts|js))$/\<close>. (\<open>test\<close> reads no capture, so the groups are
  plain groups here.)\<close>

definition testFilePatterns :: "rx list" where
  "testFilePatterns =
     [seqs [Lit ''.spec.'', alts [Lit ''ts'', Lit ''js'', Lit ''tsx'', Lit ''jsx''], Eoi],
      seqs [Lit ''.test.'', alts [Lit ''ts'', Lit ''js'', Lit ''tsx'', Lit ''jsx''], Eoi],
      seqs [Lit ''playwright.'',
            alts [Lit ''ts'', Lit ''js'', seqs [Lit ''config.'', alts [Lit ''ts'', Lit ''js'']]],
            Eoi]]"

definition isPlaywrightTestFile :: "string \<Rightarrow> bool" where
  "isPlaywrightTestFile filePath = list_ex (\<lambda>pattern. rx_test pattern filePath) testFilePatterns"

section \<open>extractTestBody and extractTestsFromContent\<close>

text \<open>The inner loop of \<open>extractTestBody\<close> over the characters of one line; the state is
  \<open>(braceDepth, started)\<close>.\<close>

fun count_braces :: "string \<Rightarrow> int \<times> bool \<Rightarrow> int \<times> bool" where
  "count_braces [] st = st"
| "count_braces (c # cs) (braceDepth, started) =
     (if c = CHR ''{'' then count_braces cs (braceDepth + 1, True)
      else if c = CHR ''}'' then count_braces cs (braceDepth - 1, started)
      else count_braces cs (braceDepth, started))"

text \<open>The outer loop of \<open>extractTestBody\<close> over the lines from \<open>startLine\<close> on: the first
  argument is the lines not yet visited, \<open>bodyLines\<close> the lines pushed so far.\<close>

fun body_loop :: "string list \<Rightarrow> string list \<Rightarrow> int \<times> bool \<Rightarrow> string list" where
  "body_loop [] bodyLines st = bodyLines"
| "body_loop (line # rest) bodyLines st =
     (let bodyLines' = bodyLines @ [line];
          st' = count_braces line st
      in if snd st' \<and> fst st' = 0 then bodyLines'
         else if length bodyLines' > 500 then bodyLines'
         else body_loop rest bodyLines' st')"

definition extractTestBody :: "string list \<Rightarrow> nat \<Rightarrow> string" where
  "extractTestBody lines startLine =
     join_with nl (body_loop (drop startLine lines) [] (0, False))"

text \<open>The declaration pattern \<^verbatim>\<open>/<callee>\s*\(\s*['"`](.+?)['"`]/g\<close> for one callee.\<close>

definition declPattern :: "string \<Rightarrow> rx" where
  "declPattern callee =
     seqs [Lit callee, Star is_space, Lit ''('', Star is_space,
           Cls cls_quote3, Cap (LazyPlus cls_dot), Cls cls_quote3]"

definition testPatterns :: "(rx \<times> declKind) list" where
  "testPatterns =
     [(declPattern ''test'', Test),
      (declPattern ''test.only'', Test),
      (declPattern ''test.skip'', Test)]"

definition describePatterns :: "(rx \<times> declKind) list" where
  "describePatterns =
     [(declPattern ''test.describe'', Describe),
      (declPattern ''test.describe.only'', Describe),
      (declPattern ''test.describe.skip'', Describe)]"

definition allPatterns :: "(rx \<times> declKind) list" where
  "allPatterns = testPatterns @ describePatterns"

text \<open>\<open>match[1]\<close> of \<open>pattern.exec(line)\<close> after \<open>pattern.lastIndex = 0\<close>, \<open>None\<close> when \<open>exec\<close>
  returns \<open>null\<close>. Every pattern of the source has its capture group on the only path
  through it, so a match always carries a capture (lemma \<open>declPattern_captures\<close> below).\<close>

definition exec_group1 :: "rx \<Rightarrow> string \<Rightarrow> string option" where
  "exec_group1 pattern line =
     (case rx_exec pattern line of
        Some (rest, Some name) \<Rightarrow> Some name
      | _ \<Rightarrow> None)"

text \<open>The loop over \<open>allPatterns\<close> for line \<open>i\<close>, pushing onto \<open>tests\<close>.\<close>

fun pattern_loop ::
  "string list \<Rightarrow> nat \<Rightarrow> (rx \<times> declKind) list \<Rightarrow> extractedTest list \<Rightarrow> extractedTest list" where
  "pattern_loop lines i [] tests = tests"
| "pattern_loop lines i ((pattern, k) # ps) tests =
     (case exec_group1 pattern (lines ! i) of
        None \<Rightarrow> pattern_loop lines i ps tests
      | Some name \<Rightarrow>
          pattern_loop lines i ps
            (tests @ [\<lparr>testName = name, lineNumber = i + 1,
                       content = extractTestBody lines i, kind = k\<rparr>]))"

text \<open>The loop \<open>for (let i = 0; i < lines.length; i++)\<close>.\<close>

function line_loop :: "string list \<Rightarrow> nat \<Rightarrow> extractedTest list \<Rightarrow> extractedTest list" where
  "line_loop lines i tests =
     (if i < length lines
      then line_loop lines (i + 1) (pattern_loop lines i allPatterns tests)
      else tests)"
  by pat_completeness auto
termination
  by (relation "measure (\<lambda>(lines, i, tests). length lines - i)") auto

declare line_loop.simps [simp del]

definition extractTestsFromContent :: "string \<Rightarrow> string \<Rightarrow> extractedTest list" where
  "extractTestsFromContent fileContent filePath =
     (let lines = split_on nl fileContent
      in line_loop lines 0 [])"

section \<open>The two loops of analyzeTestFileChanges\<close>

text \<open>\<open>(t) => t.testName === x.testName && t.kind === x.kind\<close>.\<close>

definition same_test :: "extractedTest \<Rightarrow> extractedTest \<Rightarrow> bool" where
  "same_test x t = (testName t = testName x \<and> kind t = kind x)"

definition direct_change :: "testChangeType \<Rightarrow> string \<Rightarrow> extractedTest \<Rightarrow> testChange" where
  "direct_change ty filePath t =
     \<lparr>tc_type = ty, tc_testName = testName t, tc_filePath = filePath,
      tc_lineNumber = lineNumber t, changeKind = kind t, impactType = Direct,
      impactedBy = None\<rparr>"

text \<open>"Find added tests": the loop over \<open>headTests\<close>.\<close>

fun head_loop ::
  "string \<Rightarrow> extractedTest list \<Rightarrow> extractedTest list \<Rightarrow> testChange list \<Rightarrow> testChange list" where
  "head_loop filePath baseTests [] testChanges = testChanges"
| "head_loop filePath baseTests (headTest # rest) testChanges =
     (case find (same_test headTest) baseTests of
        None \<Rightarrow> head_loop filePath baseTests rest (testChanges @ [direct_change Added filePath headTest])
      | Some matchingBaseTest \<Rightarrow>
          if content matchingBaseTest \<noteq> content headTest
          then head_loop filePath baseTests rest (testChanges @ [direct_change Modified filePath headTest])
          else head_loop filePath baseTests rest testChanges)"

text \<open>"Find removed tests": the loop over \<open>baseTests\<close>.\<close>

fun base_loop ::
  "string \<Rightarrow> extractedTest list \<Rightarrow> extractedTest list \<Rightarrow> testChange list \<Rightarrow> testChange list" where
  "base_loop filePath headTests [] testChanges = testChanges"
| "base_loop filePath headTests (baseTest # rest) testChanges =
     (case find (same_test baseTest) headTests of
        None \<Rightarrow> base_loop filePath headTests rest (testChanges @ [direct_change Removed filePath baseTest])
      | Some matchingHeadTest \<Rightarrow> base_loop filePath headTests rest testChanges)"

definition diffTests :: "string \<Rightarrow> extractedTest list \<Rightarrow> extractedTest list \<Rightarrow> testChange list" where
  "diffTests filePath baseTests headTests =
     base_loop filePath headTests baseTests (head_loop filePath baseTests headTests [])"

section \<open>The version-control collaborator and the path library\<close>

text \<open>
  Every \<open>execSync\<close> of the source is a query to git in the analyzer's repository. The
  model takes the answers as functions of the revision and the path the command names:
  \<open>None\<close> is a command that fails (\<open>execSync\<close> throws), \<open>Some out\<close> its standard output;
  \<open>git cat-file -e\<close> only succeeds or fails.
\<close>

record git =
  git_diff_name_status :: "string \<Rightarrow> string \<Rightarrow> string option"
  git_show :: "string \<Rightarrow> string \<Rightarrow> string option"
  git_ls_tree :: "string \<Rightarrow> string option"
  git_cat_file_e :: "string \<Rightarrow> string \<Rightarrow> bool"

text \<open>The three functions of Node's \<open>path\<close> module that \<open>resolveImportPath\<close> calls. They are
  not code of the analyzer, so the model takes them as a parameter.\<close>

record pathLib =
  path_dirname :: "string \<Rightarrow> string"
  path_join :: "string \<Rightarrow> string \<Rightarrow> string"
  path_normalize :: "string \<Rightarrow> string"

datatype error = ChangedFilesError | ExecError

text \<open>\<open>analyzeTestFileChanges\<close>. A content that cannot be read stays \<open>null\<close>; \<open>null\<close> and
  the empty string are both falsy, and give the empty list of tests. Nothing in the outer
  \<open>try\<close> block can throw, so its \<open>catch\<close> has no branch here.\<close>

definition analyzeTestFileChanges :: "git \<Rightarrow> string \<Rightarrow> string \<Rightarrow> string \<Rightarrow> testChange list" where
  "analyzeTestFileChanges g baseCommit headCommit filePath =
     (let baseContent = git_show g baseCommit filePath;
          headContent = git_show g headCommit filePath;
          baseTests = (case baseContent of
                         None \<Rightarrow> []
                       | Some c \<Rightarrow> if c \<noteq> [] then extractTestsFromContent c filePath else []);
          headTests = (case headContent of
                         None \<Rightarrow> []
                       | Some c \<Rightarrow> if c \<noteq> [] then extractTestsFromContent c filePath else [])
      in diffTests filePath baseTests headTests)"

section \<open>getChangedFiles\<close>

fun nth_opt :: "'a list \<Rightarrow> nat \<Rightarrow> 'a option" where
  "nth_opt [] n = None"
| "nth_opt (x # xs) 0 = Some x"
| "nth_opt (x # xs) (Suc n) = nth_opt xs n"

text \<open>The \<open>switch (status)\<close>: the change type and the index of the path among \<open>parts\<close>;
  \<open>None\<close> is the \<open>default: continue\<close>.\<close>

definition status_case :: "char option \<Rightarrow> (fileChangeType \<times> nat) option" where
  "status_case status =
     (if status = Some CHR ''A'' then Some (FileAdded, 1)
      else if status = Some CHR ''D'' then Some (FileDeleted, 1)
      else if status = Some CHR ''M'' then Some (FileModified, 1)
      else if status = Some CHR ''R'' then Some (FileRenamed, 2)
      else None)"

text \<open>The body of the loop over the lines of \<open>git diff --name-status\<close>: \<open>None\<close> when the line
  pushes nothing.\<close>

definition parse_status_line :: "string \<Rightarrow> changedFile option" where
  "parse_status_line line =
     (if js_trim line = [] then None
      else
        (let parts = split_on tab line;
             status = (case nth_opt parts 0 of None \<Rightarrow> None | Some p0 \<Rightarrow> nth_opt p0 0)
         in case status_case status of
              None \<Rightarrow> None
            | Some (ct, idx) \<Rightarrow>
                (case nth_opt parts idx of
                   None \<Rightarrow> None
                 | Some filePath \<Rightarrow>
                     if filePath \<noteq> [] then Some \<lparr>path = filePath, changeType = ct\<rparr> else None)))"

fun status_loop :: "string list \<Rightarrow> changedFile list \<Rightarrow> changedFile list" where
  "status_loop [] files = files"
| "status_loop (line # rest) files =
     (case parse_status_line line of
        None \<Rightarrow> status_loop rest files
      | Some f \<Rightarrow> status_loop rest (files @ [f]))"

definition getChangedFiles :: "git \<Rightarrow> string \<Rightarrow> string \<Rightarrow> error + changedFile list" where
  "getChangedFiles g baseCommit headCommit =
     (case git_diff_name_status g baseCommit headCommit of
        None \<Rightarrow> Inl ChangedFilesError
      | Some output \<Rightarrow> Inr (status_loop (split_on nl (js_trim output)) []))"

section \<open>getAllTestFiles, extractImports and resolveImportPath\<close>

definition getAllTestFiles :: "git \<Rightarrow> string \<Rightarrow> string list" where
  "getAllTestFiles g commit =
     (case git_ls_tree g commit of
        None \<Rightarrow> []
      | Some output \<Rightarrow> filter isPlaywrightTestFile (split_on nl (js_trim output)))"

text \<open>\<^verbatim>\<open>/import\s+(?:(?:\{[^}]*\}|\*\s+as\s+\w+|\w+)\s+from\s+)?['"]([^'"]+)['"];?/g\<close>\<close>

definition es6ImportPattern :: rx where
  "es6ImportPattern =
     seqs [Lit ''import'', Plus is_space,
           Opt (seqs [alts [seqs [Lit ''{'', Star cls_not_rbrace, Lit ''}''],
                            seqs [Lit ''*'', Plus is_space, Lit ''as'', Plus is_space, Plus cls_word],
                            Plus cls_word],
                      Plus is_space, Lit ''from'', Plus is_space]),
           Cls cls_quote2, Cap (Plus cls_not_quote2), Cls cls_quote2, Opt (Lit '';'')]"

text \<open>\<^verbatim>\<open>/require\s*\(\s*['"]([^'"]+)['"]\s*\)/g\<close>\<close>

definition requirePattern :: rx where
  "requirePattern =
     seqs [Lit ''require'', Star is_space, Lit ''('', Star is_space,
           Cls cls_quote2, Cap (Plus cls_not_quote2), Cls cls_quote2, Star is_space, Lit '')'']"

text \<open>
  \<open>while ((match = pattern.exec(line)) !== null)\<close> for a pattern with the \<open>g\<close> flag: each
  \<open>exec\<close> searches from the end of the previous match. The patterns have no anchor and no
  look-behind, so searching from \<open>lastIndex\<close> is searching the rest of the line. The loop
  ends because a match is never empty, and every match carries its capture (lemmas
  \<open>import_match_consumes\<close> and \<open>exec_all_unguarded\<close> below); the guard on the lengths
  states the first for the termination proof, and neither \<open>else\<close> branch nor the
  \<open>None\<close> case is ever taken.
\<close>

function exec_all :: "rx \<Rightarrow> string \<Rightarrow> string list" where
  "exec_all pattern s =
     (case rx_exec pattern s of
        None \<Rightarrow> []
      | Some (rest, cap) \<Rightarrow>
          (if length rest < length s
           then (case cap of None \<Rightarrow> [] | Some m \<Rightarrow> [m]) @ exec_all pattern rest
           else []))"
  by pat_completeness auto
termination
  by (relation "measure (\<lambda>(pattern, s). length s)") auto

declare exec_all.simps [simp del]

function import_line_loop :: "string list \<Rightarrow> nat \<Rightarrow> importInfo list \<Rightarrow> importInfo list" where
  "import_line_loop lines i imports =
     (if i < length lines
      then import_line_loop lines (i + 1)
             (imports
              @ map (\<lambda>m. \<lparr>source = m, imp_lineNumber = i + 1\<rparr>) (exec_all es6ImportPattern (lines ! i))
              @ map (\<lambda>m. \<lparr>source = m, imp_lineNumber = i + 1\<rparr>) (exec_all requirePattern (lines ! i)))
      else imports)"
  by pat_completeness auto
termination
  by (relation "measure (\<lambda>(lines, i, imports). length lines - i)") auto

declare import_line_loop.simps [simp del]

definition extractImports :: "string \<Rightarrow> importInfo list" where
  "extractImports fileContent = import_line_loop (split_on nl fileContent) 0 []"

definition possiblePaths :: "pathLib \<Rightarrow> string \<Rightarrow> string list" where
  "possiblePaths lib resolvedPath =
     [resolvedPath,
      resolvedPath @ ''.ts'',
      resolvedPath @ ''.js'',
      resolvedPath @ ''.tsx'',
      resolvedPath @ ''.jsx'',
      path_join lib resolvedPath ''index.ts'',
      path_join lib resolvedPath ''index.js'',
      path_join lib resolvedPath ''index.tsx'',
      path_join lib resolvedPath ''index.jsx'']"

text \<open>"Check which path exists at the given commit": the first candidate for which
  \<open>git cat-file -e\<close> does not throw.\<close>

fun probe_loop :: "git \<Rightarrow> string \<Rightarrow> string list \<Rightarrow> string option" where
  "probe_loop g commit [] = None"
| "probe_loop g commit (testPath # rest) =
     (if git_cat_file_e g commit testPath then Some testPath else probe_loop g commit rest)"

definition resolveImportPath :: "pathLib \<Rightarrow> git \<Rightarrow> string \<Rightarrow> string \<Rightarrow> string \<Rightarrow> string option" where
  "resolveImportPath lib g importSource importingFile commit =
     (if \<not> startsWith importSource ''.'' \<and> \<not> startsWith importSource ''/'' then None
      else
        (let importingDir = path_dirname lib importingFile;
             resolvedPath = path_normalize lib (path_join lib importingDir importSource);
             resolvedPath = (if startsWith resolvedPath ''/'' then drop 1 resolvedPath else resolvedPath)
         in probe_loop g commit (possiblePaths lib resolvedPath)))"

section \<open>analyzeIndirectImpact\<close>

definition indirect_change :: "string \<Rightarrow> string \<Rightarrow> extractedTest \<Rightarrow> testChange" where
  "indirect_change testFile resolvedPath t =
     \<lparr>tc_type = Modified, tc_testName = testName t, tc_filePath = testFile,
      tc_lineNumber = lineNumber t, changeKind = kind t, impactType = Indirect,
      impactedBy = Some resolvedPath\<rparr>"

text \<open>The loop over the imports of one test file. On the first import whose resolved path
  is truthy (resolved, and not the empty string) and a changed non-test path, it pushes a
  record for every test of the file and breaks.\<close>

fun import_loop ::
  "pathLib \<Rightarrow> git \<Rightarrow> string \<Rightarrow> string set \<Rightarrow> string \<Rightarrow> string \<Rightarrow> importInfo list
     \<Rightarrow> testChange list \<Rightarrow> testChange list" where
  "import_loop lib g headCommit changedNonTestPaths testFile testContent [] indirectImpacts =
     indirectImpacts"
| "import_loop lib g headCommit changedNonTestPaths testFile testContent (importInfo # rest)
     indirectImpacts =
     (case resolveImportPath lib g (source importInfo) testFile headCommit of
        None \<Rightarrow>
          import_loop lib g headCommit changedNonTestPaths testFile testContent rest indirectImpacts
      | Some resolvedPath \<Rightarrow>
          if resolvedPath \<noteq> [] \<and> resolvedPath \<in> changedNonTestPaths
          then indirectImpacts
               @ map (indirect_change testFile resolvedPath)
                   (extractTestsFromContent testContent testFile)
          else import_loop lib g headCommit changedNonTestPaths testFile testContent rest
                 indirectImpacts)"

text \<open>The \<open>try\<close> block for one test file: \<open>Inl\<close> is the exception of \<open>execSync\<close>, thrown
  before anything is pushed.\<close>

definition try_test_file ::
  "pathLib \<Rightarrow> git \<Rightarrow> string \<Rightarrow> string set \<Rightarrow> string \<Rightarrow> testChange list
     \<Rightarrow> error + testChange list" where
  "try_test_file lib g headCommit changedNonTestPaths testFile indirectImpacts =
     (case git_show g headCommit testFile of
        None \<Rightarrow> Inl ExecError
      | Some testContent \<Rightarrow>
          Inr (import_loop lib g headCommit changedNonTestPaths testFile testContent
                 (extractImports testContent) indirectImpacts))"

text \<open>The loop over \<open>unchangedTestFiles\<close>; the \<open>catch\<close> skips the file.\<close>

fun test_file_loop ::
  "pathLib \<Rightarrow> git \<Rightarrow> string \<Rightarrow> string set \<Rightarrow> string list \<Rightarrow> testChange list \<Rightarrow> testChange list" where
  "test_file_loop lib g headCommit changedNonTestPaths [] indirectImpacts = indirectImpacts"
| "test_file_loop lib g headCommit changedNonTestPaths (testFile # rest) indirectImpacts =
     (case try_test_file lib g headCommit changedNonTestPaths testFile indirectImpacts of
        Inl e \<Rightarrow> test_file_loop lib g headCommit changedNonTestPaths rest indirectImpacts
      | Inr indirectImpacts' \<Rightarrow>
          test_file_loop lib g headCommit changedNonTestPaths rest indirectImpacts')"

definition analyzeIndirectImpact ::
  "pathLib \<Rightarrow> git \<Rightarrow> string \<Rightarrow> string \<Rightarrow> changedFile list \<Rightarrow> changedFile list \<Rightarrow> testChange list" where
  "analyzeIndirectImpact lib g baseCommit headCommit changedNonTestFiles changedTestFiles =
     (let changedNonTestPaths = set (map path changedNonTestFiles);
          allTestFiles = getAllTestFiles g headCommit;
          unchangedTestFiles =
            filter (\<lambda>testFile. \<not> list_ex (\<lambda>cf. path cf = testFile) changedTestFiles) allTestFiles
      in test_file_loop lib g headCommit changedNonTestPaths unchangedTestFiles [])"

section \<open>analyze\<close>

record fileChange =
  fc_filePath :: string
  fc_changeType :: fileChangeType
  isTestFile :: bool
  testChanges :: "testChange list option"

record summary =
  totalFilesChanged :: nat
  testFilesChanged :: nat
  testsAdded :: nat
  testsRemoved :: nat
  testsModified :: nat
  testsIndirectlyImpacted :: nat

record analysisResult =
  baseCommit :: string
  headCommit :: string
  changedFiles :: "fileChange list"
  directlyImpactedTests :: "testChange list"
  indirectlyImpactedTests :: "testChange list"
  summary :: summary

text \<open>The state of the loop over the changed files: \<open>fileChanges\<close>,
  \<open>directlyImpactedTests\<close>, \<open>changedTestFiles\<close> and \<open>changedNonTestFiles\<close>.\<close>

record analyzeState =
  st_fileChanges :: "fileChange list"
  st_directlyImpactedTests :: "testChange list"
  st_changedTestFiles :: "changedFile list"
  st_changedNonTestFiles :: "changedFile list"

fun changed_file_loop :: "git \<Rightarrow> string \<Rightarrow> string \<Rightarrow> changedFile list \<Rightarrow> analyzeState \<Rightarrow> analyzeState" where
  "changed_file_loop g base head [] st = st"
| "changed_file_loop g base head (file # rest) st =
     (if isPlaywrightTestFile (path file)
      then
        (let tcs = analyzeTestFileChanges g base head (path file)
         in changed_file_loop g base head rest
              \<lparr>st_fileChanges = st_fileChanges st
                 @ [\<lparr>fc_filePath = path file, fc_changeType = changeType file,
                     isTestFile = True, testChanges = Some tcs\<rparr>],
               st_directlyImpactedTests = st_directlyImpactedTests st @ tcs,
               st_changedTestFiles = st_changedTestFiles st @ [file],
               st_changedNonTestFiles = st_changedNonTestFiles st\<rparr>)
      else
        changed_file_loop g base head rest
          \<lparr>st_fileChanges = st_fileChanges st
             @ [\<lparr>fc_filePath = path file, fc_changeType = changeType file,
                 isTestFile = False, testChanges = None\<rparr>],
           st_directlyImpactedTests = st_directlyImpactedTests st,
           st_changedTestFiles = st_changedTestFiles st,
           st_changedNonTestFiles = st_changedNonTestFiles st @ [file]\<rparr>)"

definition analyze :: "pathLib \<Rightarrow> git \<Rightarrow> string \<Rightarrow> string \<Rightarrow> error + analysisResult" where
  "analyze lib g base head =
     (case getChangedFiles g base head of
        Inl e \<Rightarrow> Inl e
      | Inr files \<Rightarrow>
          (let st = changed_file_loop g base head files
                      \<lparr>st_fileChanges = [], st_directlyImpactedTests = [],
                       st_changedTestFiles = [], st_changedNonTestFiles = []\<rparr>;
               indirect =
                 (if length (st_changedNonTestFiles st) > 0
                  then analyzeIndirectImpact lib g base head
                         (st_changedNonTestFiles st) (st_changedTestFiles st)
                  else []);
               direct = st_directlyImpactedTests st
           in Inr \<lparr>baseCommit = base, headCommit = head,
                   changedFiles = st_fileChanges st,
                   directlyImpactedTests = direct,
                   indirectlyImpactedTests = indirect,
                   summary =
                     \<lparr>totalFilesChanged = length (st_fileChanges st),
                      testFilesChanged = length (filter isTestFile (st_fileChanges st)),
                      testsAdded = length (filter (\<lambda>t. tc_type t = Added) direct),
                      testsRemoved = length (filter (\<lambda>t. tc_type t = Removed) direct),
                      testsModified = length (filter (\<lambda>t. tc_type t = Modified) direct),
                      testsIndirectlyImpacted = length indirect\<rparr>\<rparr>))"

section \<open>Predicates and rules the theorems are stated with\<close>

text \<open>What the loop over \<open>headTests\<close> pushes for one head declaration: the comparison is
  with the first base declaration of the same name and kind.\<close>

definition head_outcome :: "string \<Rightarrow> extractedTest list \<Rightarrow> extractedTest \<Rightarrow> testChange list" where
  "head_outcome filePath baseTests h =
     (case find (same_test h) baseTests of
        None \<Rightarrow> [direct_change Added filePath h]
      | Some b \<Rightarrow> if content b \<noteq> content h then [direct_change Modified filePath h] else [])"

section \<open>An in-memory repository and a POSIX path library, for the worked examples\<close>

text \<open>A repository with the two revisions \<open>base\<close> and \<open>head\<close>, each a list of files with
  their contents, and a fixed output of \<open>git diff --name-status base..head\<close>. As in git,
  \<open>cat-file -e\<close> succeeds for a file and for a directory that holds one.\<close>

definition tree_of :: "(string \<times> string) list \<Rightarrow> (string \<times> string) list \<Rightarrow> string
    \<Rightarrow> (string \<times> string) list option" where
  "tree_of baseFiles headFiles commit =
     (if commit = ''base'' then Some baseFiles
      else if commit = ''head'' then Some headFiles
      else None)"

definition memory_git :: "string \<Rightarrow> (string \<times> string) list \<Rightarrow> (string \<times> string) list \<Rightarrow> git" where
  "memory_git diffOutput baseFiles headFiles =
     \<lparr>git_diff_name_status =
        (\<lambda>b h. if b = ''base'' \<and> h = ''head'' then Some diffOutput else None),
      git_show =
        (\<lambda>commit p. case tree_of baseFiles headFiles commit of
                       None \<Rightarrow> None
                     | Some files \<Rightarrow> map_of files p),
      git_ls_tree =
        (\<lambda>commit. case tree_of baseFiles headFiles commit of
                     None \<Rightarrow> None
                   | Some files \<Rightarrow> Some (concat (map (\<lambda>(p, c). p @ [nl]) files))),
      git_cat_file_e =
        (\<lambda>commit p. case tree_of baseFiles headFiles commit of
                       None \<Rightarrow> False
                     | Some files \<Rightarrow>
                         map_of files p \<noteq> None
                         \<or> list_ex (\<lambda>(f, c). prefix (p @ ''/'') f) files)\<rparr>"

text \<open>\<open>path.posix\<close> of Node, after its documentation: \<open>normalize\<close> drops empty and \<open>.\<close>
  segments and resolves \<open>..\<close> against the segment before it, \<open>join\<close> normalizes the
  arguments joined by \<open>/\<close>, \<open>dirname\<close> cuts the last segment.\<close>

fun normalize_segments :: "bool \<Rightarrow> string list \<Rightarrow> string list \<Rightarrow> string list" where
  "normalize_segments allowAboveRoot [] res = res"
| "normalize_segments allowAboveRoot (seg # rest) res =
     (if seg = [] \<or> seg = ''.'' then normalize_segments allowAboveRoot rest res
      else if seg = ''..''
      then (if res \<noteq> [] \<and> last res \<noteq> ''..''
            then normalize_segments allowAboveRoot rest (butlast res)
            else if allowAboveRoot
            then normalize_segments allowAboveRoot rest (res @ [''..''])
            else normalize_segments allowAboveRoot rest res)
      else normalize_segments allowAboveRoot rest (res @ [seg]))"

definition posix_normalize :: "string \<Rightarrow> string" where
  "posix_normalize p =
     (if p = [] then ''.''
      else
        (let isAbsolute = (hd p = CHR ''/'');
             trailingSeparator = (last p = CHR ''/'');
             q = join_with CHR ''/''
                   (normalize_segments (\<not> isAbsolute) (split_on CHR ''/'' p) [])
         in if q = [] then (if isAbsolute then ''/'' else if trailingSeparator then ''./'' else ''.'')
            else (if isAbsolute then ''/'' else [])
                 @ q @ (if trailingSeparator then ''/'' else [])))"

definition posix_join :: "string \<Rightarrow> string \<Rightarrow> string" where
  "posix_join a b =
     (let joined = (if a = [] then b else if b = [] then a else a @ ''/'' @ b)
      in if joined = [] then ''.'' else posix_normalize joined)"

definition posix_dirname :: "string \<Rightarrow> string" where
  "posix_dirname p =
     (if p = [] then ''.''
      else
        (let hasRoot = (hd p = CHR ''/'');
             r = dropWhile (\<lambda>c. c \<noteq> CHR ''/'') (dropWhile (\<lambda>c. c = CHR ''/'') (rev (tl p)))
         in if r = [] then (if hasRoot then ''/'' else ''.'')
            else if hasRoot \<and> length r = 1 then ''//''
            else hd p # rev (tl r)))"

definition posix_path :: pathLib where
  "posix_path =
     \<lparr>path_dirname = posix_dirname, path_join = posix_join, path_normalize = posix_normalize\<rparr>"

text \<open>Example: a file with two tests of the same name (in different suites, say); the head
  revision deletes the first of them.\<close>

definition dup_base :: string where
  "dup_base = join_with nl [''test('works', () => { a() })'', ''test('works', () => { b() })'']"

definition dup_head :: string where
  "dup_head = ''test('works', () => { b() })''"

definition dup_git :: git where
  "dup_git = memory_git (''M'' @ [tab] @ ''t.spec.ts'' @ [nl])
               [(''t.spec.ts'', dup_base)] [(''t.spec.ts'', dup_head)]"

text \<open>Example: the head revision adds a test, moves one, edits one and deletes one.\<close>

definition moved_base :: string where
  "moved_base = join_with nl
     [''test('a', () => { f() })'',
      ''test('gone', () => { g() })'',
      ''test('m', () => { one() })'']"

definition moved_head :: string where
  "moved_head = join_with nl
     [''test('new', () => { n() })'',
      ''test('a', () => { f() })'',
      ''test('m', () => { two() })'']"

definition moved_base_tests :: "extractedTest list" where
  "moved_base_tests =
     [\<lparr>testName = ''a'', lineNumber = 1, content = ''test('a', () => { f() })'', kind = Test\<rparr>,
      \<lparr>testName = ''gone'', lineNumber = 2, content = ''test('gone', () => { g() })'', kind = Test\<rparr>,
      \<lparr>testName = ''m'', lineNumber = 3, content = ''test('m', () => { one() })'', kind = Test\<rparr>]"

definition moved_head_tests :: "extractedTest list" where
  "moved_head_tests =
     [\<lparr>testName = ''new'', lineNumber = 1, content = ''test('new', () => { n() })'', kind = Test\<rparr>,
      \<lparr>testName = ''a'', lineNumber = 2, content = ''test('a', () => { f() })'', kind = Test\<rparr>,
      \<lparr>testName = ''m'', lineNumber = 3, content = ''test('m', () => { two() })'', kind = Test\<rparr>]"

text \<open>What the loop over \<open>allPatterns\<close> pushes for line \<open>i\<close>: one entry for each pattern
  that matches the line, in the order of the patterns.\<close>

definition line_entries :: "string list \<Rightarrow> nat \<Rightarrow> extractedTest list" where
  "line_entries lines i =
     concat (map (\<lambda>(pattern, k).
                    case exec_group1 pattern (lines ! i) of
                      None \<Rightarrow> []
                    | Some name \<Rightarrow>
                        [\<lparr>testName = name, lineNumber = i + 1,
                          content = extractTestBody lines i, kind = k\<rparr>])
                 allPatterns)"

text \<open>The test of \<open>extractTestBody\<close> at the end of a line, \<open>started && braceDepth === 0\<close>, on
  the loop state and on a text scanned from depth zero.\<close>

definition done_at :: "int \<times> bool \<Rightarrow> bool" where
  "done_at st = (snd st \<and> fst st = 0)"

definition balanced :: "string \<Rightarrow> bool" where
  "balanced s = (count_braces s (0, False) = (0, True))"

text \<open>
  The differ as the specification words it, for comparison with \<open>diffTests\<close>: each head
  declaration is matched to the first base declaration of its name and kind that is not
  yet matched, and the Removed pass reports the base declarations left unmatched.
\<close>

fun take_first_match ::
  "extractedTest \<Rightarrow> extractedTest list \<Rightarrow> (extractedTest \<times> extractedTest list) option" where
  "take_first_match h [] = None"
| "take_first_match h (b # bs) =
     (if same_test h b then Some (b, bs)
      else (case take_first_match h bs of
              None \<Rightarrow> None
            | Some (m, unmatched) \<Rightarrow> Some (m, b # unmatched)))"

fun positional_head ::
  "string \<Rightarrow> extractedTest list \<Rightarrow> extractedTest list \<Rightarrow> testChange list \<times> extractedTest list" where
  "positional_head filePath unmatched [] = ([], unmatched)"
| "positional_head filePath unmatched (h # hs) =
     (case take_first_match h unmatched of
        None \<Rightarrow>
          (let (rs, u) = positional_head filePath unmatched hs
           in (direct_change Added filePath h # rs, u))
      | Some (b, unmatched') \<Rightarrow>
          (let (rs, u) = positional_head filePath unmatched' hs
           in ((if content b \<noteq> content h then [direct_change Modified filePath h] else []) @ rs, u)))"

definition diff_positional :: "string \<Rightarrow> extractedTest list \<Rightarrow> extractedTest list \<Rightarrow> testChange list" where
  "diff_positional filePath baseTests headTests =
     (let (rs, u) = positional_head filePath baseTests headTests
      in rs @ map (direct_change Removed filePath) u)"

text \<open>Examples for body capture: a test of three lines followed by more text; a test
  whose brace never closes; a test that closes in the middle of a line on which a second
  one opens; a line that closes a block before it opens the test.\<close>

definition multi_text :: string where
  "multi_text = join_with nl [''test('a', async () => {'', ''  x();'', ''});'', ''after()'']"

definition eof_text :: string where
  "eof_text = ''test('a', () => {''"

definition midline_text :: string where
  "midline_text = join_with nl
     [''test('a', () => { x() }); test('b', () => {'', ''  y();'', ''});'', ''after()'']"

definition preclose_text :: string where
  "preclose_text = join_with nl [''}); test('a', () => {'', ''  x();'', ''});'', ''after()'']"

text \<open>Example for the line cap: a test that opens no brace, followed by 510 lines
  without braces.\<close>

definition cap_text :: string where
  "cap_text = join_with nl (''test('a', f)'' # replicate 510 ''x'')"

text \<open>The classification rule in words: the test suffixes \<open>.spec.\<close> and \<open>.test.\<close> followed by
  a source extension, and the names the third pattern ends in.\<close>

definition source_extensions :: "string list" where
  "source_extensions = [''ts'', ''js'', ''tsx'', ''jsx'']"

definition has_test_suffix :: "string \<Rightarrow> bool" where
  "has_test_suffix p =
     (\<exists>e \<in> set source_extensions. suffix (''.spec.'' @ e) p \<or> suffix (''.test.'' @ e) p)"

definition playwright_names :: "string list" where
  "playwright_names =
     [''playwright.ts'', ''playwright.js'', ''playwright.config.ts'', ''playwright.config.js'']"

text \<open>Example for the resolver and the indirect pass: a test file imports two helpers by
  relative paths without extension, and both helpers change.\<close>

definition a_spec :: string where
  "a_spec = join_with nl
     [''import { h } from '../utils/helpers';'',
      ''import { f } from '../utils/fixtures';'',
      ''test.describe('suite', () => {'',
      ''  test('uses h', () => { h(f) })'',
      ''})'']"

definition helper_git :: git where
  "helper_git =
     memory_git (''M'' @ [tab] @ ''utils/fixtures.ts'' @ [nl] @ ''M'' @ [tab] @ ''utils/helpers.ts'' @ [nl])
       [(''tests/a.spec.ts'', a_spec),
        (''utils/fixtures.ts'', ''export const f = 1;''),
        (''utils/helpers.ts'', ''export const h = 1;'')]
       [(''tests/a.spec.ts'', a_spec),
        (''utils/fixtures.ts'', ''export const f = 2;''),
        (''utils/helpers.ts'', ''export const h = 2;'')]"

text \<open>The same repository with a second test file that \<open>git ls-tree\<close> lists and \<open>git show\<close>
  fails to read.\<close>

definition flaky_git :: git where
  "flaky_git =
     helper_git
       \<lparr>git_show := (\<lambda>commit p. if p = ''tests/b.spec.ts'' then None
                                 else git_show helper_git commit p),
        git_ls_tree := (\<lambda>commit. Some (''tests/b.spec.ts'' @ [nl] @ ''tests/a.spec.ts'' @ [nl]))\<rparr>"

text \<open>Example: a test file is renamed without a change of its text.\<close>

definition rename_git :: git where
  "rename_git =
     memory_git (''R100'' @ [tab] @ ''tests/old.spec.ts'' @ [tab] @ ''tests/new.spec.ts'' @ [nl])
       [(''tests/old.spec.ts'', ''test('t', () => { x() })'')]
       [(''tests/new.spec.ts'', ''test('t', () => { x() })'')]"

text \<open>Example: only \<open>package.json\<close> changes, and the one test file imports a package.\<close>

definition package_git :: git where
  "package_git =
     memory_git (''M'' @ [tab] @ ''package.json'' @ [nl])
       [(''package.json'', ''{ }''),
        (''tests/a.spec.ts'', ''import { test } from '@playwright/test'; test('t', () => { x() })'')]
       [(''package.json'', ''{ \"a\": 1 }''),
        (''tests/a.spec.ts'', ''import { test } from '@playwright/test'; test('t', () => { x() })'')]"

text \<open>The test of the loop over the imports of a test file, for one import: the resolved
  path when it is truthy and a changed non-test path.\<close>

definition import_hit ::
  "pathLib \<Rightarrow> git \<Rightarrow> string \<Rightarrow> string set \<Rightarrow> string \<Rightarrow> importInfo \<Rightarrow> string option" where
  "import_hit lib g head changedNonTestPaths testFile importInfo =
     (case resolveImportPath lib g (source importInfo) testFile head of
        None \<Rightarrow> None
      | Some resolvedPath \<Rightarrow>
          if resolvedPath \<noteq> [] \<and> resolvedPath \<in> changedNonTestPaths
          then Some resolvedPath else None)"

text \<open>The first import, in the order of extraction, that passes the test.\<close>

definition first_hit ::
  "pathLib \<Rightarrow> git \<Rightarrow> string \<Rightarrow> string set \<Rightarrow> string \<Rightarrow> importInfo list \<Rightarrow> string option" where
  "first_hit lib g head changedNonTestPaths testFile imports =
     (case find (\<lambda>i. import_hit lib g head changedNonTestPaths testFile i \<noteq> None) imports of
        None \<Rightarrow> None
      | Some i \<Rightarrow> import_hit lib g head changedNonTestPaths testFile i)"

text \<open>The indirect records of one test file: none when its head content cannot be read or
  no import passes the test, else one for every declaration of the file.\<close>

definition file_impacts ::
  "pathLib \<Rightarrow> git \<Rightarrow> string \<Rightarrow> string set \<Rightarrow> string \<Rightarrow> testChange list" where
  "file_impacts lib g head changedNonTestPaths testFile =
     (case git_show g head testFile of
        None \<Rightarrow> []
      | Some testContent \<Rightarrow>
          (case first_hit lib g head changedNonTestPaths testFile
                  (extractImports testContent) of
             None \<Rightarrow> []
           | Some resolvedPath \<Rightarrow>
               map (indirect_change testFile resolvedPath)
                 (extractTestsFromContent testContent testFile)))"

text \<open>The \<open>fileChange\<close> that \<open>analyze\<close> records for one changed file.\<close>

definition fileChange_of :: "git \<Rightarrow> string \<Rightarrow> string \<Rightarrow> changedFile \<Rightarrow> fileChange" where
  "fileChange_of g base head file =
     \<lparr>fc_filePath = path file, fc_changeType = changeType file,
      isTestFile = isPlaywrightTestFile (path file),
      testChanges = (if isPlaywrightTestFile (path file)
                     then Some (analyzeTestFileChanges g base head (path file))
                     else None)\<rparr>"

text \<open>A pattern whose every match sets the capture group: the group lies on every path
  through the pattern.\<close>

fun captures :: "rx \<Rightarrow> bool" where
  "captures (Cap a) = True"
| "captures (Seq a b) = (captures a \<or> captures b)"
| "captures (Alt a b) = (captures a \<and> captures b)"
| "captures r = False"

section \<open>Evaluation of the worked examples\<close>

lemmas extract_eval =
  extractTestsFromContent_def nl_def allPatterns_def testPatterns_def describePatterns_def
  declPattern_def exec_group1_def extractTestBody_def is_space_def cls_quote3_def cls_dot_def
  line_loop.simps

lemma dup_base_tests:
  "extractTestsFromContent dup_base ''t.spec.ts'' =
     [\<lparr>testName = ''works'', lineNumber = 1, content = ''test('works', () => { a() })'', kind = Test\<rparr>,
      \<lparr>testName = ''works'', lineNumber = 2, content = ''test('works', () => { b() })'', kind = Test\<rparr>]"
  by (simp add: dup_base_def extract_eval)

lemma dup_head_tests:
  "extractTestsFromContent dup_head ''t.spec.ts'' =
     [\<lparr>testName = ''works'', lineNumber = 1, content = ''test('works', () => { b() })'', kind = Test\<rparr>]"
  by (simp add: dup_head_def extract_eval)

lemma moved_base_extract: "extractTestsFromContent moved_base ''m.spec.ts'' = moved_base_tests"
  by (simp add: moved_base_def moved_base_tests_def extract_eval)

lemma moved_head_extract: "extractTestsFromContent moved_head ''m.spec.ts'' = moved_head_tests"
  by (simp add: moved_head_def moved_head_tests_def extract_eval)

section \<open>The differ\<close>

lemma head_loop_eq:
  "head_loop fp base hs acc = acc @ concat (map (head_outcome fp base) hs)"
  by (induction hs arbitrary: acc) (auto simp: head_outcome_def split: option.splits)

lemma base_loop_eq:
  "base_loop fp head bs acc =
     acc @ map (direct_change Removed fp) (filter (\<lambda>b. find (same_test b) head = None) bs)"
  by (induction bs arbitrary: acc) (auto split: option.splits)

lemma find_None_iff_list_ex: "(find P xs = None) = (\<not> list_ex P xs)"
  by (induction xs) auto

lemma find_first: "(\<forall>x\<in>set pre. \<not> P x) \<Longrightarrow> P b \<Longrightarrow> find P (pre @ b # post) = Some b"
  by (induction pre) auto

lemma diffTests_eq:
  "diffTests fp base head =
     concat (map (head_outcome fp base) head)
     @ map (direct_change Removed fp) (filter (\<lambda>b. \<not> list_ex (same_test b) head) base)"
  by (simp add: diffTests_def head_loop_eq base_loop_eq find_None_iff_list_ex)

lemma head_outcome_direct:
  "r \<in> set (head_outcome fp base h)
     \<Longrightarrow> impactType r = Direct \<and> impactedBy r = None \<and> tc_filePath r = fp"
  by (auto simp: head_outcome_def direct_change_def split: option.splits if_splits)

lemma diffTests_direct:
  "r \<in> set (diffTests fp base head)
     \<Longrightarrow> impactType r = Direct \<and> impactedBy r = None \<and> tc_filePath r = fp"
  unfolding diffTests_eq using head_outcome_direct by (auto simp: direct_change_def)

text \<open>
  Claim C1, as amended. The differ emits, for each head declaration in order, what
  \<open>head_outcome\<close> gives: Added when no base declaration has its name and kind; otherwise it
  compares the head body with the body of the first base declaration of that name and
  kind, and emits Modified when the two differ and nothing when they are equal. Then it
  emits Removed for each base declaration whose name and kind no head declaration has.
  Every record carries impact origin Direct. A declaration present in both lists with equal
  name, kind and body is not reported, whatever its line, provided no earlier base
  declaration has the same name and kind.
\<close>

theorem diffTests_first_match_rule:
  "diffTests filePath baseTests headTests =
     concat (map (head_outcome filePath baseTests) headTests)
     @ map (direct_change Removed filePath)
         (filter (\<lambda>b. \<not> list_ex (same_test b) headTests) baseTests)
   \<and> (\<forall>r \<in> set (diffTests filePath baseTests headTests).
         impactType r = Direct \<and> impactedBy r = None \<and> tc_filePath r = filePath)
   \<and> (\<forall>h. \<not> list_ex (same_test h) baseTests
         \<longrightarrow> head_outcome filePath baseTests h = [direct_change Added filePath h])
   \<and> (\<forall>h b. find (same_test h) baseTests = Some b \<and> content b \<noteq> content h
         \<longrightarrow> head_outcome filePath baseTests h = [direct_change Modified filePath h])
   \<and> (\<forall>h b. find (same_test h) baseTests = Some b \<and> content b = content h
         \<longrightarrow> head_outcome filePath baseTests h = [])
   \<and> (\<forall>h pre b post.
         baseTests = pre @ b # post \<and> (\<forall>x \<in> set pre. \<not> same_test h x)
         \<and> same_test h b \<and> content b = content h
         \<longrightarrow> head_outcome filePath baseTests h = [])"
proof -
  have dir: "\<forall>r \<in> set (diffTests filePath baseTests headTests).
         impactType r = Direct \<and> impactedBy r = None \<and> tc_filePath r = filePath"
    using diffTests_direct by blast
  have a: "\<forall>h. \<not> list_ex (same_test h) baseTests
         \<longrightarrow> head_outcome filePath baseTests h = [direct_change Added filePath h]"
    by (simp add: head_outcome_def find_None_iff_list_ex[symmetric])
  have m: "\<forall>h b. find (same_test h) baseTests = Some b \<and> content b \<noteq> content h
         \<longrightarrow> head_outcome filePath baseTests h = [direct_change Modified filePath h]"
    by (simp add: head_outcome_def)
  have u: "\<forall>h b. find (same_test h) baseTests = Some b \<and> content b = content h
         \<longrightarrow> head_outcome filePath baseTests h = []"
    by (simp add: head_outcome_def)
  have mv: "\<forall>h pre b post.
         baseTests = pre @ b # post \<and> (\<forall>x \<in> set pre. \<not> same_test h x)
         \<and> same_test h b \<and> content b = content h
         \<longrightarrow> head_outcome filePath baseTests h = []"
    by (auto simp: head_outcome_def find_first)
  from diffTests_eq dir a m u mv show ?thesis by blast
qed

text \<open>The rule at the example: \<open>new\<close> is added, \<open>m\<close> is modified, \<open>gone\<close> is removed, and
  \<open>a\<close>, which moved from line 1 to line 2 with the same body, is not reported.\<close>

theorem diffTests_first_match_rule_witness:
  "\<not> list_ex (same_test (moved_head_tests ! 0)) moved_base_tests
   \<and> find (same_test (moved_head_tests ! 2)) moved_base_tests = Some (moved_base_tests ! 2)
   \<and> content (moved_base_tests ! 2) \<noteq> content (moved_head_tests ! 2)
   \<and> moved_base_tests = [] @ (moved_base_tests ! 0) # tl moved_base_tests
   \<and> same_test (moved_head_tests ! 1) (moved_base_tests ! 0)
   \<and> content (moved_base_tests ! 0) = content (moved_head_tests ! 1)
   \<and> lineNumber (moved_base_tests ! 0) \<noteq> lineNumber (moved_head_tests ! 1)
   \<and> head_outcome ''m.spec.ts'' moved_base_tests (moved_head_tests ! 0)
       = [direct_change Added ''m.spec.ts'' (moved_head_tests ! 0)]
   \<and> head_outcome ''m.spec.ts'' moved_base_tests (moved_head_tests ! 2)
       = [direct_change Modified ''m.spec.ts'' (moved_head_tests ! 2)]
   \<and> head_outcome ''m.spec.ts'' moved_base_tests (moved_head_tests ! 1) = []
   \<and> diffTests ''m.spec.ts'' moved_base_tests moved_head_tests
       = [direct_change Added ''m.spec.ts'' (moved_head_tests ! 0),
          direct_change Modified ''m.spec.ts'' (moved_head_tests ! 2),
          direct_change Removed ''m.spec.ts'' (moved_base_tests ! 1)]
   \<and> list_all (\<lambda>r. impactType r = Direct)
       (diffTests ''m.spec.ts'' moved_base_tests moved_head_tests)"
proof -
  note rule = diffTests_first_match_rule [of "''m.spec.ts''" moved_base_tests moved_head_tests]
  have h0: "\<not> list_ex (same_test (moved_head_tests ! 0)) moved_base_tests"
    by (simp add: moved_head_tests_def moved_base_tests_def same_test_def)
  have h2: "find (same_test (moved_head_tests ! 2)) moved_base_tests = Some (moved_base_tests ! 2)
            \<and> content (moved_base_tests ! 2) \<noteq> content (moved_head_tests ! 2)"
    by (simp add: moved_head_tests_def moved_base_tests_def same_test_def)
  have h1: "moved_base_tests = [] @ (moved_base_tests ! 0) # tl moved_base_tests
            \<and> (\<forall>x \<in> set []. \<not> same_test (moved_head_tests ! 1) x)
            \<and> same_test (moved_head_tests ! 1) (moved_base_tests ! 0)
            \<and> content (moved_base_tests ! 0) = content (moved_head_tests ! 1)"
    by (simp add: moved_head_tests_def moved_base_tests_def same_test_def)
  have ln: "lineNumber (moved_base_tests ! 0) \<noteq> lineNumber (moved_head_tests ! 1)"
    by (simp add: moved_head_tests_def moved_base_tests_def)
  have o0: "head_outcome ''m.spec.ts'' moved_base_tests (moved_head_tests ! 0)
              = [direct_change Added ''m.spec.ts'' (moved_head_tests ! 0)]"
    using rule h0 by blast
  have o2: "head_outcome ''m.spec.ts'' moved_base_tests (moved_head_tests ! 2)
              = [direct_change Modified ''m.spec.ts'' (moved_head_tests ! 2)]"
    using rule h2 by blast
  have o1: "head_outcome ''m.spec.ts'' moved_base_tests (moved_head_tests ! 1) = []"
    using rule h1 by blast
  have hs: "moved_head_tests = [moved_head_tests ! 0, moved_head_tests ! 1, moved_head_tests ! 2]"
    by (simp add: moved_head_tests_def)
  have rm: "filter (\<lambda>b. \<not> list_ex (same_test b) moved_head_tests) moved_base_tests
              = [moved_base_tests ! 1]"
    by (simp add: moved_head_tests_def moved_base_tests_def same_test_def)
  have "diffTests ''m.spec.ts'' moved_base_tests moved_head_tests =
          concat (map (head_outcome ''m.spec.ts'' moved_base_tests)
                    [moved_head_tests ! 0, moved_head_tests ! 1, moved_head_tests ! 2])
          @ map (direct_change Removed ''m.spec.ts'')
              (filter (\<lambda>b. \<not> list_ex (same_test b) moved_head_tests) moved_base_tests)"
    using rule hs by simp
  then have out: "diffTests ''m.spec.ts'' moved_base_tests moved_head_tests
       = [direct_change Added ''m.spec.ts'' (moved_head_tests ! 0),
          direct_change Modified ''m.spec.ts'' (moved_head_tests ! 2),
          direct_change Removed ''m.spec.ts'' (moved_base_tests ! 1)]"
    using o0 o1 o2 rm by simp
  have dir: "list_all (\<lambda>r. impactType r = Direct)
       (diffTests ''m.spec.ts'' moved_base_tests moved_head_tests)"
    using rule by (simp add: list_all_iff)
  from h0 h2 h1 ln o0 o2 o1 out dir show ?thesis by blast
qed

text \<open>
  Claim C1 as stated fails where the base holds two declarations of one name and kind:
  the head declaration \<open>works\<close> has the name, the kind and the body of the second base
  declaration, it only moved from line 2 to line 1, and it is reported as Modified.
\<close>

theorem diff_identity_counterexample:
  "extractTestsFromContent dup_base ''t.spec.ts'' =
     [\<lparr>testName = ''works'', lineNumber = 1, content = ''test('works', () => { a() })'', kind = Test\<rparr>,
      \<lparr>testName = ''works'', lineNumber = 2, content = ''test('works', () => { b() })'', kind = Test\<rparr>]
   \<and> extractTestsFromContent dup_head ''t.spec.ts'' =
     [\<lparr>testName = ''works'', lineNumber = 1, content = ''test('works', () => { b() })'', kind = Test\<rparr>]
   \<and> analyzeTestFileChanges dup_git ''base'' ''head'' ''t.spec.ts'' =
     [\<lparr>tc_type = Modified, tc_testName = ''works'', tc_filePath = ''t.spec.ts'',
       tc_lineNumber = 1, changeKind = Test, impactType = Direct, impactedBy = None\<rparr>]"
proof -
  have "analyzeTestFileChanges dup_git ''base'' ''head'' ''t.spec.ts'' =
          diffTests ''t.spec.ts'' (extractTestsFromContent dup_base ''t.spec.ts'')
            (extractTestsFromContent dup_head ''t.spec.ts'')"
    by (simp add: analyzeTestFileChanges_def dup_git_def memory_git_def tree_of_def
          dup_base_def dup_head_def nl_def)
  then have "analyzeTestFileChanges dup_git ''base'' ''head'' ''t.spec.ts'' =
     [\<lparr>tc_type = Modified, tc_testName = ''works'', tc_filePath = ''t.spec.ts'',
       tc_lineNumber = 1, changeKind = Test, impactType = Direct, impactedBy = None\<rparr>]"
    by (simp add: dup_base_tests dup_head_tests diffTests_def same_test_def direct_change_def)
  with dup_base_tests dup_head_tests show ?thesis by simp
qed

section \<open>Extraction\<close>

lemma pattern_loop_eq:
  "pattern_loop lines i ps acc =
     acc @ concat (map (\<lambda>(pattern, k).
                    case exec_group1 pattern (lines ! i) of
                      None \<Rightarrow> []
                    | Some name \<Rightarrow>
                        [\<lparr>testName = name, lineNumber = i + 1,
                          content = extractTestBody lines i, kind = k\<rparr>]) ps)"
  by (induction ps arbitrary: acc) (auto split: option.splits)

lemma pattern_loop_entries:
  "pattern_loop lines i allPatterns acc = acc @ line_entries lines i"
  by (simp add: pattern_loop_eq line_entries_def)

lemma line_loop_eq:
  "line_loop lines i acc = acc @ concat (map (line_entries lines) [i..<length lines])"
proof (induction lines i acc rule: line_loop.induct)
  case (1 lines i tests)
  show ?case
  proof (cases "i < length lines")
    case True
    then have "[i..<length lines] = i # [i + 1..<length lines]"
      by (simp add: upt_conv_Cons)
    with True 1 show ?thesis
      by (subst line_loop.simps) (simp add: pattern_loop_entries)
  next
    case False
    then show ?thesis by (subst line_loop.simps) simp
  qed
qed

lemma extractTestsFromContent_eq:
  "extractTestsFromContent c fp =
     concat (map (line_entries (split_on nl c)) [0..<length (split_on nl c)])"
  by (simp add: extractTestsFromContent_def Let_def line_loop_eq)

lemma extracted_entry:
  assumes "d \<in> set (extractTestsFromContent c fp)"
  shows "\<exists>i < length (split_on nl c). lineNumber d = i + 1
           \<and> content d = extractTestBody (split_on nl c) i"
  using assms unfolding extractTestsFromContent_eq line_entries_def
  by (auto split: option.splits)

lemma count_braces_append:
  "count_braces (a @ b) st = count_braces b (count_braces a st)"
  by (induction a st rule: count_braces.induct) auto

lemma count_braces_nl: "count_braces (nl # s) st = count_braces s st"
  by (cases st) (simp add: nl_def)

lemma count_braces_join:
  "count_braces (join_with nl ls) st = fold count_braces ls st"
proof (induction ls arbitrary: st)
  case Nil
  then show ?case by simp
next
  case (Cons l ls)
  then show ?case
    by (cases ls) (simp_all add: count_braces_append count_braces_nl)
qed

lemma join_with_snoc: "ls \<noteq> [] \<Longrightarrow> join_with c (ls @ [l]) = join_with c ls @ c # l"
  by (induction c ls rule: join_with.induct) auto

lemma body_loop_shape:
  "\<exists>n. body_loop rest body st = body @ take n rest
       \<and> n \<le> length rest
       \<and> (rest \<noteq> [] \<longrightarrow> 1 \<le> n)
       \<and> (length body \<le> 500 \<longrightarrow> length body + n \<le> 501)
       \<and> (\<forall>m. 1 \<le> m \<and> m < n \<longrightarrow> \<not> done_at (fold count_braces (take m rest) st))
       \<and> (n < length rest \<and> length body + n < 500
            \<longrightarrow> done_at (fold count_braces (take n rest) st))"
proof (induction rest arbitrary: body st)
  case Nil
  then show ?case by simp
next
  case (Cons line rest)
  let ?st' = "count_braces line st"
  show ?case
  proof (cases "done_at ?st' \<or> length (body @ [line]) > 500")
    case True
    then have "body_loop (line # rest) body st = body @ take 1 (line # rest)"
      by (auto simp: Let_def done_at_def)
    moreover have "\<forall>m. 1 \<le> m \<and> m < (1::nat) \<longrightarrow> \<not> done_at (fold count_braces (take m (line # rest)) st)"
      by simp
    moreover have "(1::nat) < length (line # rest) \<and> length body + 1 < 500
            \<longrightarrow> done_at (fold count_braces (take 1 (line # rest)) st)"
      using True by auto
    moreover have "length body \<le> 500 \<longrightarrow> length body + 1 \<le> 501"
      by simp
    ultimately show ?thesis
      by (intro exI[of _ 1]) simp
  next
    case False
    from Cons.IH[of "body @ [line]" ?st'] obtain n where
      n: "body_loop rest (body @ [line]) ?st' = (body @ [line]) @ take n rest"
         "n \<le> length rest"
         "length (body @ [line]) \<le> 500 \<longrightarrow> length (body @ [line]) + n \<le> 501"
         "\<forall>m. 1 \<le> m \<and> m < n \<longrightarrow> \<not> done_at (fold count_braces (take m rest) ?st')"
         "n < length rest \<and> length (body @ [line]) + n < 500
            \<longrightarrow> done_at (fold count_braces (take n rest) ?st')"
      by blast
    have eq: "body_loop (line # rest) body st = body @ take (Suc n) (line # rest)"
      using False n(1) by (auto simp: Let_def done_at_def)
    have cap: "length body \<le> 500 \<longrightarrow> length body + Suc n \<le> 501"
      using False n(3) by simp
    have mins: "\<forall>m. 1 \<le> m \<and> m < Suc n \<longrightarrow> \<not> done_at (fold count_braces (take m (line # rest)) st)"
    proof (intro allI impI)
      fix m assume m: "1 \<le> m \<and> m < Suc n"
      then obtain m' where m': "m = Suc m'" by (cases m) auto
      show "\<not> done_at (fold count_braces (take m (line # rest)) st)"
      proof (cases m')
        case 0
        with m' False show ?thesis by simp
      next
        case (Suc k)
        with m m' n(4) show ?thesis by simp
      qed
    qed
    have fin: "Suc n < length (line # rest) \<and> length body + Suc n < 500
            \<longrightarrow> done_at (fold count_braces (take (Suc n) (line # rest)) st)"
      using n(5) by simp
    from eq n(2) cap mins fin show ?thesis
      by (intro exI[of _ "Suc n"]) simp
  qed
qed

lemma extractTestBody_shape:
  assumes "i < length lines"
  shows "\<exists>n. 1 \<le> n \<and> n \<le> 501 \<and> i + n \<le> length lines
       \<and> extractTestBody lines i = join_with nl (take n (drop i lines))
       \<and> (\<forall>m. 1 \<le> m \<and> m < n \<longrightarrow> \<not> balanced (join_with nl (take m (drop i lines))))
       \<and> (n < 500 \<and> i + n < length lines \<longrightarrow> balanced (extractTestBody lines i))"
proof -
  from body_loop_shape[of "drop i lines" "[]" "(0, False)"] obtain n where
    n: "body_loop (drop i lines) [] (0, False) = take n (drop i lines)"
       "n \<le> length (drop i lines)"
       "drop i lines \<noteq> [] \<longrightarrow> 1 \<le> n"
       "length ([]::string list) \<le> 500 \<longrightarrow> length ([]::string list) + n \<le> 501"
       "\<forall>m. 1 \<le> m \<and> m < n \<longrightarrow> \<not> done_at (fold count_braces (take m (drop i lines)) (0, False))"
       "n < length (drop i lines) \<and> length ([]::string list) + n < 500
            \<longrightarrow> done_at (fold count_braces (take n (drop i lines)) (0, False))"
    by auto
  have b: "\<And>ls. balanced (join_with nl ls) = done_at (fold count_braces ls (0, False))"
    by (auto simp: balanced_def done_at_def count_braces_join prod_eq_iff)
  have eq: "extractTestBody lines i = join_with nl (take n (drop i lines))"
    by (simp add: extractTestBody_def n(1))
  from assms n(3) have "1 \<le> n" by simp
  moreover from n(4) have "n \<le> 501" by simp
  moreover from n(2) have "i + n \<le> length lines" using assms by simp
  moreover have "\<forall>m. 1 \<le> m \<and> m < n \<longrightarrow> \<not> balanced (join_with nl (take m (drop i lines)))"
    using n(5) by (simp add: b)
  moreover have "n < 500 \<and> i + n < length lines \<longrightarrow> balanced (extractTestBody lines i)"
    using n(6) assms by (auto simp: eq b)
  ultimately show ?thesis using eq by blast
qed

text \<open>The line cap at work: a test that never opens a brace, followed by lines without
  braces, is cut by the test \<open>bodyLines.length > 500\<close>, which runs after the push.\<close>

lemma count_braces_no_open:
  "CHR ''{'' \<notin> set l \<Longrightarrow> snd (count_braces l (d, False)) = False"
  by (induction l arbitrary: d) auto

lemma body_loop_step:
  "body_loop (l # rest) body st =
     (if done_at (count_braces l st) \<or> 500 < length body + 1 then body @ [l]
      else body_loop rest (body @ [l]) (count_braces l st))"
  by (simp add: Let_def done_at_def)

lemma body_loop_capped:
  assumes "\<forall>l \<in> set rest. CHR ''{'' \<notin> set l" and "length body \<le> 500"
  shows "body_loop rest body (d, False) = body @ take (501 - length body) rest"
  using assms
proof (induction rest arbitrary: body d)
  case Nil
  then show ?case by simp
next
  case (Cons l rest)
  obtain d' where d': "count_braces l (d, False) = (d', False)"
    using count_braces_no_open[of l d] Cons.prems(1) by (cases "count_braces l (d, False)") auto
  have nd: "\<not> done_at (d', False)" by (simp add: done_at_def)
  show ?case
  proof (cases "length body = 500")
    case True
    then have "body_loop (l # rest) body (d, False) = body @ [l]"
      unfolding body_loop_step d' by simp
    moreover from True have "take (501 - length body) (l # rest) = [l]" by simp
    ultimately show ?thesis by simp
  next
    case False
    with Cons.prems(2) have lt: "length (body @ [l]) \<le> 500" by simp
    from Cons.prems(1) have nb: "\<forall>l \<in> set rest. CHR ''{'' \<notin> set l" by simp
    from False Cons.prems(2) have s: "501 - length body = Suc (500 - length body)" by simp
    from lt have "body_loop (l # rest) body (d, False) = body_loop rest (body @ [l]) (d', False)"
      unfolding body_loop_step d' using nd by simp
    also have "\<dots> = (body @ [l]) @ take (501 - length (body @ [l])) rest"
      by (rule Cons.IH[OF nb lt])
    also have "\<dots> = body @ take (501 - length body) (l # rest)"
      unfolding s by simp
    finally show ?thesis .
  qed
qed

lemma capped_body_has_501_lines:
  assumes "501 \<le> n"
  shows "length (body_loop (replicate n ''x'') [] (0, False)) = 501"
proof -
  have "body_loop (replicate n ''x'') [] (0, False) = [] @ take (501 - length ([]::string list)) (replicate n ''x'')"
    by (rule body_loop_capped) simp_all
  with assms show ?thesis by simp
qed

lemma split_on_no_sep: "c \<notin> set l \<Longrightarrow> split_on c l = [l]"
  by (induction l) auto

lemma split_on_append_sep:
  "c \<notin> set l \<Longrightarrow> split_on c (l @ c # rest) = l # split_on c rest"
  by (induction l) auto

lemma split_on_join:
  assumes "ls \<noteq> []" and "\<forall>l \<in> set ls. c \<notin> set l"
  shows "split_on c (join_with c ls) = ls"
  using assms
  by (induction c ls rule: join_with.induct)
     (simp_all add: split_on_no_sep split_on_append_sep)

lemma plain_line_entries:
  "lines ! i = ''x'' \<Longrightarrow> line_entries lines i = []"
  by (simp add: line_entries_def allPatterns_def testPatterns_def describePatterns_def
        declPattern_def exec_group1_def is_space_def cls_quote3_def cls_dot_def)

lemma braceless_test_entries:
  "lines ! i = ''test('a', f)'' \<Longrightarrow>
     line_entries lines i =
       [\<lparr>testName = ''a'', lineNumber = i + 1, content = extractTestBody lines i, kind = Test\<rparr>]"
  by (simp add: line_entries_def allPatterns_def testPatterns_def describePatterns_def
        declPattern_def exec_group1_def is_space_def cls_quote3_def cls_dot_def)

lemma capped_extraction:
  assumes "500 \<le> k"
  shows "extractTestsFromContent (join_with nl (''test('a', f)'' # replicate k ''x'')) fp =
     [\<lparr>testName = ''a'', lineNumber = 1,
       content = join_with nl (''test('a', f)'' # replicate 500 ''x''), kind = Test\<rparr>]"
proof -
  let ?ls = "''test('a', f)'' # replicate k ''x''"
  have sp: "split_on nl (join_with nl ?ls) = ?ls"
    by (rule split_on_join) (auto simp: nl_def)
  have "body_loop ?ls [] (0, False) = [] @ take (501 - length ([]::string list)) ?ls"
    by (rule body_loop_capped) auto
  also have "\<dots> = ''test('a', f)'' # replicate 500 ''x''"
    using assms by (simp add: min_def)
  finally have body: "extractTestBody ?ls 0 = join_with nl (''test('a', f)'' # replicate 500 ''x'')"
    by (simp add: extractTestBody_def)
  have e0: "line_entries ?ls 0 =
       [\<lparr>testName = ''a'', lineNumber = 1,
         content = join_with nl (''test('a', f)'' # replicate 500 ''x''), kind = Test\<rparr>]"
    using braceless_test_entries[of ?ls 0] body by simp
  have ei: "line_entries ?ls i = []" if "i \<in> set [1..<Suc k]" for i
    using that by (intro plain_line_entries) (auto simp: nth_Cons')
  have up: "[0..<length ?ls] = 0 # [1..<Suc k]"
    by (simp add: upt_rec)
  have "concat (map (line_entries ?ls) [1..<Suc k]) = []"
    using ei by simp
  with e0 up show ?thesis
    unfolding extractTestsFromContent_eq sp by simp
qed

text \<open>
  Claim C2, as amended. For every file text and every declaration extracted from it, the
  line number is a line of the file and the body is the text of \<open>n\<close> whole consecutive
  lines starting at that line, with \<open>1 \<le> n \<le> 501\<close>. No shorter run of those lines is
  balanced (an open brace seen and depth zero, counted from the first character of the
  start line, closes before the first open included). A body of fewer than 500 lines that
  stops before the last line of the file is balanced: it has an open brace and net depth
  exactly zero.
\<close>

theorem extracted_body_shape:
  assumes "d \<in> set (extractTestsFromContent fileContent filePath)"
  shows "1 \<le> lineNumber d \<and> lineNumber d \<le> length (split_on nl fileContent)
       \<and> (\<exists>n. 1 \<le> n \<and> n \<le> 501
            \<and> lineNumber d - 1 + n \<le> length (split_on nl fileContent)
            \<and> content d = join_with nl (take n (drop (lineNumber d - 1) (split_on nl fileContent)))
            \<and> (\<forall>m. 1 \<le> m \<and> m < n \<longrightarrow>
                  \<not> balanced (join_with nl (take m (drop (lineNumber d - 1) (split_on nl fileContent)))))
            \<and> (n < 500 \<and> lineNumber d - 1 + n < length (split_on nl fileContent)
                  \<longrightarrow> balanced (content d)))"
proof -
  from extracted_entry[OF assms] obtain i where
    i: "i < length (split_on nl fileContent)" "lineNumber d = i + 1"
       "content d = extractTestBody (split_on nl fileContent) i"
    by blast
  from extractTestBody_shape[OF i(1)] i show ?thesis by simp
qed

lemma multi_text_tests:
  "extractTestsFromContent multi_text ''a.spec.ts'' =
     [\<lparr>testName = ''a'', lineNumber = 1,
       content = join_with nl [''test('a', async () => {'', ''  x();'', ''});''],
       kind = Test\<rparr>]"
  by (simp add: multi_text_def extract_eval)

text \<open>The theorem at a test of three lines in a file of four: the body is the three
  lines, it is balanced, and neither its first line nor its first two lines are.\<close>

theorem extracted_body_shape_witness:
  "\<lparr>testName = ''a'', lineNumber = 1,
     content = join_with nl [''test('a', async () => {'', ''  x();'', ''});''],
     kind = Test\<rparr> \<in> set (extractTestsFromContent multi_text ''a.spec.ts'')
   \<and> length (split_on nl multi_text) = 4
   \<and> join_with nl [''test('a', async () => {'', ''  x();'', ''});'']
       = join_with nl (take 3 (drop (1 - 1) (split_on nl multi_text)))
   \<and> (3::nat) \<le> 501 \<and> (3::nat) < 500
   \<and> (1::nat) - 1 + 3 < length (split_on nl multi_text)
   \<and> balanced (join_with nl [''test('a', async () => {'', ''  x();'', ''});''])
   \<and> \<not> balanced (join_with nl (take 1 (drop (1 - 1) (split_on nl multi_text))))
   \<and> \<not> balanced (join_with nl (take 2 (drop (1 - 1) (split_on nl multi_text))))
   \<and> (\<exists>n. 1 \<le> n \<and> n \<le> 501 \<and> 1 - 1 + n \<le> length (split_on nl multi_text)
         \<and> join_with nl [''test('a', async () => {'', ''  x();'', ''});'']
             = join_with nl (take n (drop (1 - 1) (split_on nl multi_text)))
         \<and> (\<forall>m. 1 \<le> m \<and> m < n \<longrightarrow>
               \<not> balanced (join_with nl (take m (drop (1 - 1) (split_on nl multi_text)))))
         \<and> (n < 500 \<and> 1 - 1 + n < length (split_on nl multi_text)
               \<longrightarrow> balanced (join_with nl [''test('a', async () => {'', ''  x();'', ''});''])))"
proof -
  let ?d = "\<lparr>testName = ''a'', lineNumber = 1,
     content = join_with nl [''test('a', async () => {'', ''  x();'', ''});''],
     kind = Test\<rparr>"
  have mem: "?d \<in> set (extractTestsFromContent multi_text ''a.spec.ts'')"
    by (simp add: multi_text_tests)
  have ev: "length (split_on nl multi_text) = 4
     \<and> join_with nl [''test('a', async () => {'', ''  x();'', ''});'']
         = join_with nl (take 3 (drop (1 - 1) (split_on nl multi_text)))
     \<and> balanced (join_with nl [''test('a', async () => {'', ''  x();'', ''});''])
     \<and> \<not> balanced (join_with nl (take 1 (drop (1 - 1) (split_on nl multi_text))))
     \<and> \<not> balanced (join_with nl (take 2 (drop (1 - 1) (split_on nl multi_text))))"
    by (simp add: multi_text_def nl_def balanced_def)
  have n: "(3::nat) \<le> 501 \<and> (3::nat) < 500
     \<and> (1::nat) - 1 + 3 < length (split_on nl multi_text)"
    using ev by simp
  have th: "\<exists>n. 1 \<le> n \<and> n \<le> 501 \<and> 1 - 1 + n \<le> length (split_on nl multi_text)
         \<and> join_with nl [''test('a', async () => {'', ''  x();'', ''});'']
             = join_with nl (take n (drop (1 - 1) (split_on nl multi_text)))
         \<and> (\<forall>m. 1 \<le> m \<and> m < n \<longrightarrow>
               \<not> balanced (join_with nl (take m (drop (1 - 1) (split_on nl multi_text)))))
         \<and> (n < 500 \<and> 1 - 1 + n < length (split_on nl multi_text)
               \<longrightarrow> balanced (join_with nl [''test('a', async () => {'', ''  x();'', ''});'']))"
    using extracted_body_shape[OF mem] by (simp only: extractedTest.select_convs)
  from mem ev n th show ?thesis by blast
qed

text \<open>
  Claim C2 as stated fails in four ways. The body of a test whose brace never closes
  ends with the file: one line, far from the cap, at depth 1. A test that closes in the
  middle of a line on which another one opens is not cut where the depth first returns
  to zero: the text up to its closing brace is balanced, and the body runs two lines
  further. A line that closes a block before it opens the test ends the body at once:
  the closing brace before the first open brace is counted, so the depth counted from
  the first open brace is still 1 at the end of the body. A test that opens no brace,
  in a file of 511 lines, has a body of 501 lines, one more than 500.
\<close>

theorem body_depth_counterexample:
  "extractTestsFromContent eof_text ''a.spec.ts'' =
     [\<lparr>testName = ''a'', lineNumber = 1, content = ''test('a', () => {'', kind = Test\<rparr>]
   \<and> count_braces ''test('a', () => {'' (0, False) = (1, True)
   \<and> extractTestsFromContent midline_text ''a.spec.ts'' =
     [\<lparr>testName = ''a'', lineNumber = 1,
       content = ''test('a', () => { x() }'' @ ''); test('b', () => {'' @ [nl] @ ''  y();'' @ [nl] @ ''});'',
       kind = Test\<rparr>]
   \<and> balanced ''test('a', () => { x() }''
   \<and> extractTestsFromContent preclose_text ''a.spec.ts'' =
     [\<lparr>testName = ''a'', lineNumber = 1, content = ''}); test('a', () => {'', kind = Test\<rparr>]
   \<and> count_braces (dropWhile (\<lambda>c. c \<noteq> CHR ''{'') ''}); test('a', () => {'') (0, False) = (1, True)
   \<and> extractTestsFromContent cap_text ''a.spec.ts'' =
     [\<lparr>testName = ''a'', lineNumber = 1,
       content = join_with nl (''test('a', f)'' # replicate 500 ''x''), kind = Test\<rparr>]
   \<and> length (split_on nl (join_with nl (''test('a', f)'' # replicate 500 ''x''))) = 501
   \<and> length (split_on nl cap_text) = 511"
proof -
  have e: "extractTestsFromContent eof_text ''a.spec.ts'' =
     [\<lparr>testName = ''a'', lineNumber = 1, content = ''test('a', () => {'', kind = Test\<rparr>]"
    by (simp add: eof_text_def extract_eval)
  have m: "extractTestsFromContent midline_text ''a.spec.ts'' =
     [\<lparr>testName = ''a'', lineNumber = 1,
       content = ''test('a', () => { x() }'' @ ''); test('b', () => {'' @ [nl] @ ''  y();'' @ [nl] @ ''});'',
       kind = Test\<rparr>]"
    by (simp add: midline_text_def extract_eval)
  have p: "extractTestsFromContent preclose_text ''a.spec.ts'' =
     [\<lparr>testName = ''a'', lineNumber = 1, content = ''}); test('a', () => {'', kind = Test\<rparr>]"
    by (simp add: preclose_text_def extract_eval)
  have c: "count_braces ''test('a', () => {'' (0, False) = (1, True)
     \<and> balanced ''test('a', () => { x() }''
     \<and> count_braces (dropWhile (\<lambda>c. c \<noteq> CHR ''{'') ''}); test('a', () => {'') (0, False) = (1, True)"
    by (simp add: balanced_def)
  have k: "extractTestsFromContent cap_text ''a.spec.ts'' =
     [\<lparr>testName = ''a'', lineNumber = 1,
       content = join_with nl (''test('a', f)'' # replicate 500 ''x''), kind = Test\<rparr>]"
    unfolding cap_text_def by (rule capped_extraction) simp
  have "split_on nl (join_with nl (''test('a', f)'' # replicate 500 ''x''))
          = ''test('a', f)'' # replicate 500 ''x''"
    by (rule split_on_join) (auto simp: nl_def)
  then have l1: "length (split_on nl (join_with nl (''test('a', f)'' # replicate 500 ''x''))) = 501"
    by simp
  have "split_on nl cap_text = ''test('a', f)'' # replicate 510 ''x''"
    unfolding cap_text_def by (rule split_on_join) (auto simp: nl_def)
  then have l2: "length (split_on nl cap_text) = 511"
    by simp
  from e m p c k l1 l2 show ?thesis by simp
qed

section \<open>Duplicated declarations\<close>

lemma head_outcome_not_removed: "r \<in> set (head_outcome fp base h) \<Longrightarrow> tc_type r \<noteq> Removed"
  by (auto simp: head_outcome_def direct_change_def split: option.splits if_splits)

lemma filter_head_part:
  "filter (\<lambda>r. tc_type r \<noteq> Removed) (concat (map (head_outcome fp base) hs))
     = concat (map (head_outcome fp base) hs)"
  by (rule filter_True) (auto dest: head_outcome_not_removed)

lemma filter_head_part_removed:
  "filter (\<lambda>r. tc_type r = Removed) (concat (map (head_outcome fp base) hs)) = []"
  by (rule filter_False) (auto dest: head_outcome_not_removed)

lemma diffTests_head_part:
  "filter (\<lambda>r. tc_type r \<noteq> Removed) (diffTests fp base head)
     = concat (map (head_outcome fp base) head)"
  by (simp add: diffTests_eq filter_head_part filter_map o_def direct_change_def)

lemma diffTests_removed_part:
  "filter (\<lambda>r. tc_type r = Removed) (diffTests fp base head)
     = map (direct_change Removed fp) (filter (\<lambda>b. \<not> list_ex (same_test b) head) base)"
  by (simp add: diffTests_eq filter_head_part_removed filter_map o_def direct_change_def)

lemma removed_member:
  assumes "b \<in> set base"
  shows "(direct_change Removed fp b \<in> set (diffTests fp base head))
           = (\<not> list_ex (same_test b) head)"
proof
  assume "direct_change Removed fp b \<in> set (diffTests fp base head)"
  then have "direct_change Removed fp b
               \<in> set (filter (\<lambda>r. tc_type r = Removed) (diffTests fp base head))"
    by (simp add: direct_change_def)
  then obtain b' where b': "b' \<in> set base" "\<not> list_ex (same_test b') head"
      "direct_change Removed fp b' = direct_change Removed fp b"
    unfolding diffTests_removed_part by auto
  from b'(3) have "testName b' = testName b \<and> kind b' = kind b"
    by (simp add: direct_change_def)
  with b'(2) show "\<not> list_ex (same_test b) head"
    by (simp add: same_test_def list_ex_iff)
next
  assume "\<not> list_ex (same_test b) head"
  with assms show "direct_change Removed fp b \<in> set (diffTests fp base head)"
    by (auto simp: diffTests_eq)
qed

lemma line_entries_member:
  assumes "(pattern, k) \<in> set allPatterns" and "exec_group1 pattern (lines ! i) = Some name"
  shows "\<lparr>testName = name, lineNumber = i + 1, content = extractTestBody lines i, kind = k\<rparr>
           \<in> set (line_entries lines i)"
  using assms unfolding line_entries_def by force

text \<open>
  Claim C4, as amended. Extraction keeps one entry for every line and pattern that
  match, in file order, so a name and kind declared on two lines gives two entries that
  differ in their line number. The differ does not track matches: every head declaration
  is compared with the first base declaration of its name and kind, whether or not an
  earlier head declaration was compared with the same one, and the Removed pass visits
  every base declaration and reports exactly those whose name and kind no head declaration
  has.
\<close>

theorem duplicates_kept_first_match:
  "extractTestsFromContent fileContent filePath =
     concat (map (line_entries (split_on nl fileContent)) [0..<length (split_on nl fileContent)])
   \<and> (\<forall>i j pattern k name.
         i < j \<and> j < length (split_on nl fileContent) \<and> (pattern, k) \<in> set allPatterns
         \<and> exec_group1 pattern (split_on nl fileContent ! i) = Some name
         \<and> exec_group1 pattern (split_on nl fileContent ! j) = Some name
         \<longrightarrow> (\<exists>di dj. di \<in> set (extractTestsFromContent fileContent filePath)
                \<and> dj \<in> set (extractTestsFromContent fileContent filePath)
                \<and> testName di = name \<and> kind di = k \<and> lineNumber di = i + 1
                \<and> testName dj = name \<and> kind dj = k \<and> lineNumber dj = j + 1))
   \<and> filter (\<lambda>r. tc_type r \<noteq> Removed) (diffTests filePath baseTests headTests)
       = concat (map (head_outcome filePath baseTests) headTests)
   \<and> filter (\<lambda>r. tc_type r = Removed) (diffTests filePath baseTests headTests)
       = map (direct_change Removed filePath)
           (filter (\<lambda>b. \<not> list_ex (same_test b) headTests) baseTests)
   \<and> (\<forall>h \<in> set headTests. \<forall>b.
         find (same_test h) baseTests = Some b \<and> content b \<noteq> content h
         \<longrightarrow> direct_change Modified filePath h \<in> set (diffTests filePath baseTests headTests))
   \<and> (\<forall>b \<in> set baseTests.
         (direct_change Removed filePath b \<in> set (diffTests filePath baseTests headTests))
           = (\<not> list_ex (same_test b) headTests))"
proof -
  let ?lines = "split_on nl fileContent"
  have dup: "\<forall>i j pattern k name.
         i < j \<and> j < length ?lines \<and> (pattern, k) \<in> set allPatterns
         \<and> exec_group1 pattern (?lines ! i) = Some name
         \<and> exec_group1 pattern (?lines ! j) = Some name
         \<longrightarrow> (\<exists>di dj. di \<in> set (extractTestsFromContent fileContent filePath)
                \<and> dj \<in> set (extractTestsFromContent fileContent filePath)
                \<and> testName di = name \<and> kind di = k \<and> lineNumber di = i + 1
                \<and> testName dj = name \<and> kind dj = k \<and> lineNumber dj = j + 1)"
  proof (intro allI impI)
    fix i j pattern k name
    assume a: "i < j \<and> j < length ?lines \<and> (pattern, k) \<in> set allPatterns
         \<and> exec_group1 pattern (?lines ! i) = Some name
         \<and> exec_group1 pattern (?lines ! j) = Some name"
    let ?di = "\<lparr>testName = name, lineNumber = i + 1, content = extractTestBody ?lines i, kind = k\<rparr>"
    let ?dj = "\<lparr>testName = name, lineNumber = j + 1, content = extractTestBody ?lines j, kind = k\<rparr>"
    from a have "?di \<in> set (line_entries ?lines i)" "?dj \<in> set (line_entries ?lines j)"
      using line_entries_member[of pattern k ?lines i name]
        line_entries_member[of pattern k ?lines j name] by simp_all
    with a have "?di \<in> set (extractTestsFromContent fileContent filePath)"
      "?dj \<in> set (extractTestsFromContent fileContent filePath)"
      unfolding extractTestsFromContent_eq by auto
    then show "\<exists>di dj. di \<in> set (extractTestsFromContent fileContent filePath)
                \<and> dj \<in> set (extractTestsFromContent fileContent filePath)
                \<and> testName di = name \<and> kind di = k \<and> lineNumber di = i + 1
                \<and> testName dj = name \<and> kind dj = k \<and> lineNumber dj = j + 1"
      by (intro exI[of _ ?di] exI[of _ ?dj]) simp
  qed
  have md: "\<forall>h \<in> set headTests. \<forall>b.
         find (same_test h) baseTests = Some b \<and> content b \<noteq> content h
         \<longrightarrow> direct_change Modified filePath h \<in> set (diffTests filePath baseTests headTests)"
    by (auto simp: diffTests_eq head_outcome_def intro!: bexI)
  have rm: "\<forall>b \<in> set baseTests.
         (direct_change Removed filePath b \<in> set (diffTests filePath baseTests headTests))
           = (\<not> list_ex (same_test b) headTests)"
    using removed_member by blast
  from extractTestsFromContent_eq dup diffTests_head_part diffTests_removed_part md rm
  show ?thesis by blast
qed

text \<open>The theorem at the file with two tests named \<open>works\<close>, diffed against itself: both
  entries are kept, and the second one, compared with the first base declaration of its
  name, is reported as Modified although the two revisions are the same text.\<close>

theorem duplicates_kept_first_match_witness:
  "(0::nat) < 1 \<and> 1 < length (split_on nl dup_base)
   \<and> (declPattern ''test'', Test) \<in> set allPatterns
   \<and> exec_group1 (declPattern ''test'') (split_on nl dup_base ! 0) = Some ''works''
   \<and> exec_group1 (declPattern ''test'') (split_on nl dup_base ! 1) = Some ''works''
   \<and> (\<exists>di dj. di \<in> set (extractTestsFromContent dup_base ''t.spec.ts'')
          \<and> dj \<in> set (extractTestsFromContent dup_base ''t.spec.ts'')
          \<and> testName di = ''works'' \<and> kind di = Test \<and> lineNumber di = 0 + 1
          \<and> testName dj = ''works'' \<and> kind dj = Test \<and> lineNumber dj = 1 + 1)
   \<and> extractTestsFromContent dup_base ''t.spec.ts'' ! 1
       \<in> set (extractTestsFromContent dup_base ''t.spec.ts'')
   \<and> find (same_test (extractTestsFromContent dup_base ''t.spec.ts'' ! 1))
         (extractTestsFromContent dup_base ''t.spec.ts'')
       = Some (extractTestsFromContent dup_base ''t.spec.ts'' ! 0)
   \<and> content (extractTestsFromContent dup_base ''t.spec.ts'' ! 0)
       \<noteq> content (extractTestsFromContent dup_base ''t.spec.ts'' ! 1)
   \<and> direct_change Modified ''t.spec.ts'' (extractTestsFromContent dup_base ''t.spec.ts'' ! 1)
       \<in> set (diffTests ''t.spec.ts'' (extractTestsFromContent dup_base ''t.spec.ts'')
                 (extractTestsFromContent dup_base ''t.spec.ts''))
   \<and> list_ex (same_test (extractTestsFromContent dup_base ''t.spec.ts'' ! 0))
       (extractTestsFromContent dup_head ''t.spec.ts'')
   \<and> direct_change Removed ''t.spec.ts'' (extractTestsFromContent dup_base ''t.spec.ts'' ! 0)
       \<notin> set (diffTests ''t.spec.ts'' (extractTestsFromContent dup_base ''t.spec.ts'')
                 (extractTestsFromContent dup_head ''t.spec.ts''))"
proof -
  let ?B = "extractTestsFromContent dup_base ''t.spec.ts''"
  let ?H = "extractTestsFromContent dup_head ''t.spec.ts''"
  note rule1 = duplicates_kept_first_match [of dup_base "''t.spec.ts''" ?B ?B]
  note rule2 = duplicates_kept_first_match [of dup_base "''t.spec.ts''" ?B ?H]
  have hyp: "(0::nat) < 1 \<and> 1 < length (split_on nl dup_base)
     \<and> (declPattern ''test'', Test) \<in> set allPatterns
     \<and> exec_group1 (declPattern ''test'') (split_on nl dup_base ! 0) = Some ''works''
     \<and> exec_group1 (declPattern ''test'') (split_on nl dup_base ! 1) = Some ''works''"
    by (simp add: dup_base_def extract_eval)
  have ex: "\<exists>di dj. di \<in> set ?B \<and> dj \<in> set ?B
          \<and> testName di = ''works'' \<and> kind di = Test \<and> lineNumber di = 0 + 1
          \<and> testName dj = ''works'' \<and> kind dj = Test \<and> lineNumber dj = 1 + 1"
    using rule1 hyp by blast
  have h1: "?B ! 1 \<in> set ?B \<and> find (same_test (?B ! 1)) ?B = Some (?B ! 0)
     \<and> content (?B ! 0) \<noteq> content (?B ! 1)"
    by (simp add: dup_base_tests same_test_def)
  have md: "direct_change Modified ''t.spec.ts'' (?B ! 1) \<in> set (diffTests ''t.spec.ts'' ?B ?B)"
    using rule1 h1 by blast
  have h0: "?B ! 0 \<in> set ?B \<and> list_ex (same_test (?B ! 0)) ?H"
    by (simp add: dup_base_tests dup_head_tests same_test_def)
  have rm: "direct_change Removed ''t.spec.ts'' (?B ! 0) \<notin> set (diffTests ''t.spec.ts'' ?B ?H)"
    using rule2 h0 by blast
  from hyp ex h1 md h0 rm show ?thesis by blast
qed

text \<open>
  Claim C4 as stated fails on the same file. Diffed against itself, positional matching
  reports nothing, and the analyzer reports the second \<open>works\<close> as Modified. Diffed against
  the head that deletes the first \<open>works\<close>, positional matching reports the one left
  unmatched as Removed, and the analyzer reports no removal.
\<close>

theorem positional_matching_counterexample:
  "diff_positional ''t.spec.ts'' (extractTestsFromContent dup_base ''t.spec.ts'')
     (extractTestsFromContent dup_base ''t.spec.ts'') = []
   \<and> diffTests ''t.spec.ts'' (extractTestsFromContent dup_base ''t.spec.ts'')
       (extractTestsFromContent dup_base ''t.spec.ts'') =
     [\<lparr>tc_type = Modified, tc_testName = ''works'', tc_filePath = ''t.spec.ts'',
       tc_lineNumber = 2, changeKind = Test, impactType = Direct, impactedBy = None\<rparr>]
   \<and> diff_positional ''t.spec.ts'' (extractTestsFromContent dup_base ''t.spec.ts'')
       (extractTestsFromContent dup_head ''t.spec.ts'') =
     [\<lparr>tc_type = Modified, tc_testName = ''works'', tc_filePath = ''t.spec.ts'',
       tc_lineNumber = 1, changeKind = Test, impactType = Direct, impactedBy = None\<rparr>,
      \<lparr>tc_type = Removed, tc_testName = ''works'', tc_filePath = ''t.spec.ts'',
       tc_lineNumber = 2, changeKind = Test, impactType = Direct, impactedBy = None\<rparr>]
   \<and> diffTests ''t.spec.ts'' (extractTestsFromContent dup_base ''t.spec.ts'')
       (extractTestsFromContent dup_head ''t.spec.ts'') =
     [\<lparr>tc_type = Modified, tc_testName = ''works'', tc_filePath = ''t.spec.ts'',
       tc_lineNumber = 1, changeKind = Test, impactType = Direct, impactedBy = None\<rparr>]"
  by (simp add: dup_base_tests dup_head_tests diff_positional_def diffTests_def same_test_def
        direct_change_def)

section \<open>Classification of paths\<close>

lemma strip_prefix_Some: "(strip_prefix p s = Some r) = (s = p @ r)"
  by (induction p s rule: strip_prefix.induct) auto

lemma strip_prefix_None: "(strip_prefix p s = None) = (\<not> prefix p s)"
  by (induction p s rule: strip_prefix.induct) auto

lemma rx_exec_iff:
  "(rx_exec r s \<noteq> None) =
     (\<exists>t. suffix t s \<and> rx_match r t None (\<lambda>s' cap. Some (s', cap)) \<noteq> None)"
proof (induction s)
  case Nil
  then show ?case by simp
next
  case (Cons c cs)
  show ?case
  proof (cases "rx_match r (c # cs) None (\<lambda>s' cap. Some (s', cap))")
    case None
    then have "(rx_exec r (c # cs) \<noteq> None) = (rx_exec r cs \<noteq> None)" by simp
    also have "\<dots> = (\<exists>t. suffix t cs \<and> rx_match r t None (\<lambda>s' cap. Some (s', cap)) \<noteq> None)"
      by (rule Cons.IH)
    also have "\<dots> = (\<exists>t. suffix t (c # cs) \<and> rx_match r t None (\<lambda>s' cap. Some (s', cap)) \<noteq> None)"
      using None by (auto simp: suffix_Cons)
    finally show ?thesis .
  next
    case (Some m)
    then have "suffix (c # cs) (c # cs)
                 \<and> rx_match r (c # cs) None (\<lambda>s' cap. Some (s', cap)) \<noteq> None"
      by simp
    then have "\<exists>t. suffix t (c # cs) \<and> rx_match r t None (\<lambda>s' cap. Some (s', cap)) \<noteq> None"
      by blast
    with Some show ?thesis by simp
  qed
qed

lemma spec_pattern:
  "(rx_match (testFilePatterns ! 0) t None (\<lambda>s' cap. Some (s', cap)) \<noteq> None)
     = (t = ''.spec.ts'' \<or> t = ''.spec.js'' \<or> t = ''.spec.tsx'' \<or> t = ''.spec.jsx'')"
  by (auto simp: testFilePatterns_def strip_prefix_Some split: option.splits)

lemma test_pattern:
  "(rx_match (testFilePatterns ! 1) t None (\<lambda>s' cap. Some (s', cap)) \<noteq> None)
     = (t = ''.test.ts'' \<or> t = ''.test.js'' \<or> t = ''.test.tsx'' \<or> t = ''.test.jsx'')"
  by (auto simp: testFilePatterns_def strip_prefix_Some split: option.splits)

lemma playwright_pattern:
  "(rx_match (testFilePatterns ! 2) t None (\<lambda>s' cap. Some (s', cap)) \<noteq> None)
     = (t = ''playwright.ts'' \<or> t = ''playwright.js''
        \<or> t = ''playwright.config.ts'' \<or> t = ''playwright.config.js'')"
  by (auto simp: testFilePatterns_def strip_prefix_Some split: option.splits)

lemma rx_test_spec:
  "rx_test (testFilePatterns ! 0) p
     = (suffix ''.spec.ts'' p \<or> suffix ''.spec.js'' p \<or> suffix ''.spec.tsx'' p \<or> suffix ''.spec.jsx'' p)"
  unfolding rx_test_def rx_exec_iff spec_pattern by blast

lemma rx_test_test:
  "rx_test (testFilePatterns ! 1) p
     = (suffix ''.test.ts'' p \<or> suffix ''.test.js'' p \<or> suffix ''.test.tsx'' p \<or> suffix ''.test.jsx'' p)"
  unfolding rx_test_def rx_exec_iff test_pattern by blast

lemma rx_test_playwright:
  "rx_test (testFilePatterns ! 2) p
     = (suffix ''playwright.ts'' p \<or> suffix ''playwright.js'' p
        \<or> suffix ''playwright.config.ts'' p \<or> suffix ''playwright.config.js'' p)"
  unfolding rx_test_def rx_exec_iff playwright_pattern by blast

lemma testFilePatterns_nth:
  "testFilePatterns = [testFilePatterns ! 0, testFilePatterns ! 1, testFilePatterns ! 2]"
  by (simp add: testFilePatterns_def)

lemma has_test_suffix_iff:
  "has_test_suffix p =
     ((suffix ''.spec.ts'' p \<or> suffix ''.spec.js'' p \<or> suffix ''.spec.tsx'' p \<or> suffix ''.spec.jsx'' p)
      \<or> (suffix ''.test.ts'' p \<or> suffix ''.test.js'' p \<or> suffix ''.test.tsx'' p \<or> suffix ''.test.jsx'' p))"
  unfolding has_test_suffix_def source_extensions_def by (simp del: suffix_Cons) blast

lemma playwright_names_iff:
  "(\<exists>n \<in> set playwright_names. suffix n p) =
     (suffix ''playwright.ts'' p \<or> suffix ''playwright.js'' p
        \<or> suffix ''playwright.config.ts'' p \<or> suffix ''playwright.config.js'' p)"
  unfolding playwright_names_def by simp

lemma isPlaywrightTestFile_iff:
  "isPlaywrightTestFile p = (has_test_suffix p \<or> (\<exists>n \<in> set playwright_names. suffix n p))"
proof -
  have "isPlaywrightTestFile p =
          (rx_test (testFilePatterns ! 0) p \<or> rx_test (testFilePatterns ! 1) p
           \<or> rx_test (testFilePatterns ! 2) p)"
    unfolding isPlaywrightTestFile_def by (subst testFilePatterns_nth) simp
  then show ?thesis
    unfolding rx_test_spec rx_test_test rx_test_playwright has_test_suffix_iff playwright_names_iff
    by blast
qed


text \<open>
  Claim C6, as amended. The classification is a function of the path string alone, and it
  holds if and only if the path ends in \<open>.spec.\<close> or \<open>.test.\<close> followed by one of the
  extensions \<open>ts\<close>, \<open>js\<close>, \<open>tsx\<close>, \<open>jsx\<close>, or ends in one of \<open>playwright.ts\<close>,
  \<open>playwright.js\<close>, \<open>playwright.config.ts\<close>, \<open>playwright.config.js\<close>.
\<close>

theorem isPlaywrightTestFile_suffix_rule:
  "isPlaywrightTestFile filePath =
     ((\<exists>e \<in> set source_extensions.
          suffix (''.spec.'' @ e) filePath \<or> suffix (''.test.'' @ e) filePath)
      \<or> (\<exists>n \<in> set playwright_names. suffix n filePath))"
  using isPlaywrightTestFile_iff [of filePath] by (simp only: has_test_suffix_def)

text \<open>The rule at a few paths: test files by suffix, the configuration file at the root
  and in a directory, and two paths that are not test files.\<close>

theorem isPlaywrightTestFile_suffix_rule_witness:
  "isPlaywrightTestFile ''tests/login.spec.ts''
   \<and> isPlaywrightTestFile ''src/api.test.jsx''
   \<and> isPlaywrightTestFile ''playwright.config.ts''
   \<and> isPlaywrightTestFile ''e2e/playwright.config.ts''
   \<and> \<not> isPlaywrightTestFile ''package.json''
   \<and> \<not> isPlaywrightTestFile ''tests/login.spec.ts.bak''"
  unfolding isPlaywrightTestFile_suffix_rule
  by (simp add: source_extensions_def playwright_names_def suffix_Cons)

lemma not_suffix_longer:
  assumes "\<not> suffix a z" and "length a \<le> length z"
  shows "\<not> suffix a (y @ z)"
proof
  assume "suffix a (y @ z)"
  with assms(1) obtain a' where a': "a = a' @ z" by (auto simp: suffix_append)
  with assms(2) have "a' = []" by simp
  with a' assms(1) show False by simp
qed

lemma padded_name_classified:
  "isPlaywrightTestFile (replicate k CHR ''x'' @ ''playwright.ts'')
   \<and> \<not> has_test_suffix (replicate k CHR ''x'' @ ''playwright.ts'')"
proof -
  have "suffix ''playwright.ts'' (replicate k CHR ''x'' @ ''playwright.ts'')"
    by (rule suffixI) simp
  then have a: "isPlaywrightTestFile (replicate k CHR ''x'' @ ''playwright.ts'')"
    by (simp add: isPlaywrightTestFile_iff playwright_names_iff)
  have b: "\<not> has_test_suffix (replicate k CHR ''x'' @ ''playwright.ts'')"
    unfolding has_test_suffix_iff
    by (simp add: not_suffix_longer suffix_Cons)
  from a b show ?thesis ..
qed

text \<open>
  Claim C6 as stated fails: a configuration file in a directory is classified as a test
  file although it ends in no test suffix and equals none of the four names. No finite
  set of fixed names repairs the claim, since every path that ends in \<open>playwright.ts\<close> is
  classified as a test file.
\<close>

theorem classification_equals_counterexample:
  "isPlaywrightTestFile ''e2e/playwright.config.ts''
   \<and> \<not> has_test_suffix ''e2e/playwright.config.ts''
   \<and> ''e2e/playwright.config.ts'' \<notin> set playwright_names
   \<and> \<not> (\<exists>names. finite names
            \<and> (\<forall>p. isPlaywrightTestFile p = (has_test_suffix p \<or> p \<in> names)))"
proof -
  have c: "isPlaywrightTestFile ''e2e/playwright.config.ts''
     \<and> \<not> has_test_suffix ''e2e/playwright.config.ts''
     \<and> ''e2e/playwright.config.ts'' \<notin> set playwright_names"
    by (simp add: isPlaywrightTestFile_iff playwright_names_iff has_test_suffix_iff
          playwright_names_def suffix_Cons)
  have g: "\<not> (\<exists>names. finite names
            \<and> (\<forall>p. isPlaywrightTestFile p = (has_test_suffix p \<or> p \<in> names)))"
  proof
    assume "\<exists>names. finite names
            \<and> (\<forall>p. isPlaywrightTestFile p = (has_test_suffix p \<or> p \<in> names))"
    then obtain names where fin: "finite names"
      and all: "\<forall>p. isPlaywrightTestFile p = (has_test_suffix p \<or> p \<in> names)"
      by blast
    let ?f = "\<lambda>k::nat. replicate k CHR ''x'' @ ''playwright.ts''"
    have "inj ?f"
    proof (rule injI)
      fix a b :: nat
      assume "?f a = ?f b"
      then have "length (?f a) = length (?f b)" by (rule arg_cong)
      then show "a = b" by simp
    qed
    then have "infinite (range ?f)"
      using finite_imageD infinite_UNIV_nat by blast
    moreover have "range ?f \<subseteq> names"
      using all padded_name_classified by blast
    ultimately show False
      using fin finite_subset by blast
  qed
  from c g show ?thesis by blast
qed

section \<open>The import path resolver\<close>

lemma startsWith_prefix: "startsWith s p = prefix p s"
  unfolding startsWith_def strip_prefix_None by simp

lemma probe_loop_Some:
  "(probe_loop g commit cands = Some p) =
     (\<exists>i < length cands. cands ! i = p \<and> git_cat_file_e g commit p
        \<and> (\<forall>j < i. \<not> git_cat_file_e g commit (cands ! j)))"
proof (induction cands)
  case Nil
  then show ?case by simp
next
  case (Cons c cands)
  show ?case
  proof (cases "git_cat_file_e g commit c")
    case True
    have "(c = p) = (\<exists>i < length (c # cands). (c # cands) ! i = p \<and> git_cat_file_e g commit p
        \<and> (\<forall>j < i. \<not> git_cat_file_e g commit ((c # cands) ! j)))"
    proof
      assume "c = p"
      with True show "\<exists>i < length (c # cands). (c # cands) ! i = p \<and> git_cat_file_e g commit p
        \<and> (\<forall>j < i. \<not> git_cat_file_e g commit ((c # cands) ! j))"
        by (intro exI[of _ 0]) simp
    next
      assume "\<exists>i < length (c # cands). (c # cands) ! i = p \<and> git_cat_file_e g commit p
        \<and> (\<forall>j < i. \<not> git_cat_file_e g commit ((c # cands) ! j))"
      then obtain i where i: "(c # cands) ! i = p"
        "\<forall>j < i. \<not> git_cat_file_e g commit ((c # cands) ! j)" by blast
      from i(2) True have "i = 0" by (cases i) auto
      with i(1) show "c = p" by simp
    qed
    with True show ?thesis by simp
  next
    case False
    have "(\<exists>i < length cands. cands ! i = p \<and> git_cat_file_e g commit p
              \<and> (\<forall>j < i. \<not> git_cat_file_e g commit (cands ! j)))
          = (\<exists>i < length (c # cands). (c # cands) ! i = p \<and> git_cat_file_e g commit p
              \<and> (\<forall>j < i. \<not> git_cat_file_e g commit ((c # cands) ! j)))"
    proof
      assume "\<exists>i < length cands. cands ! i = p \<and> git_cat_file_e g commit p
              \<and> (\<forall>j < i. \<not> git_cat_file_e g commit (cands ! j))"
      then obtain i where i: "i < length cands" "cands ! i = p" "git_cat_file_e g commit p"
        "\<forall>j < i. \<not> git_cat_file_e g commit (cands ! j)" by blast
      have "\<forall>j < Suc i. \<not> git_cat_file_e g commit ((c # cands) ! j)"
        using i(4) False by (auto simp: less_Suc_eq_0_disj)
      with i(1-3) show "\<exists>i < length (c # cands). (c # cands) ! i = p \<and> git_cat_file_e g commit p
              \<and> (\<forall>j < i. \<not> git_cat_file_e g commit ((c # cands) ! j))"
        by (intro exI[of _ "Suc i"]) simp
    next
      assume "\<exists>i < length (c # cands). (c # cands) ! i = p \<and> git_cat_file_e g commit p
              \<and> (\<forall>j < i. \<not> git_cat_file_e g commit ((c # cands) ! j))"
      then obtain i where i: "i < length (c # cands)" "(c # cands) ! i = p"
        "git_cat_file_e g commit p"
        "\<forall>j < i. \<not> git_cat_file_e g commit ((c # cands) ! j)" by blast
      from i(2,3) False obtain k where k: "i = Suc k" by (cases i) auto
      have "\<forall>j < k. \<not> git_cat_file_e g commit (cands ! j)"
        using i(4) k by auto
      with i(1-3) k show "\<exists>i < length cands. cands ! i = p \<and> git_cat_file_e g commit p
              \<and> (\<forall>j < i. \<not> git_cat_file_e g commit (cands ! j))"
        by (intro exI[of _ k]) simp
    qed
    with False Cons.IH show ?thesis by simp
  qed
qed

lemma probe_loop_None:
  "(probe_loop g commit cands = None) = (\<forall>c \<in> set cands. \<not> git_cat_file_e g commit c)"
  by (induction cands) auto

text \<open>
  Claim C5. A specifier that begins with neither \<open>.\<close> nor \<open>/\<close> is unresolved. Any other
  specifier is joined to the directory of the referencing file and normalized (a leading
  slash of the result is dropped), and the resolver returns the first of the nine
  candidates, in the order listed, that exists at the revision; it is unresolved exactly
  when none of them exists.
\<close>

theorem resolveImportPath_probe_order:
  "(\<not> prefix ''.'' importSource \<and> \<not> prefix ''/'' importSource
      \<longrightarrow> resolveImportPath lib g importSource importingFile commit = None)
   \<and> (prefix ''.'' importSource \<or> prefix ''/'' importSource \<longrightarrow>
        (let n = path_normalize lib (path_join lib (path_dirname lib importingFile) importSource);
             r = (if prefix ''/'' n then drop 1 n else n);
             cands = [r, r @ ''.ts'', r @ ''.js'', r @ ''.tsx'', r @ ''.jsx'',
                      path_join lib r ''index.ts'', path_join lib r ''index.js'',
                      path_join lib r ''index.tsx'', path_join lib r ''index.jsx'']
         in (\<forall>p. (resolveImportPath lib g importSource importingFile commit = Some p) =
                   (\<exists>i < length cands. cands ! i = p \<and> git_cat_file_e g commit p
                      \<and> (\<forall>j < i. \<not> git_cat_file_e g commit (cands ! j))))
            \<and> ((resolveImportPath lib g importSource importingFile commit = None) =
                 (\<forall>c \<in> set cands. \<not> git_cat_file_e g commit c))))"
proof (intro conjI impI)
  assume "\<not> prefix ''.'' importSource \<and> \<not> prefix ''/'' importSource"
  then show "resolveImportPath lib g importSource importingFile commit = None"
    by (simp add: resolveImportPath_def startsWith_prefix)
next
  assume rel: "prefix ''.'' importSource \<or> prefix ''/'' importSource"
  define n where "n = path_normalize lib (path_join lib (path_dirname lib importingFile) importSource)"
  define r where "r = (if prefix ''/'' n then drop 1 n else n)"
  have res: "resolveImportPath lib g importSource importingFile commit
               = probe_loop g commit (possiblePaths lib r)"
    using rel unfolding resolveImportPath_def Let_def startsWith_prefix n_def r_def by auto
  have "(\<forall>p. (resolveImportPath lib g importSource importingFile commit = Some p) =
                   (\<exists>i < length (possiblePaths lib r). possiblePaths lib r ! i = p
                      \<and> git_cat_file_e g commit p
                      \<and> (\<forall>j < i. \<not> git_cat_file_e g commit (possiblePaths lib r ! j))))
            \<and> ((resolveImportPath lib g importSource importingFile commit = None) =
                 (\<forall>c \<in> set (possiblePaths lib r). \<not> git_cat_file_e g commit c))"
    unfolding res probe_loop_Some probe_loop_None by simp
  then show "let n = path_normalize lib (path_join lib (path_dirname lib importingFile) importSource);
             r = (if prefix ''/'' n then drop 1 n else n);
             cands = [r, r @ ''.ts'', r @ ''.js'', r @ ''.tsx'', r @ ''.jsx'',
                      path_join lib r ''index.ts'', path_join lib r ''index.js'',
                      path_join lib r ''index.tsx'', path_join lib r ''index.jsx'']
         in (\<forall>p. (resolveImportPath lib g importSource importingFile commit = Some p) =
                   (\<exists>i < length cands. cands ! i = p \<and> git_cat_file_e g commit p
                      \<and> (\<forall>j < i. \<not> git_cat_file_e g commit (cands ! j))))
            \<and> ((resolveImportPath lib g importSource importingFile commit = None) =
                 (\<forall>c \<in> set cands. \<not> git_cat_file_e g commit c))"
    unfolding Let_def possiblePaths_def n_def r_def .
qed

lemmas path_eval =
  posix_path_def posix_dirname_def posix_join_def posix_normalize_def
  memory_git_def tree_of_def nl_def tab_def

text \<open>The rule at the example: \<open>../utils/helpers\<close> from \<open>tests/a.spec.ts\<close> is probed as
  \<open>utils/helpers\<close>, which does not exist, and then as \<open>utils/helpers.ts\<close>, which does; the
  package \<open>@playwright/test\<close> is unresolved.\<close>

theorem resolveImportPath_probe_order_witness:
  "\<not> prefix ''.'' ''@playwright/test'' \<and> \<not> prefix ''/'' ''@playwright/test''
   \<and> resolveImportPath posix_path helper_git ''@playwright/test'' ''tests/a.spec.ts'' ''head'' = None
   \<and> prefix ''.'' ''../utils/helpers''
   \<and> path_normalize posix_path
        (path_join posix_path (path_dirname posix_path ''tests/a.spec.ts'') ''../utils/helpers'')
       = ''utils/helpers''
   \<and> \<not> git_cat_file_e helper_git ''head'' ''utils/helpers''
   \<and> git_cat_file_e helper_git ''head'' ''utils/helpers.ts''
   \<and> resolveImportPath posix_path helper_git ''../utils/helpers'' ''tests/a.spec.ts'' ''head''
       = Some ''utils/helpers.ts''
   \<and> resolveImportPath posix_path helper_git ''./missing'' ''tests/a.spec.ts'' ''head'' = None"
proof -
  have ext: "\<not> prefix ''.'' ''@playwright/test'' \<and> \<not> prefix ''/'' ''@playwright/test''"
    by simp
  have r1: "resolveImportPath posix_path helper_git ''@playwright/test'' ''tests/a.spec.ts'' ''head''
              = None"
    using resolveImportPath_probe_order
      [of "''@playwright/test''" posix_path helper_git "''tests/a.spec.ts''" "''head''",
       THEN conjunct1] ext
    by blast
  have rel: "prefix ''.'' ''../utils/helpers''" by simp
  have nrm: "path_normalize posix_path
        (path_join posix_path (path_dirname posix_path ''tests/a.spec.ts'') ''../utils/helpers'')
       = ''utils/helpers''"
    by (simp add: path_eval)
  have ex: "\<not> git_cat_file_e helper_git ''head'' ''utils/helpers''
            \<and> git_cat_file_e helper_git ''head'' ''utils/helpers.ts''"
    by (simp add: helper_git_def path_eval)
  note some_iff = resolveImportPath_probe_order
      [of "''../utils/helpers''" posix_path helper_git "''tests/a.spec.ts''" "''head''",
       THEN conjunct2, rule_format, OF disjI1, OF rel, unfolded Let_def nrm,
       THEN conjunct1, rule_format]
  have r2: "resolveImportPath posix_path helper_git ''../utils/helpers'' ''tests/a.spec.ts'' ''head''
       = Some ''utils/helpers.ts''"
    by (rule some_iff[THEN iffD2], rule exI[of _ 1]) (simp add: ex)
  have rel3: "prefix ''.'' ''./missing''" by simp
  note none_iff = resolveImportPath_probe_order
      [of "''./missing''" posix_path helper_git "''tests/a.spec.ts''" "''head''",
       THEN conjunct2, rule_format, OF disjI1, OF rel3, unfolded Let_def,
       THEN conjunct2]
  have r3: "resolveImportPath posix_path helper_git ''./missing'' ''tests/a.spec.ts'' ''head'' = None"
    by (rule none_iff[THEN iffD2]) (simp add: helper_git_def path_eval)
  from ext r1 rel nrm ex r2 r3 show ?thesis by blast
qed

section \<open>The loops of the analysis\<close>

lemma import_loop_eq:
  "import_loop lib g head changed testFile testContent imps acc =
     acc @ (case first_hit lib g head changed testFile imps of
              None \<Rightarrow> []
            | Some resolvedPath \<Rightarrow>
                map (indirect_change testFile resolvedPath)
                  (extractTestsFromContent testContent testFile))"
proof (induction imps)
  case Nil
  then show ?case by (simp add: first_hit_def)
next
  case (Cons i imps)
  show ?case
  proof (cases "import_hit lib g head changed testFile i")
    case None
    then have "first_hit lib g head changed testFile (i # imps)
                 = first_hit lib g head changed testFile imps"
      by (simp add: first_hit_def)
    moreover from None have "import_loop lib g head changed testFile testContent (i # imps) acc
                 = import_loop lib g head changed testFile testContent imps acc"
      by (auto simp: import_hit_def split: option.splits if_splits)
    ultimately show ?thesis using Cons.IH by simp
  next
    case (Some rp)
    then have "first_hit lib g head changed testFile (i # imps) = Some rp"
      by (simp add: first_hit_def)
    moreover from Some have "import_loop lib g head changed testFile testContent (i # imps) acc
                 = acc @ map (indirect_change testFile rp)
                          (extractTestsFromContent testContent testFile)"
      by (auto simp: import_hit_def split: option.splits if_splits)
    ultimately show ?thesis by simp
  qed
qed

lemma test_file_loop_eq:
  "test_file_loop lib g head changed files acc =
     acc @ concat (map (file_impacts lib g head changed) files)"
proof (induction files arbitrary: acc)
  case Nil
  then show ?case by simp
next
  case (Cons f files)
  show ?case
  proof (cases "git_show g head f")
    case None
    then show ?thesis using Cons.IH by (simp add: try_test_file_def file_impacts_def)
  next
    case (Some c)
    then show ?thesis
      using Cons.IH by (simp add: try_test_file_def file_impacts_def import_loop_eq)
  qed
qed

lemma analyzeIndirectImpact_eq:
  "analyzeIndirectImpact lib g base head nonTest testFiles =
     concat (map (file_impacts lib g head (set (map path nonTest)))
               (filter (\<lambda>t. t \<notin> set (map path testFiles)) (getAllTestFiles g head)))"
proof -
  have "(\<lambda>testFile. \<not> list_ex (\<lambda>cf. path cf = testFile) testFiles)
          = (\<lambda>t. t \<notin> set (map path testFiles))"
    by (auto simp: list_ex_iff)
  then show ?thesis
    by (simp add: analyzeIndirectImpact_def Let_def test_file_loop_eq)
qed

lemma changed_file_loop_eq:
  "changed_file_loop g base head files st =
     \<lparr>st_fileChanges = st_fileChanges st @ map (fileChange_of g base head) files,
      st_directlyImpactedTests = st_directlyImpactedTests st
        @ concat (map (\<lambda>f. analyzeTestFileChanges g base head (path f))
                    (filter (\<lambda>f. isPlaywrightTestFile (path f)) files)),
      st_changedTestFiles = st_changedTestFiles st
        @ filter (\<lambda>f. isPlaywrightTestFile (path f)) files,
      st_changedNonTestFiles = st_changedNonTestFiles st
        @ filter (\<lambda>f. \<not> isPlaywrightTestFile (path f)) files\<rparr>"
  by (induction files arbitrary: st) (simp_all add: fileChange_of_def Let_def)

lemma first_hit_Some:
  "(first_hit lib g head changed testFile imps = Some p) =
     (\<exists>pre i post. imps = pre @ i # post
        \<and> (\<forall>x \<in> set pre. import_hit lib g head changed testFile x = None)
        \<and> import_hit lib g head changed testFile i = Some p)"
proof
  assume a: "first_hit lib g head changed testFile imps = Some p"
  then obtain i where i: "find (\<lambda>i. import_hit lib g head changed testFile i \<noteq> None) imps = Some i"
    "import_hit lib g head changed testFile i = Some p"
    by (auto simp: first_hit_def split: option.splits)
  from i(1) obtain k where k: "k < length imps" "imps ! k = i"
    "\<forall>j < k. \<not> (import_hit lib g head changed testFile (imps ! j) \<noteq> None)"
    unfolding find_Some_iff by blast
  have "imps = take k imps @ i # drop (Suc k) imps"
    using k(1,2) id_take_nth_drop[of k imps] by simp
  moreover have "\<forall>x \<in> set (take k imps). import_hit lib g head changed testFile x = None"
    using k(1,3) by (auto simp: in_set_conv_nth)
  ultimately show "\<exists>pre i post. imps = pre @ i # post
        \<and> (\<forall>x \<in> set pre. import_hit lib g head changed testFile x = None)
        \<and> import_hit lib g head changed testFile i = Some p"
    using i(2) by blast
next
  assume "\<exists>pre i post. imps = pre @ i # post
        \<and> (\<forall>x \<in> set pre. import_hit lib g head changed testFile x = None)
        \<and> import_hit lib g head changed testFile i = Some p"
  then obtain pre i post where d: "imps = pre @ i # post"
    "\<forall>x \<in> set pre. import_hit lib g head changed testFile x = None"
    "import_hit lib g head changed testFile i = Some p" by blast
  have "find (\<lambda>i. import_hit lib g head changed testFile i \<noteq> None) (pre @ i # post) = Some i"
    using d(2,3) by (intro find_first) auto
  with d(1,3) show "first_hit lib g head changed testFile imps = Some p"
    by (simp add: first_hit_def)
qed

lemma import_hit_Some:
  "import_hit lib g head changed testFile i = Some p
     \<Longrightarrow> p \<in> changed \<and> p \<noteq> [] \<and> resolveImportPath lib g (source i) testFile head = Some p"
  by (auto simp: import_hit_def split: option.splits if_splits)

lemma file_impacts_record:
  assumes "r \<in> set (file_impacts lib g head changed testFile)"
  shows "tc_filePath r = testFile \<and> tc_type r = Modified \<and> impactType r = Indirect
         \<and> (\<exists>c. git_show g head testFile = Some c
               \<and> impactedBy r = first_hit lib g head changed testFile (extractImports c)
               \<and> impactedBy r \<noteq> None)"
proof (cases "git_show g head testFile")
  case None
  with assms show ?thesis by (simp add: file_impacts_def)
next
  case (Some c)
  show ?thesis
  proof (cases "first_hit lib g head changed testFile (extractImports c)")
    case None
    with Some assms show ?thesis by (simp add: file_impacts_def)
  next
    case (Some rp)
    with \<open>git_show g head testFile = Some c\<close> assms
    obtain t where "r = indirect_change testFile rp t"
      by (auto simp: file_impacts_def)
    with Some \<open>git_show g head testFile = Some c\<close> show ?thesis
      by (simp add: indirect_change_def)
  qed
qed

lemma first_hit_changed:
  "first_hit lib g head changed testFile imps = Some p \<Longrightarrow> p \<in> changed"
  unfolding first_hit_Some using import_hit_Some by blast

lemma indirect_record:
  assumes "r \<in> set (analyzeIndirectImpact lib g base head nonTest testFiles)"
  shows "tc_filePath r \<notin> set (map path testFiles)
         \<and> tc_filePath r \<in> set (getAllTestFiles g head)
         \<and> tc_type r = Modified \<and> impactType r = Indirect
         \<and> (\<exists>c. git_show g head (tc_filePath r) = Some c
               \<and> impactedBy r
                   = first_hit lib g head (set (map path nonTest)) (tc_filePath r) (extractImports c)
               \<and> impactedBy r \<noteq> None)"
proof -
  from assms obtain t where t: "t \<in> set (getAllTestFiles g head)" "t \<notin> set (map path testFiles)"
    "r \<in> set (file_impacts lib g head (set (map path nonTest)) t)"
    unfolding analyzeIndirectImpact_eq by auto
  from file_impacts_record[OF t(3)] t(1,2) show ?thesis by auto
qed

lemma analyze_Inr:
  assumes "analyze lib g base head = Inr res"
  shows "\<exists>files. getChangedFiles g base head = Inr files
     \<and> changedFiles res = map (fileChange_of g base head) files
     \<and> directlyImpactedTests res
         = concat (map (\<lambda>f. analyzeTestFileChanges g base head (path f))
                     (filter (\<lambda>f. isPlaywrightTestFile (path f)) files))
     \<and> indirectlyImpactedTests res
         = (if filter (\<lambda>f. \<not> isPlaywrightTestFile (path f)) files \<noteq> []
            then analyzeIndirectImpact lib g base head
                   (filter (\<lambda>f. \<not> isPlaywrightTestFile (path f)) files)
                   (filter (\<lambda>f. isPlaywrightTestFile (path f)) files)
            else [])
     \<and> summary res =
         \<lparr>totalFilesChanged = length (changedFiles res),
          testFilesChanged = length (filter isTestFile (changedFiles res)),
          testsAdded = length (filter (\<lambda>t. tc_type t = Added) (directlyImpactedTests res)),
          testsRemoved = length (filter (\<lambda>t. tc_type t = Removed) (directlyImpactedTests res)),
          testsModified = length (filter (\<lambda>t. tc_type t = Modified) (directlyImpactedTests res)),
          testsIndirectlyImpacted = length (indirectlyImpactedTests res)\<rparr>"
proof -
  from assms obtain files where f: "getChangedFiles g base head = Inr files"
    by (auto simp: analyze_def split: sum.splits)
  with assms have "res = \<lparr>baseCommit = base, headCommit = head,
      changedFiles = map (fileChange_of g base head) files,
      directlyImpactedTests = concat (map (\<lambda>f. analyzeTestFileChanges g base head (path f))
                     (filter (\<lambda>f. isPlaywrightTestFile (path f)) files)),
      indirectlyImpactedTests = (if filter (\<lambda>f. \<not> isPlaywrightTestFile (path f)) files \<noteq> []
            then analyzeIndirectImpact lib g base head
                   (filter (\<lambda>f. \<not> isPlaywrightTestFile (path f)) files)
                   (filter (\<lambda>f. isPlaywrightTestFile (path f)) files)
            else []),
      summary = \<lparr>totalFilesChanged = length (map (fileChange_of g base head) files),
          testFilesChanged = length (filter isTestFile (map (fileChange_of g base head) files)),
          testsAdded = length (filter (\<lambda>t. tc_type t = Added)
             (concat (map (\<lambda>f. analyzeTestFileChanges g base head (path f))
                     (filter (\<lambda>f. isPlaywrightTestFile (path f)) files)))),
          testsRemoved = length (filter (\<lambda>t. tc_type t = Removed)
             (concat (map (\<lambda>f. analyzeTestFileChanges g base head (path f))
                     (filter (\<lambda>f. isPlaywrightTestFile (path f)) files)))),
          testsModified = length (filter (\<lambda>t. tc_type t = Modified)
             (concat (map (\<lambda>f. analyzeTestFileChanges g base head (path f))
                     (filter (\<lambda>f. isPlaywrightTestFile (path f)) files)))),
          testsIndirectlyImpacted = length (if filter (\<lambda>f. \<not> isPlaywrightTestFile (path f)) files \<noteq> []
            then analyzeIndirectImpact lib g base head
                   (filter (\<lambda>f. \<not> isPlaywrightTestFile (path f)) files)
                   (filter (\<lambda>f. isPlaywrightTestFile (path f)) files)
            else [])\<rparr>\<rparr>"
    by (simp add: analyze_def changed_file_loop_eq Let_def cong del: if_weak_cong)
  with f show ?thesis by simp
qed

lemma analyzeTestFileChanges_direct:
  "r \<in> set (analyzeTestFileChanges g base head fp)
     \<Longrightarrow> impactType r = Direct \<and> impactedBy r = None \<and> tc_filePath r = fp"
  unfolding analyzeTestFileChanges_def Let_def by (rule diffTests_direct)

lemma direct_record:
  assumes "analyze lib g base head = Inr res" and "r \<in> set (directlyImpactedTests res)"
  shows "impactType r = Direct \<and> isPlaywrightTestFile (tc_filePath r)
         \<and> (\<exists>files. getChangedFiles g base head = Inr files
               \<and> tc_filePath r \<in> set (map path (filter (\<lambda>f. isPlaywrightTestFile (path f)) files)))"
proof -
  from analyze_Inr[OF assms(1)] obtain files where
    f: "getChangedFiles g base head = Inr files"
       "directlyImpactedTests res
         = concat (map (\<lambda>f. analyzeTestFileChanges g base head (path f))
                     (filter (\<lambda>f. isPlaywrightTestFile (path f)) files))"
    by blast
  from assms(2) f(2) obtain cf where cf: "cf \<in> set files" "isPlaywrightTestFile (path cf)"
    "r \<in> set (analyzeTestFileChanges g base head (path cf))" by auto
  from analyzeTestFileChanges_direct[OF cf(3)] cf(1,2) f(1) show ?thesis by auto
qed

section \<open>The indirect-impact pass\<close>

lemma first_hit_resolved:
  "(first_hit lib g head changed testFile imps = Some p) =
     (\<exists>pre i post. imps = pre @ i # post
        \<and> resolveImportPath lib g (source i) testFile head = Some p \<and> p \<noteq> [] \<and> p \<in> changed
        \<and> (\<forall>x \<in> set pre. \<forall>q. resolveImportPath lib g (source x) testFile head = Some q
               \<longrightarrow> q = [] \<or> q \<notin> changed))"
proof -
  have hit: "\<And>i. (import_hit lib g head changed testFile i = Some p) =
      (resolveImportPath lib g (source i) testFile head = Some p \<and> p \<noteq> [] \<and> p \<in> changed)"
    by (auto simp: import_hit_def split: option.splits)
  have miss: "\<And>x. (import_hit lib g head changed testFile x = None) =
      (\<forall>q. resolveImportPath lib g (source x) testFile head = Some q \<longrightarrow> q = [] \<or> q \<notin> changed)"
    by (auto simp: import_hit_def split: option.splits)
  show ?thesis unfolding first_hit_Some hit miss by blast
qed

text \<open>
  Claim C3. Every record of the indirect-impact pass is for a test file of the head
  revision that is not among the changed test files; it is Modified and Indirect; its
  \<open>impactedBy\<close> is a changed non-test path, namely the resolved path of the first import of
  the file, in extraction order, that resolves to a (non-empty) changed non-test path;
  so two records for the same file carry the same \<open>impactedBy\<close>. In a run of \<open>analyze\<close>, no
  file of an indirect record is the file of a direct record.
\<close>

theorem indirect_records_invariant:
  "(\<forall>r \<in> set (analyzeIndirectImpact lib g base head nonTest testFiles).
       tc_filePath r \<notin> set (map path testFiles)
     \<and> tc_filePath r \<in> set (getAllTestFiles g head)
     \<and> tc_type r = Modified \<and> impactType r = Indirect
     \<and> (\<exists>p \<in> set (map path nonTest). impactedBy r = Some p)
     \<and> (\<exists>c. git_show g head (tc_filePath r) = Some c
           \<and> impactedBy r
               = first_hit lib g head (set (map path nonTest)) (tc_filePath r) (extractImports c)))
   \<and> (\<forall>r1 \<in> set (analyzeIndirectImpact lib g base head nonTest testFiles).
       \<forall>r2 \<in> set (analyzeIndirectImpact lib g base head nonTest testFiles).
         tc_filePath r1 = tc_filePath r2 \<longrightarrow> impactedBy r1 = impactedBy r2)
   \<and> (\<forall>changed testFile imps p.
         (first_hit lib g head changed testFile imps = Some p) =
           (\<exists>pre i post. imps = pre @ i # post
              \<and> resolveImportPath lib g (source i) testFile head = Some p
              \<and> p \<noteq> [] \<and> p \<in> changed
              \<and> (\<forall>x \<in> set pre. \<forall>q. resolveImportPath lib g (source x) testFile head = Some q
                     \<longrightarrow> q = [] \<or> q \<notin> changed)))
   \<and> (\<forall>res. analyze lib g base head = Inr res \<longrightarrow>
         (\<forall>r \<in> set (indirectlyImpactedTests res). \<forall>d \<in> set (directlyImpactedTests res).
            tc_filePath r \<noteq> tc_filePath d))"
proof -
  let ?out = "analyzeIndirectImpact lib g base head nonTest testFiles"
  have one: "\<forall>r \<in> set ?out.
       tc_filePath r \<notin> set (map path testFiles)
     \<and> tc_filePath r \<in> set (getAllTestFiles g head)
     \<and> tc_type r = Modified \<and> impactType r = Indirect
     \<and> (\<exists>p \<in> set (map path nonTest). impactedBy r = Some p)
     \<and> (\<exists>c. git_show g head (tc_filePath r) = Some c
           \<and> impactedBy r
               = first_hit lib g head (set (map path nonTest)) (tc_filePath r) (extractImports c))"
  proof
    fix r assume r: "r \<in> set ?out"
    from indirect_record[OF r] obtain c where
      c: "tc_filePath r \<notin> set (map path testFiles)" "tc_filePath r \<in> set (getAllTestFiles g head)"
         "tc_type r = Modified" "impactType r = Indirect"
         "git_show g head (tc_filePath r) = Some c"
         "impactedBy r
            = first_hit lib g head (set (map path nonTest)) (tc_filePath r) (extractImports c)"
         "impactedBy r \<noteq> None"
      by blast
    from c(7) obtain p where p: "impactedBy r = Some p" by auto
    with c(6) have "p \<in> set (map path nonTest)"
      using first_hit_changed[of lib g head "set (map path nonTest)" "tc_filePath r" "extractImports c" p]
      by simp
    with p c show "tc_filePath r \<notin> set (map path testFiles)
     \<and> tc_filePath r \<in> set (getAllTestFiles g head)
     \<and> tc_type r = Modified \<and> impactType r = Indirect
     \<and> (\<exists>p \<in> set (map path nonTest). impactedBy r = Some p)
     \<and> (\<exists>c. git_show g head (tc_filePath r) = Some c
           \<and> impactedBy r
               = first_hit lib g head (set (map path nonTest)) (tc_filePath r) (extractImports c))"
      by blast
  qed
  have same: "\<forall>r1 \<in> set ?out. \<forall>r2 \<in> set ?out.
         tc_filePath r1 = tc_filePath r2 \<longrightarrow> impactedBy r1 = impactedBy r2"
  proof (intro ballI impI)
    fix r1 r2 assume a: "r1 \<in> set ?out" "r2 \<in> set ?out" "tc_filePath r1 = tc_filePath r2"
    from one a(1) obtain c1 where c1: "git_show g head (tc_filePath r1) = Some c1"
      "impactedBy r1
         = first_hit lib g head (set (map path nonTest)) (tc_filePath r1) (extractImports c1)"
      by blast
    from one a(2) obtain c2 where c2: "git_show g head (tc_filePath r2) = Some c2"
      "impactedBy r2
         = first_hit lib g head (set (map path nonTest)) (tc_filePath r2) (extractImports c2)"
      by blast
    from c1(1) c2(1) a(3) have "c1 = c2" by simp
    with c1(2) c2(2) a(3) show "impactedBy r1 = impactedBy r2" by simp
  qed
  have disj: "\<forall>res. analyze lib g base head = Inr res \<longrightarrow>
         (\<forall>r \<in> set (indirectlyImpactedTests res). \<forall>d \<in> set (directlyImpactedTests res).
            tc_filePath r \<noteq> tc_filePath d)"
  proof (intro allI impI ballI)
    fix res r d
    assume a: "analyze lib g base head = Inr res" "r \<in> set (indirectlyImpactedTests res)"
      "d \<in> set (directlyImpactedTests res)"
    from analyze_Inr[OF a(1)] obtain files where f: "getChangedFiles g base head = Inr files"
      "indirectlyImpactedTests res
         = (if filter (\<lambda>f. \<not> isPlaywrightTestFile (path f)) files \<noteq> []
            then analyzeIndirectImpact lib g base head
                   (filter (\<lambda>f. \<not> isPlaywrightTestFile (path f)) files)
                   (filter (\<lambda>f. isPlaywrightTestFile (path f)) files)
            else [])"
      by blast
    from a(2) f(2) have "r \<in> set (analyzeIndirectImpact lib g base head
                   (filter (\<lambda>f. \<not> isPlaywrightTestFile (path f)) files)
                   (filter (\<lambda>f. isPlaywrightTestFile (path f)) files))"
      by (auto split: if_splits)
    from indirect_record[OF this]
    have nr: "tc_filePath r \<notin> set (map path (filter (\<lambda>f. isPlaywrightTestFile (path f)) files))"
      by blast
    from direct_record[OF a(1) a(3)] f(1)
    have "tc_filePath d \<in> set (map path (filter (\<lambda>f. isPlaywrightTestFile (path f)) files))"
      by auto
    with nr show "tc_filePath r \<noteq> tc_filePath d" by auto
  qed
  from one same first_hit_resolved disj show ?thesis by blast
qed

lemma helper_indirect:
  "analyzeIndirectImpact posix_path helper_git ''base'' ''head''
     [\<lparr>path = ''utils/fixtures.ts'', changeType = FileModified\<rparr>,
      \<lparr>path = ''utils/helpers.ts'', changeType = FileModified\<rparr>] [] =
   [\<lparr>tc_type = Modified, tc_testName = ''suite'', tc_filePath = ''tests/a.spec.ts'',
      tc_lineNumber = 3, changeKind = Describe, impactType = Indirect,
      impactedBy = Some ''utils/helpers.ts''\<rparr>,
    \<lparr>tc_type = Modified, tc_testName = ''uses h'', tc_filePath = ''tests/a.spec.ts'',
      tc_lineNumber = 4, changeKind = Test, impactType = Indirect,
      impactedBy = Some ''utils/helpers.ts''\<rparr>]"
  by code_simp

lemma helper_analyze:
  "analyze posix_path helper_git ''base'' ''head'' =
     Inr \<lparr>baseCommit = ''base'', headCommit = ''head'',
          changedFiles =
            [\<lparr>fc_filePath = ''utils/fixtures.ts'', fc_changeType = FileModified,
               isTestFile = False, testChanges = None\<rparr>,
             \<lparr>fc_filePath = ''utils/helpers.ts'', fc_changeType = FileModified,
               isTestFile = False, testChanges = None\<rparr>],
          directlyImpactedTests = [],
          indirectlyImpactedTests =
            [\<lparr>tc_type = Modified, tc_testName = ''suite'', tc_filePath = ''tests/a.spec.ts'',
               tc_lineNumber = 3, changeKind = Describe, impactType = Indirect,
               impactedBy = Some ''utils/helpers.ts''\<rparr>,
             \<lparr>tc_type = Modified, tc_testName = ''uses h'', tc_filePath = ''tests/a.spec.ts'',
               tc_lineNumber = 4, changeKind = Test, impactType = Indirect,
               impactedBy = Some ''utils/helpers.ts''\<rparr>],
          summary =
            \<lparr>totalFilesChanged = 2, testFilesChanged = 0, testsAdded = 0,
              testsRemoved = 0, testsModified = 0, testsIndirectlyImpacted = 2\<rparr>\<rparr>"
  by code_simp

text \<open>The invariant at the example: the test file imports both changed helpers,
  \<open>utils/helpers.ts\<close> first, and both of its records name \<open>utils/helpers.ts\<close>.\<close>

theorem indirect_records_invariant_witness:
  "set (analyzeIndirectImpact posix_path helper_git ''base'' ''head''
          [\<lparr>path = ''utils/fixtures.ts'', changeType = FileModified\<rparr>,
           \<lparr>path = ''utils/helpers.ts'', changeType = FileModified\<rparr>] []) \<noteq> {}
   \<and> resolveImportPath posix_path helper_git ''../utils/fixtures'' ''tests/a.spec.ts'' ''head''
       = Some ''utils/fixtures.ts''
   \<and> list_all (\<lambda>r. tc_filePath r = ''tests/a.spec.ts'' \<and> tc_type r = Modified
                   \<and> impactType r = Indirect \<and> impactedBy r = Some ''utils/helpers.ts'')
       (analyzeIndirectImpact posix_path helper_git ''base'' ''head''
          [\<lparr>path = ''utils/fixtures.ts'', changeType = FileModified\<rparr>,
           \<lparr>path = ''utils/helpers.ts'', changeType = FileModified\<rparr>] [])
   \<and> list_all (\<lambda>r. impactedBy r
                     = first_hit posix_path helper_git ''head''
                         {''utils/fixtures.ts'', ''utils/helpers.ts''} ''tests/a.spec.ts''
                         (extractImports a_spec))
       (analyzeIndirectImpact posix_path helper_git ''base'' ''head''
          [\<lparr>path = ''utils/fixtures.ts'', changeType = FileModified\<rparr>,
           \<lparr>path = ''utils/helpers.ts'', changeType = FileModified\<rparr>] [])"
proof -
  let ?nonTest = "[\<lparr>path = ''utils/fixtures.ts'', changeType = FileModified\<rparr>,
           \<lparr>path = ''utils/helpers.ts'', changeType = FileModified\<rparr>]"
  let ?out = "analyzeIndirectImpact posix_path helper_git ''base'' ''head'' ?nonTest []"
  note inv = indirect_records_invariant
    [of posix_path helper_git "''base''" "''head''" ?nonTest "[]", THEN conjunct1]
  have ne: "set ?out \<noteq> {}" by (simp add: helper_indirect)
  have fx: "resolveImportPath posix_path helper_git ''../utils/fixtures'' ''tests/a.spec.ts'' ''head''
       = Some ''utils/fixtures.ts''"
    by code_simp
  have show_a: "git_show helper_git ''head'' ''tests/a.spec.ts'' = Some a_spec"
    by (simp add: helper_git_def memory_git_def tree_of_def)
  have a: "list_all (\<lambda>r. tc_filePath r = ''tests/a.spec.ts'' \<and> tc_type r = Modified
                   \<and> impactType r = Indirect \<and> impactedBy r = Some ''utils/helpers.ts'') ?out"
    by (simp add: helper_indirect)
  have b: "list_all (\<lambda>r. impactedBy r
                     = first_hit posix_path helper_git ''head''
                         {''utils/fixtures.ts'', ''utils/helpers.ts''} ''tests/a.spec.ts''
                         (extractImports a_spec)) ?out"
    unfolding list_all_iff
  proof
    fix r assume r: "r \<in> set ?out"
    from a r have fp: "tc_filePath r = ''tests/a.spec.ts''" by (simp add: list_all_iff)
    from inv r obtain c where c: "git_show helper_git ''head'' (tc_filePath r) = Some c"
      "impactedBy r = first_hit posix_path helper_git ''head'' (set (map path ?nonTest))
                        (tc_filePath r) (extractImports c)"
      by blast
    from c(1) fp show_a have "c = a_spec" by simp
    with c(2) fp show "impactedBy r
                     = first_hit posix_path helper_git ''head''
                         {''utils/fixtures.ts'', ''utils/helpers.ts''} ''tests/a.spec.ts''
                         (extractImports a_spec)"
      by simp
  qed
  from ne fx a b show ?thesis by blast
qed

section \<open>Absent content\<close>

lemma extract_empty: "extractTestsFromContent [] filePath = []"
  by (simp add: extract_eval)

lemma tests_of_content:
  "(case c of None \<Rightarrow> [] | Some t \<Rightarrow> if t \<noteq> [] then extractTestsFromContent t fp else [])
     = (case c of None \<Rightarrow> [] | Some t \<Rightarrow> extractTestsFromContent t fp)"
  by (auto simp: extract_empty split: option.splits)

lemma analyzeTestFileChanges_eq:
  "analyzeTestFileChanges g base head fp =
     diffTests fp
       (case git_show g base fp of None \<Rightarrow> [] | Some t \<Rightarrow> extractTestsFromContent t fp)
       (case git_show g head fp of None \<Rightarrow> [] | Some t \<Rightarrow> extractTestsFromContent t fp)"
  by (simp add: analyzeTestFileChanges_def Let_def tests_of_content)

lemma diffTests_no_base: "diffTests fp [] hs = map (direct_change Added fp) hs"
  by (induction hs) (simp_all add: diffTests_eq head_outcome_def)

lemma diffTests_no_head: "diffTests fp bs [] = map (direct_change Removed fp) bs"
  by (simp add: diffTests_eq)

text \<open>
  Claim C7. Without base content, every declaration of the head content is reported
  Added; without head content, every declaration of the base content is reported
  Removed; extraction over absent (or empty) content is the empty list. In the indirect
  pass, \<open>git show\<close> failing for a test file is caught: the loop goes on as if the file
  were not in the list, and the pass returns the records of the other files.
\<close>

theorem absent_content_is_no_error:
  "(git_show g base filePath = None \<longrightarrow>
      analyzeTestFileChanges g base head filePath =
        map (direct_change Added filePath)
          (case git_show g head filePath of
             None \<Rightarrow> []
           | Some c \<Rightarrow> extractTestsFromContent c filePath))
   \<and> (git_show g head filePath = None \<longrightarrow>
      analyzeTestFileChanges g base head filePath =
        map (direct_change Removed filePath)
          (case git_show g base filePath of
             None \<Rightarrow> []
           | Some c \<Rightarrow> extractTestsFromContent c filePath))
   \<and> (git_show g head testFile = None \<longrightarrow>
        try_test_file lib g head changed testFile acc = Inl ExecError
        \<and> test_file_loop lib g head changed (pre @ testFile # post) acc
            = test_file_loop lib g head changed (pre @ post) acc)
   \<and> analyzeIndirectImpact lib g base head nonTest testFiles =
       concat (map (file_impacts lib g head (set (map path nonTest)))
                 (filter (\<lambda>t. t \<notin> set (map path testFiles)) (getAllTestFiles g head)))
   \<and> (git_show g head testFile = None \<longrightarrow>
        file_impacts lib g head (set (map path nonTest)) testFile = [])"
proof -
  have a: "git_show g base filePath = None \<longrightarrow>
      analyzeTestFileChanges g base head filePath =
        map (direct_change Added filePath)
          (case git_show g head filePath of
             None \<Rightarrow> []
           | Some c \<Rightarrow> extractTestsFromContent c filePath)"
    by (simp add: analyzeTestFileChanges_eq diffTests_no_base)
  have b: "git_show g head filePath = None \<longrightarrow>
      analyzeTestFileChanges g base head filePath =
        map (direct_change Removed filePath)
          (case git_show g base filePath of
             None \<Rightarrow> []
           | Some c \<Rightarrow> extractTestsFromContent c filePath)"
    by (simp add: analyzeTestFileChanges_eq diffTests_no_head)
  have c: "git_show g head testFile = None \<longrightarrow>
        try_test_file lib g head changed testFile acc = Inl ExecError
        \<and> test_file_loop lib g head changed (pre @ testFile # post) acc
            = test_file_loop lib g head changed (pre @ post) acc"
    by (simp add: try_test_file_def test_file_loop_eq file_impacts_def)
  have d: "git_show g head testFile = None \<longrightarrow>
        file_impacts lib g head (set (map path nonTest)) testFile = []"
    by (simp add: file_impacts_def)
  from a b c analyzeIndirectImpact_eq d show ?thesis by blast
qed

lemma flaky_indirect:
  "analyzeIndirectImpact posix_path flaky_git ''base'' ''head''
     [\<lparr>path = ''utils/fixtures.ts'', changeType = FileModified\<rparr>,
      \<lparr>path = ''utils/helpers.ts'', changeType = FileModified\<rparr>] [] =
   [\<lparr>tc_type = Modified, tc_testName = ''suite'', tc_filePath = ''tests/a.spec.ts'',
      tc_lineNumber = 3, changeKind = Describe, impactType = Indirect,
      impactedBy = Some ''utils/helpers.ts''\<rparr>,
    \<lparr>tc_type = Modified, tc_testName = ''uses h'', tc_filePath = ''tests/a.spec.ts'',
      tc_lineNumber = 4, changeKind = Test, impactType = Indirect,
      impactedBy = Some ''utils/helpers.ts''\<rparr>]"
  by code_simp

text \<open>The theorem at the examples: the renamed file has no base content under its new
  path and its test is Added; a file with no head content has its test Removed; the
  unreadable \<open>tests/b.spec.ts\<close> is skipped and the records of \<open>tests/a.spec.ts\<close> are
  returned.\<close>

theorem absent_content_is_no_error_witness:
  "git_show rename_git ''base'' ''tests/new.spec.ts'' = None
   \<and> analyzeTestFileChanges rename_git ''base'' ''head'' ''tests/new.spec.ts'' =
       [\<lparr>tc_type = Added, tc_testName = ''t'', tc_filePath = ''tests/new.spec.ts'',
         tc_lineNumber = 1, changeKind = Test, impactType = Direct, impactedBy = None\<rparr>]
   \<and> git_show rename_git ''head'' ''tests/old.spec.ts'' = None
   \<and> analyzeTestFileChanges rename_git ''base'' ''head'' ''tests/old.spec.ts'' =
       [\<lparr>tc_type = Removed, tc_testName = ''t'', tc_filePath = ''tests/old.spec.ts'',
         tc_lineNumber = 1, changeKind = Test, impactType = Direct, impactedBy = None\<rparr>]
   \<and> git_show flaky_git ''head'' ''tests/b.spec.ts'' = None
   \<and> getAllTestFiles flaky_git ''head'' = [''tests/b.spec.ts'', ''tests/a.spec.ts'']
   \<and> try_test_file posix_path flaky_git ''head'' {''utils/helpers.ts''} ''tests/b.spec.ts'' []
       = Inl ExecError
   \<and> test_file_loop posix_path flaky_git ''head'' {''utils/helpers.ts''}
        ([] @ ''tests/b.spec.ts'' # [''tests/a.spec.ts'']) []
       = test_file_loop posix_path flaky_git ''head'' {''utils/helpers.ts''}
           ([] @ [''tests/a.spec.ts'']) []
   \<and> length (analyzeIndirectImpact posix_path flaky_git ''base'' ''head''
         [\<lparr>path = ''utils/fixtures.ts'', changeType = FileModified\<rparr>,
          \<lparr>path = ''utils/helpers.ts'', changeType = FileModified\<rparr>] []) = 2"
proof -
  have s1: "git_show rename_git ''base'' ''tests/new.spec.ts'' = None"
    by (simp add: rename_git_def memory_git_def tree_of_def)
  have s2: "git_show rename_git ''head'' ''tests/old.spec.ts'' = None"
    by (simp add: rename_git_def memory_git_def tree_of_def)
  have s3: "git_show flaky_git ''head'' ''tests/b.spec.ts'' = None"
    by (simp add: flaky_git_def)
  have h: "git_show rename_git ''head'' ''tests/new.spec.ts'' = Some ''test('t', () => { x() })''"
    "git_show rename_git ''base'' ''tests/old.spec.ts'' = Some ''test('t', () => { x() })''"
    by (simp_all add: rename_git_def memory_git_def tree_of_def)
  have ex: "extractTestsFromContent ''test('t', () => { x() })'' fp =
     [\<lparr>testName = ''t'', lineNumber = 1, content = ''test('t', () => { x() })'', kind = Test\<rparr>]"
    for fp by (simp add: extract_eval)
  have added: "analyzeTestFileChanges rename_git ''base'' ''head'' ''tests/new.spec.ts'' =
       [\<lparr>tc_type = Added, tc_testName = ''t'', tc_filePath = ''tests/new.spec.ts'',
         tc_lineNumber = 1, changeKind = Test, impactType = Direct, impactedBy = None\<rparr>]"
    using absent_content_is_no_error
      [of rename_git "''base''" "''tests/new.spec.ts''" "''head''", THEN conjunct1] s1
    by (simp add: h ex direct_change_def)
  have removed: "analyzeTestFileChanges rename_git ''base'' ''head'' ''tests/old.spec.ts'' =
       [\<lparr>tc_type = Removed, tc_testName = ''t'', tc_filePath = ''tests/old.spec.ts'',
         tc_lineNumber = 1, changeKind = Test, impactType = Direct, impactedBy = None\<rparr>]"
    using absent_content_is_no_error
      [of rename_git "''base''" "''tests/old.spec.ts''" "''head''", THEN conjunct2, THEN conjunct1] s2
    by (simp add: h ex direct_change_def)
  have files: "getAllTestFiles flaky_git ''head'' = [''tests/b.spec.ts'', ''tests/a.spec.ts'']"
    by code_simp
  have skip: "try_test_file posix_path flaky_git ''head'' {''utils/helpers.ts''} ''tests/b.spec.ts'' []
       = Inl ExecError
   \<and> test_file_loop posix_path flaky_git ''head'' {''utils/helpers.ts''}
        ([] @ ''tests/b.spec.ts'' # [''tests/a.spec.ts'']) []
       = test_file_loop posix_path flaky_git ''head'' {''utils/helpers.ts''}
           ([] @ [''tests/a.spec.ts'']) []"
    using absent_content_is_no_error
      [of flaky_git _ _ "''head''" "''tests/b.spec.ts''" posix_path "{''utils/helpers.ts''}" "[]"
          "[]" "[''tests/a.spec.ts'']",
       THEN conjunct2, THEN conjunct2, THEN conjunct1] s3
    by blast
  have len: "length (analyzeIndirectImpact posix_path flaky_git ''base'' ''head''
         [\<lparr>path = ''utils/fixtures.ts'', changeType = FileModified\<rparr>,
          \<lparr>path = ''utils/helpers.ts'', changeType = FileModified\<rparr>] []) = 2"
    by (simp add: flaky_indirect)
  from s1 added s2 removed s3 files skip len show ?thesis by blast
qed

section \<open>The summary\<close>

lemma filter_isTestFile_fileChange_of:
  "filter isTestFile (map (fileChange_of g base head) files)
     = map (fileChange_of g base head) (filter (\<lambda>f. isPlaywrightTestFile (path f)) files)"
  by (induction files) (simp_all add: fileChange_of_def)

lemma file_impacts_no_import:
  assumes "\<And>c i. git_show g head t = Some c \<Longrightarrow> i \<in> set (extractImports c)
             \<Longrightarrow> \<forall>p \<in> changed. resolveImportPath lib g (source i) t head \<noteq> Some p"
  shows "file_impacts lib g head changed t = []"
proof (cases "git_show g head t")
  case None
  then show ?thesis by (simp add: file_impacts_def)
next
  case (Some c)
  have "first_hit lib g head changed t (extractImports c) = None"
  proof (rule ccontr)
    assume "first_hit lib g head changed t (extractImports c) \<noteq> None"
    then obtain p where "first_hit lib g head changed t (extractImports c) = Some p" by auto
    then obtain pre i post where d: "extractImports c = pre @ i # post"
      "resolveImportPath lib g (source i) t head = Some p" "p \<in> changed"
      unfolding first_hit_resolved by blast
    from d(1) have "i \<in> set (extractImports c)" by simp
    from assms[OF Some this] d(2,3) show False by blast
  qed
  with Some show ?thesis by (simp add: file_impacts_def)
qed

text \<open>
  Claim C8. The summary of a run is a projection of its lists: the number of changed
  files, the number of them classified as test files, the numbers of direct records of
  each change type, and the length of the indirect list. When no changed file is a test
  file and no test file of the head revision has an import that resolves to a changed
  file, there are no direct and no indirect records, every changed file still counts in
  \<open>totalFilesChanged\<close>, and \<open>testFilesChanged\<close> is zero.
\<close>

theorem summary_is_projection:
  assumes "analyze lib g base head = Inr res"
  shows "(\<exists>files. getChangedFiles g base head = Inr files
           \<and> totalFilesChanged (summary res) = length files
           \<and> testFilesChanged (summary res)
               = length (filter (\<lambda>f. isPlaywrightTestFile (path f)) files)
           \<and> ((\<forall>f \<in> set files. \<not> isPlaywrightTestFile (path f))
               \<and> (\<forall>t \<in> set (getAllTestFiles g head). \<forall>c. git_show g head t = Some c \<longrightarrow>
                     (\<forall>i \<in> set (extractImports c). \<forall>f \<in> set files.
                        resolveImportPath lib g (source i) t head \<noteq> Some (path f)))
               \<longrightarrow> directlyImpactedTests res = [] \<and> indirectlyImpactedTests res = []
                   \<and> totalFilesChanged (summary res) = length files
                   \<and> testFilesChanged (summary res) = 0))
       \<and> totalFilesChanged (summary res) = length (changedFiles res)
       \<and> testFilesChanged (summary res) = length (filter isTestFile (changedFiles res))
       \<and> testsAdded (summary res)
           = length (filter (\<lambda>t. tc_type t = Added) (directlyImpactedTests res))
       \<and> testsRemoved (summary res)
           = length (filter (\<lambda>t. tc_type t = Removed) (directlyImpactedTests res))
       \<and> testsModified (summary res)
           = length (filter (\<lambda>t. tc_type t = Modified) (directlyImpactedTests res))
       \<and> testsIndirectlyImpacted (summary res) = length (indirectlyImpactedTests res)"
proof -
  from analyze_Inr[OF assms] obtain files where
    f: "getChangedFiles g base head = Inr files"
       "changedFiles res = map (fileChange_of g base head) files"
       "directlyImpactedTests res
         = concat (map (\<lambda>f. analyzeTestFileChanges g base head (path f))
                     (filter (\<lambda>f. isPlaywrightTestFile (path f)) files))"
       "indirectlyImpactedTests res
         = (if filter (\<lambda>f. \<not> isPlaywrightTestFile (path f)) files \<noteq> []
            then analyzeIndirectImpact lib g base head
                   (filter (\<lambda>f. \<not> isPlaywrightTestFile (path f)) files)
                   (filter (\<lambda>f. isPlaywrightTestFile (path f)) files)
            else [])"
    and s: "summary res =
         \<lparr>totalFilesChanged = length (changedFiles res),
          testFilesChanged = length (filter isTestFile (changedFiles res)),
          testsAdded = length (filter (\<lambda>t. tc_type t = Added) (directlyImpactedTests res)),
          testsRemoved = length (filter (\<lambda>t. tc_type t = Removed) (directlyImpactedTests res)),
          testsModified = length (filter (\<lambda>t. tc_type t = Modified) (directlyImpactedTests res)),
          testsIndirectlyImpacted = length (indirectlyImpactedTests res)\<rparr>"
    by blast
  have total: "totalFilesChanged (summary res) = length files"
    by (simp add: s f(2))
  have tests: "testFilesChanged (summary res)
               = length (filter (\<lambda>f. isPlaywrightTestFile (path f)) files)"
    unfolding s f(2) filter_isTestFile_fileChange_of by simp
  have none: "(\<forall>f \<in> set files. \<not> isPlaywrightTestFile (path f))
               \<and> (\<forall>t \<in> set (getAllTestFiles g head). \<forall>c. git_show g head t = Some c \<longrightarrow>
                     (\<forall>i \<in> set (extractImports c). \<forall>f \<in> set files.
                        resolveImportPath lib g (source i) t head \<noteq> Some (path f)))
               \<longrightarrow> directlyImpactedTests res = [] \<and> indirectlyImpactedTests res = []
                   \<and> totalFilesChanged (summary res) = length files
                   \<and> testFilesChanged (summary res) = 0"
  proof
    assume h: "(\<forall>f \<in> set files. \<not> isPlaywrightTestFile (path f))
               \<and> (\<forall>t \<in> set (getAllTestFiles g head). \<forall>c. git_show g head t = Some c \<longrightarrow>
                     (\<forall>i \<in> set (extractImports c). \<forall>f \<in> set files.
                        resolveImportPath lib g (source i) t head \<noteq> Some (path f)))"
    then have nt: "filter (\<lambda>f. isPlaywrightTestFile (path f)) files = []"
      and all: "filter (\<lambda>f. \<not> isPlaywrightTestFile (path f)) files = files"
      by (simp_all add: filter_empty_conv)
    have d: "directlyImpactedTests res = []" by (simp add: f(3) nt)
    have "\<And>t. t \<in> set (getAllTestFiles g head)
            \<Longrightarrow> file_impacts lib g head (set (map path files)) t = []"
    proof (rule file_impacts_no_import)
      fix t c i
      assume "t \<in> set (getAllTestFiles g head)" "git_show g head t = Some c"
        "i \<in> set (extractImports c)"
      with h show "\<forall>p \<in> set (map path files). resolveImportPath lib g (source i) t head \<noteq> Some p"
        by auto
    qed
    then have "analyzeIndirectImpact lib g base head files [] = []"
      by (simp add: analyzeIndirectImpact_eq)
    then have i: "indirectlyImpactedTests res = []"
      by (simp add: f(4) nt all)
    from d i total tests nt show "directlyImpactedTests res = [] \<and> indirectlyImpactedTests res = []
                   \<and> totalFilesChanged (summary res) = length files
                   \<and> testFilesChanged (summary res) = 0"
      by simp
  qed
  have rest: "totalFilesChanged (summary res) = length (changedFiles res)
       \<and> testFilesChanged (summary res) = length (filter isTestFile (changedFiles res))
       \<and> testsAdded (summary res)
           = length (filter (\<lambda>t. tc_type t = Added) (directlyImpactedTests res))
       \<and> testsRemoved (summary res)
           = length (filter (\<lambda>t. tc_type t = Removed) (directlyImpactedTests res))
       \<and> testsModified (summary res)
           = length (filter (\<lambda>t. tc_type t = Modified) (directlyImpactedTests res))
       \<and> testsIndirectlyImpacted (summary res) = length (indirectlyImpactedTests res)"
    by (simp add: s)
  from f(1) total tests none rest show ?thesis by blast
qed

lemma package_analyze:
  "analyze posix_path package_git ''base'' ''head'' =
     Inr \<lparr>baseCommit = ''base'', headCommit = ''head'',
          changedFiles =
            [\<lparr>fc_filePath = ''package.json'', fc_changeType = FileModified,
               isTestFile = False, testChanges = None\<rparr>],
          directlyImpactedTests = [], indirectlyImpactedTests = [],
          summary =
            \<lparr>totalFilesChanged = 1, testFilesChanged = 0, testsAdded = 0,
              testsRemoved = 0, testsModified = 0, testsIndirectlyImpacted = 0\<rparr>\<rparr>"
  by code_simp

text \<open>The theorem at the run where only \<open>package.json\<close> changes: one changed file, no test
  file among them, no record.\<close>

theorem summary_is_projection_witness:
  "(\<exists>res. analyze posix_path package_git ''base'' ''head'' = Inr res
       \<and> getChangedFiles package_git ''base'' ''head''
           = Inr [\<lparr>path = ''package.json'', changeType = FileModified\<rparr>]
       \<and> \<not> isPlaywrightTestFile ''package.json''
       \<and> getAllTestFiles package_git ''head'' = [''tests/a.spec.ts'']
       \<and> map source (extractImports
             ''import { test } from '@playwright/test'; test('t', () => { x() })'')
           = [''@playwright/test'']
       \<and> resolveImportPath posix_path package_git ''@playwright/test'' ''tests/a.spec.ts'' ''head''
           = None
       \<and> directlyImpactedTests res = [] \<and> indirectlyImpactedTests res = []
       \<and> totalFilesChanged (summary res) = 1 \<and> testFilesChanged (summary res) = 0
       \<and> testsAdded (summary res) = 0 \<and> testsRemoved (summary res) = 0
       \<and> testsModified (summary res) = 0 \<and> testsIndirectlyImpacted (summary res) = 0)"
proof -
  obtain res where res: "analyze posix_path package_git ''base'' ''head'' = Inr res"
    using package_analyze by blast
  have cf: "getChangedFiles package_git ''base'' ''head''
           = Inr [\<lparr>path = ''package.json'', changeType = FileModified\<rparr>]"
    by code_simp
  have nt: "\<not> isPlaywrightTestFile ''package.json''" by code_simp
  have tf: "getAllTestFiles package_git ''head'' = [''tests/a.spec.ts'']" by code_simp
  have sh: "git_show package_git ''head'' ''tests/a.spec.ts''
      = Some ''import { test } from '@playwright/test'; test('t', () => { x() })''"
    by (simp add: package_git_def memory_git_def tree_of_def)
  have im: "extractImports ''import { test } from '@playwright/test'; test('t', () => { x() })''
           = [\<lparr>source = ''@playwright/test'', imp_lineNumber = 1\<rparr>]"
    by code_simp
  have rs: "resolveImportPath posix_path package_git ''@playwright/test'' ''tests/a.spec.ts'' ''head''
           = None"
    by code_simp
  from summary_is_projection[OF res] obtain files where
    f: "getChangedFiles package_git ''base'' ''head'' = Inr files"
       "totalFilesChanged (summary res) = length files"
       "testFilesChanged (summary res)
               = length (filter (\<lambda>f. isPlaywrightTestFile (path f)) files)"
       "(\<forall>f \<in> set files. \<not> isPlaywrightTestFile (path f))
               \<and> (\<forall>t \<in> set (getAllTestFiles package_git ''head'').
                     \<forall>c. git_show package_git ''head'' t = Some c \<longrightarrow>
                     (\<forall>i \<in> set (extractImports c). \<forall>f \<in> set files.
                        resolveImportPath posix_path package_git (source i) t ''head''
                          \<noteq> Some (path f)))
               \<longrightarrow> directlyImpactedTests res = [] \<and> indirectlyImpactedTests res = []
                   \<and> totalFilesChanged (summary res) = length files
                   \<and> testFilesChanged (summary res) = 0"
    and cnt: "testsAdded (summary res)
           = length (filter (\<lambda>t. tc_type t = Added) (directlyImpactedTests res))"
       "testsRemoved (summary res)
           = length (filter (\<lambda>t. tc_type t = Removed) (directlyImpactedTests res))"
       "testsModified (summary res)
           = length (filter (\<lambda>t. tc_type t = Modified) (directlyImpactedTests res))"
       "testsIndirectlyImpacted (summary res) = length (indirectlyImpactedTests res)"
    by blast
  from f(1) cf have files: "files = [\<lparr>path = ''package.json'', changeType = FileModified\<rparr>]"
    by simp
  have hyp: "(\<forall>f \<in> set files. \<not> isPlaywrightTestFile (path f))
               \<and> (\<forall>t \<in> set (getAllTestFiles package_git ''head'').
                     \<forall>c. git_show package_git ''head'' t = Some c \<longrightarrow>
                     (\<forall>i \<in> set (extractImports c). \<forall>f \<in> set files.
                        resolveImportPath posix_path package_git (source i) t ''head''
                          \<noteq> Some (path f)))"
    using nt by (simp add: files tf sh im rs)
  with f(4) have z: "directlyImpactedTests res = [] \<and> indirectlyImpactedTests res = []
                   \<and> totalFilesChanged (summary res) = length files
                   \<and> testFilesChanged (summary res) = 0"
    by blast
  from z have d: "directlyImpactedTests res = []" and i: "indirectlyImpactedTests res = []"
    and t0: "testFilesChanged (summary res) = 0"
    by simp_all
  from z files have t1: "totalFilesChanged (summary res) = 1" by simp
  from cnt d i have a0: "testsAdded (summary res) = 0" and r0: "testsRemoved (summary res) = 0"
    and m0: "testsModified (summary res) = 0" and i0: "testsIndirectlyImpacted (summary res) = 0"
    by simp_all
  have ims: "map source (extractImports
             ''import { test } from '@playwright/test'; test('t', () => { x() })'')
           = [''@playwright/test'']"
    by (simp add: im)
  show ?thesis
    by (rule exI[of _ res]) (intro conjI, (fact)+)
qed

text \<open>
  Claim C9. Over all the records of a run, direct and indirect together, \<open>testsAdded\<close>,
  \<open>testsRemoved\<close> and \<open>testsModified\<close> count the records of their change type with impact
  origin Direct, and \<open>testsIndirectlyImpacted\<close> counts the records with origin Indirect;
  every indirect record is Modified, and none of them is counted in \<open>testsModified\<close>.
\<close>

theorem direct_counters_exclude_indirect:
  assumes "analyze lib g base head = Inr res"
  shows "testsAdded (summary res)
           = length (filter (\<lambda>t. tc_type t = Added \<and> impactType t = Direct)
                       (directlyImpactedTests res @ indirectlyImpactedTests res))
       \<and> testsRemoved (summary res)
           = length (filter (\<lambda>t. tc_type t = Removed \<and> impactType t = Direct)
                       (directlyImpactedTests res @ indirectlyImpactedTests res))
       \<and> testsModified (summary res)
           = length (filter (\<lambda>t. tc_type t = Modified \<and> impactType t = Direct)
                       (directlyImpactedTests res @ indirectlyImpactedTests res))
       \<and> testsIndirectlyImpacted (summary res)
           = length (filter (\<lambda>t. impactType t = Indirect)
                       (directlyImpactedTests res @ indirectlyImpactedTests res))
       \<and> (\<forall>t \<in> set (indirectlyImpactedTests res). tc_type t = Modified \<and> impactType t = Indirect)
       \<and> (\<forall>t \<in> set (directlyImpactedTests res). impactType t = Direct)
       \<and> testsModified (summary res) + testsIndirectlyImpacted (summary res)
           = length (filter (\<lambda>t. tc_type t = Modified)
                       (directlyImpactedTests res @ indirectlyImpactedTests res))"
proof -
  from analyze_Inr[OF assms] obtain files where
    f: "indirectlyImpactedTests res
         = (if filter (\<lambda>f. \<not> isPlaywrightTestFile (path f)) files \<noteq> []
            then analyzeIndirectImpact lib g base head
                   (filter (\<lambda>f. \<not> isPlaywrightTestFile (path f)) files)
                   (filter (\<lambda>f. isPlaywrightTestFile (path f)) files)
            else [])"
    and s: "summary res =
         \<lparr>totalFilesChanged = length (changedFiles res),
          testFilesChanged = length (filter isTestFile (changedFiles res)),
          testsAdded = length (filter (\<lambda>t. tc_type t = Added) (directlyImpactedTests res)),
          testsRemoved = length (filter (\<lambda>t. tc_type t = Removed) (directlyImpactedTests res)),
          testsModified = length (filter (\<lambda>t. tc_type t = Modified) (directlyImpactedTests res)),
          testsIndirectlyImpacted = length (indirectlyImpactedTests res)\<rparr>"
    by blast
  have ind: "\<forall>t \<in> set (indirectlyImpactedTests res). tc_type t = Modified \<and> impactType t = Indirect"
  proof
    fix t assume "t \<in> set (indirectlyImpactedTests res)"
    with f have "t \<in> set (analyzeIndirectImpact lib g base head
                   (filter (\<lambda>f. \<not> isPlaywrightTestFile (path f)) files)
                   (filter (\<lambda>f. isPlaywrightTestFile (path f)) files))"
      by (auto split: if_splits)
    from indirect_record[OF this] show "tc_type t = Modified \<and> impactType t = Indirect" by blast
  qed
  have dir: "\<forall>t \<in> set (directlyImpactedTests res). impactType t = Direct"
    using direct_record[OF assms] by blast
  have fd: "\<And>P. filter (\<lambda>t. P t \<and> impactType t = Direct) (directlyImpactedTests res)
              = filter P (directlyImpactedTests res)"
    using dir by (auto intro: filter_cong)
  have fi: "\<And>P. filter (\<lambda>t. P t \<and> impactType t = Direct) (indirectlyImpactedTests res) = []"
    using ind by (auto simp: filter_empty_conv)
  have gd: "filter (\<lambda>t. impactType t = Indirect) (directlyImpactedTests res) = []"
    using dir by (auto simp: filter_empty_conv)
  have gi: "filter (\<lambda>t. impactType t = Indirect) (indirectlyImpactedTests res)
              = indirectlyImpactedTests res"
    using ind by (auto simp: filter_id_conv)
  have mi: "filter (\<lambda>t. tc_type t = Modified) (indirectlyImpactedTests res)
              = indirectlyImpactedTests res"
    using ind by (auto simp: filter_id_conv)
  from ind dir show ?thesis
    by (simp add: s fd fi gd gi mi)
qed

text \<open>The theorem at the run with two indirect records: both are Modified, and
  \<open>testsModified\<close> is zero.\<close>

theorem direct_counters_exclude_indirect_witness:
  "(\<exists>res. analyze posix_path helper_git ''base'' ''head'' = Inr res
       \<and> length (indirectlyImpactedTests res) = 2
       \<and> list_all (\<lambda>t. tc_type t = Modified \<and> impactType t = Indirect)
           (indirectlyImpactedTests res)
       \<and> testsModified (summary res) = 0
       \<and> testsAdded (summary res) = 0 \<and> testsRemoved (summary res) = 0
       \<and> testsIndirectlyImpacted (summary res) = 2
       \<and> length (filter (\<lambda>t. tc_type t = Modified)
                   (directlyImpactedTests res @ indirectlyImpactedTests res)) = 2)"
proof -
  obtain res where res: "analyze posix_path helper_git ''base'' ''head'' = Inr res"
    using helper_analyze by blast
  with helper_analyze have l: "length (indirectlyImpactedTests res) = 2"
    "directlyImpactedTests res = []"
    by auto
  note c = direct_counters_exclude_indirect[OF res]
  from c have ind: "list_all (\<lambda>t. tc_type t = Modified \<and> impactType t = Indirect)
           (indirectlyImpactedTests res)"
    by (simp add: list_all_iff)
  then have fi: "filter (\<lambda>t. impactType t = Indirect) (indirectlyImpactedTests res)
                   = indirectlyImpactedTests res"
    "filter (\<lambda>t. tc_type t = Modified) (indirectlyImpactedTests res)
                   = indirectlyImpactedTests res"
    "\<And>P. filter (\<lambda>t. P t \<and> impactType t = Direct) (indirectlyImpactedTests res) = []"
    by (auto simp: list_all_iff filter_id_conv filter_empty_conv)
  from c l fi have n: "testsModified (summary res) = 0
       \<and> testsAdded (summary res) = 0 \<and> testsRemoved (summary res) = 0
       \<and> testsIndirectlyImpacted (summary res) = 2
       \<and> length (filter (\<lambda>t. tc_type t = Modified)
                   (directlyImpactedTests res @ indirectlyImpactedTests res)) = 2"
    by simp
  from n have m0: "testsModified (summary res) = 0" and a0: "testsAdded (summary res) = 0"
    and r0: "testsRemoved (summary res) = 0" and i2: "testsIndirectlyImpacted (summary res) = 2"
    and tot: "length (filter (\<lambda>t. tc_type t = Modified)
                   (directlyImpactedTests res @ indirectlyImpactedTests res)) = 2"
    by simp_all
  note l2 = l(1)
  show ?thesis
    by (rule exI[of _ res]) (intro conjI, (fact)+)
qed

section \<open>Renamed files\<close>

lemma js_trim_nonempty:
  assumes "s \<noteq> []" and "\<not> is_space (hd s)"
  shows "js_trim s \<noteq> []"
proof -
  from assms have d: "dropWhile is_space s = s" by (cases s) auto
  have "\<not> (\<forall>x \<in> set (rev s). is_space x)"
    using assms by (cases s) auto
  then have "dropWhile is_space (rev s) \<noteq> []"
    by (simp add: dropWhile_eq_Nil_conv)
  with d show ?thesis by (simp add: js_trim_def)
qed

lemma split_on_hd:
  "split_on c s = (x # l) # ls \<Longrightarrow> s \<noteq> [] \<and> hd s = x"
  by (cases s) (auto split: if_splits list.splits)

lemma status_loop_eq:
  "status_loop lines files = files @ List.map_filter parse_status_line lines"
  by (induction lines arbitrary: files) (auto simp: List.map_filter_simps split: option.splits)

lemma parse_rename_line:
  assumes "split_on tab line = [status, oldPath, newPath]" and "prefix ''R'' status"
    and "newPath \<noteq> []"
  shows "parse_status_line line = Some \<lparr>path = newPath, changeType = FileRenamed\<rparr>"
proof -
  from assms(2) obtain rest where st: "status = CHR ''R'' # rest"
    by (auto simp: prefix_def)
  with assms(1) have "line \<noteq> [] \<and> hd line = CHR ''R''"
    using split_on_hd by blast
  then have "js_trim line \<noteq> []"
    by (intro js_trim_nonempty) (simp_all add: is_space_def)
  with assms(1,3) st show ?thesis
    by (simp add: parse_status_line_def status_case_def numeral_2_eq_2)
qed

lemma map_filter_member:
  "f \<in> set (List.map_filter p xs) \<Longrightarrow> \<exists>x \<in> set xs. p x = Some f"
  by (auto simp: List.map_filter_def)

lemma map_filter_append:
  "List.map_filter p (xs @ ys) = List.map_filter p xs @ List.map_filter p ys"
  by (simp add: List.map_filter_def)

lemma concat_map_filter_member:
  "r \<in> set (concat (map h (filter P xs))) \<Longrightarrow> \<exists>x \<in> set xs. r \<in> set (h x)"
  by auto

lemma fc_filePath_fileChange_of:
  "fc_filePath ` set (map (fileChange_of g base head) files) = path ` set files"
  by (auto simp: fileChange_of_def image_iff)

text \<open>
  Claim C10. Let the diff have a line whose status begins with \<open>R\<close> and whose fields are
  the status, the old path and the new path. The list of changed files is what the lines
  before it contribute, then the one record of this line, which carries the new path and
  the change type renamed, then what the lines after it contribute. The line contributes
  nothing else: the old path is the path of no record of the list, provided it is not the
  new path and no other line of the diff records it. The run returns, and its list of
  file changes is built from that list in the same order; the file change of the renamed
  file carries the new path, the classification of the new path, and, for a test file,
  the diff of the declarations found under the new path at the base and at the head
  revision. The direct records of the run are those diffs, for the changed test files in
  order, so under the same proviso no file change and no direct record names the old
  path. When the new path has no content at the base revision, the diff reports every
  head declaration as Added.
\<close>

theorem renamed_file_uses_new_path:
  assumes "git_diff_name_status g base head = Some output"
    and "split_on nl (js_trim output) = before @ line # after"
    and "split_on tab line = [status, oldPath, newPath]"
    and "prefix ''R'' status" and "newPath \<noteq> []"
  shows "\<exists>files res.
       files = List.map_filter parse_status_line before
               @ \<lparr>path = newPath, changeType = FileRenamed\<rparr>
               # List.map_filter parse_status_line after
     \<and> getChangedFiles g base head = Inr files
     \<and> analyze lib g base head = Inr res
     \<and> changedFiles res =
         map (fileChange_of g base head) (List.map_filter parse_status_line before)
         @ \<lparr>fc_filePath = newPath, fc_changeType = FileRenamed,
             isTestFile = isPlaywrightTestFile newPath,
             testChanges = (if isPlaywrightTestFile newPath
                            then Some (analyzeTestFileChanges g base head newPath)
                            else None)\<rparr>
         # map (fileChange_of g base head) (List.map_filter parse_status_line after)
     \<and> directlyImpactedTests res =
         concat (map (\<lambda>f. analyzeTestFileChanges g base head (path f))
                   (filter (\<lambda>f. isPlaywrightTestFile (path f)) files))
     \<and> (oldPath \<noteq> newPath
          \<and> (\<forall>l \<in> set (before @ after).
                map_option path (parse_status_line l) \<noteq> Some oldPath)
        \<longrightarrow> oldPath \<notin> path ` set files
            \<and> oldPath \<notin> fc_filePath ` set (changedFiles res)
            \<and> oldPath \<notin> tc_filePath ` set (directlyImpactedTests res))
     \<and> analyzeTestFileChanges g base head newPath =
         diffTests newPath
           (case git_show g base newPath of
              None \<Rightarrow> [] | Some c \<Rightarrow> extractTestsFromContent c newPath)
           (case git_show g head newPath of
              None \<Rightarrow> [] | Some c \<Rightarrow> extractTestsFromContent c newPath)
     \<and> (git_show g base newPath = None \<longrightarrow>
           analyzeTestFileChanges g base head newPath =
             map (direct_change Added newPath)
               (case git_show g head newPath of
                  None \<Rightarrow> [] | Some c \<Rightarrow> extractTestsFromContent c newPath))"
proof -
  let ?f = "\<lparr>path = newPath, changeType = FileRenamed\<rparr>"
  let ?bs = "List.map_filter parse_status_line before"
  let ?as = "List.map_filter parse_status_line after"
  let ?files = "?bs @ ?f # ?as"
  have p: "parse_status_line line = Some ?f"
    using assms(3-5) by (rule parse_rename_line)
  have "List.map_filter parse_status_line (before @ line # after) = ?files"
    using p by (simp add: map_filter_append List.map_filter_simps)
  then have files: "getChangedFiles g base head = Inr ?files"
    using assms(1,2) by (simp add: getChangedFiles_def status_loop_eq)
  obtain res where res: "analyze lib g base head = Inr res"
    using files by (auto simp: analyze_def Let_def)
  from analyze_Inr[OF res] files
  have cf0: "changedFiles res = map (fileChange_of g base head) ?files"
    and di: "directlyImpactedTests res =
         concat (map (\<lambda>f. analyzeTestFileChanges g base head (path f))
                   (filter (\<lambda>f. isPlaywrightTestFile (path f)) ?files))"
    by auto
  have fcf: "fileChange_of g base head ?f =
      \<lparr>fc_filePath = newPath, fc_changeType = FileRenamed,
       isTestFile = isPlaywrightTestFile newPath,
       testChanges = (if isPlaywrightTestFile newPath
                      then Some (analyzeTestFileChanges g base head newPath)
                      else None)\<rparr>"
    by (simp add: fileChange_of_def)
  have cf: "changedFiles res =
         map (fileChange_of g base head) ?bs
         @ \<lparr>fc_filePath = newPath, fc_changeType = FileRenamed,
             isTestFile = isPlaywrightTestFile newPath,
             testChanges = (if isPlaywrightTestFile newPath
                            then Some (analyzeTestFileChanges g base head newPath)
                            else None)\<rparr>
         # map (fileChange_of g base head) ?as"
    unfolding cf0 map_append list.map fcf by (rule refl)
  have old: "oldPath \<noteq> newPath
          \<and> (\<forall>l \<in> set (before @ after).
                map_option path (parse_status_line l) \<noteq> Some oldPath)
        \<longrightarrow> oldPath \<notin> path ` set ?files
            \<and> oldPath \<notin> fc_filePath ` set (changedFiles res)
            \<and> oldPath \<notin> tc_filePath ` set (directlyImpactedTests res)"
  proof (intro impI)
    assume a: "oldPath \<noteq> newPath
          \<and> (\<forall>l \<in> set (before @ after).
                map_option path (parse_status_line l) \<noteq> Some oldPath)"
    have other: "path f \<noteq> oldPath" if "f \<in> set (?bs @ ?as)" for f
    proof -
      from that have "f \<in> set (List.map_filter parse_status_line (before @ after))"
        by (simp add: map_filter_append)
      then obtain l where "l \<in> set (before @ after)" "parse_status_line l = Some f"
        using map_filter_member by fastforce
      with a show ?thesis by force
    qed
    have n1: "oldPath \<notin> path ` set ?files"
    proof
      assume "oldPath \<in> path ` set ?files"
      then obtain f where f: "f \<in> set ?files" "path f = oldPath" by blast
      from f(1) have "f = ?f \<or> f \<in> set (?bs @ ?as)" by auto
      with f(2) a other show False by auto
    qed
    have n2: "oldPath \<notin> fc_filePath ` set (changedFiles res)"
      unfolding cf0 fc_filePath_fileChange_of by (rule n1)
    have n3: "oldPath \<notin> tc_filePath ` set (directlyImpactedTests res)"
    proof
      assume "oldPath \<in> tc_filePath ` set (directlyImpactedTests res)"
      then obtain r where r: "r \<in> set (directlyImpactedTests res)" "tc_filePath r = oldPath"
        by auto
      from r(1) have "r \<in> set (concat (map (\<lambda>f. analyzeTestFileChanges g base head (path f))
                   (filter (\<lambda>f. isPlaywrightTestFile (path f)) ?files)))"
        unfolding di .
      from concat_map_filter_member[OF this] obtain f where f: "f \<in> set ?files"
          "r \<in> set (analyzeTestFileChanges g base head (path f))"
        by blast
      from analyzeTestFileChanges_direct[OF f(2)] r(2) have "path f = oldPath" by simp
      with f(1) n1 show False by force
    qed
    from n1 n2 n3 show "oldPath \<notin> path ` set ?files
            \<and> oldPath \<notin> fc_filePath ` set (changedFiles res)
            \<and> oldPath \<notin> tc_filePath ` set (directlyImpactedTests res)"
      by (intro conjI)
  qed
  have added: "git_show g base newPath = None \<longrightarrow>
             analyzeTestFileChanges g base head newPath =
               map (direct_change Added newPath)
                 (case git_show g head newPath of
                    None \<Rightarrow> [] | Some c \<Rightarrow> extractTestsFromContent c newPath)"
    by (simp add: analyzeTestFileChanges_eq diffTests_no_base)
  show ?thesis
    by (rule exI[of _ ?files], rule exI[of _ res])
       (intro conjI refl files res cf di old analyzeTestFileChanges_eq added)
qed

lemma rename_analyze:
  "analyze posix_path rename_git ''base'' ''head'' =
     Inr \<lparr>baseCommit = ''base'', headCommit = ''head'',
          changedFiles =
            [\<lparr>fc_filePath = ''tests/new.spec.ts'', fc_changeType = FileRenamed,
               isTestFile = True,
               testChanges =
                 Some [\<lparr>tc_type = Added, tc_testName = ''t'', tc_filePath = ''tests/new.spec.ts'',
                         tc_lineNumber = 1, changeKind = Test, impactType = Direct,
                         impactedBy = None\<rparr>]\<rparr>],
          directlyImpactedTests =
            [\<lparr>tc_type = Added, tc_testName = ''t'', tc_filePath = ''tests/new.spec.ts'',
               tc_lineNumber = 1, changeKind = Test, impactType = Direct, impactedBy = None\<rparr>],
          indirectlyImpactedTests = [],
          summary =
            \<lparr>totalFilesChanged = 1, testFilesChanged = 1, testsAdded = 1,
              testsRemoved = 0, testsModified = 0, testsIndirectlyImpacted = 0\<rparr>\<rparr>"
  by code_simp

lemma rename_added:
  "analyzeTestFileChanges rename_git ''base'' ''head'' ''tests/new.spec.ts'' =
     [\<lparr>tc_type = Added, tc_testName = ''t'', tc_filePath = ''tests/new.spec.ts'',
        tc_lineNumber = 1, changeKind = Test, impactType = Direct, impactedBy = None\<rparr>]"
  by code_simp

text \<open>The theorem at the renamed test file. The diff is the one line
  \<open>R100 tests/old.spec.ts tests/new.spec.ts\<close>; the list of changed files is the one record
  of \<open>tests/new.spec.ts\<close>, the run returns one file change with that path, classified as
  a test file, and one direct record, the test of the file reported as Added since the
  new path has no content at the base revision; \<open>tests/old.spec.ts\<close> is in none of them.\<close>

theorem renamed_file_uses_new_path_witness:
  "git_diff_name_status rename_git ''base'' ''head''
     = Some (''R100'' @ [tab] @ ''tests/old.spec.ts'' @ [tab] @ ''tests/new.spec.ts'' @ [nl])
   \<and> split_on nl (js_trim
        (''R100'' @ [tab] @ ''tests/old.spec.ts'' @ [tab] @ ''tests/new.spec.ts'' @ [nl]))
       = [] @ (''R100'' @ [tab] @ ''tests/old.spec.ts'' @ [tab] @ ''tests/new.spec.ts'') # []
   \<and> split_on tab (''R100'' @ [tab] @ ''tests/old.spec.ts'' @ [tab] @ ''tests/new.spec.ts'')
       = [''R100'', ''tests/old.spec.ts'', ''tests/new.spec.ts'']
   \<and> prefix ''R'' ''R100'' \<and> ''tests/new.spec.ts'' \<noteq> []
   \<and> ''tests/old.spec.ts'' \<noteq> ''tests/new.spec.ts''
   \<and> git_show rename_git ''base'' ''tests/new.spec.ts'' = None
   \<and> getChangedFiles rename_git ''base'' ''head''
       = Inr [\<lparr>path = ''tests/new.spec.ts'', changeType = FileRenamed\<rparr>]
   \<and> (\<exists>res. analyze posix_path rename_git ''base'' ''head'' = Inr res
         \<and> changedFiles res =
             [\<lparr>fc_filePath = ''tests/new.spec.ts'', fc_changeType = FileRenamed,
                isTestFile = True,
                testChanges =
                  Some [\<lparr>tc_type = Added, tc_testName = ''t'',
                          tc_filePath = ''tests/new.spec.ts'', tc_lineNumber = 1,
                          changeKind = Test, impactType = Direct, impactedBy = None\<rparr>]\<rparr>]
         \<and> directlyImpactedTests res =
             [\<lparr>tc_type = Added, tc_testName = ''t'', tc_filePath = ''tests/new.spec.ts'',
                tc_lineNumber = 1, changeKind = Test, impactType = Direct, impactedBy = None\<rparr>]
         \<and> ''tests/old.spec.ts'' \<notin> fc_filePath ` set (changedFiles res)
         \<and> ''tests/old.spec.ts'' \<notin> tc_filePath ` set (directlyImpactedTests res))
   \<and> analyzeTestFileChanges rename_git ''base'' ''head'' ''tests/new.spec.ts'' =
       map (direct_change Added ''tests/new.spec.ts'')
         (case git_show rename_git ''head'' ''tests/new.spec.ts'' of
            None \<Rightarrow> [] | Some c \<Rightarrow> extractTestsFromContent c ''tests/new.spec.ts'')"
proof -
  let ?line = "''R100'' @ [tab] @ ''tests/old.spec.ts'' @ [tab] @ ''tests/new.spec.ts''"
  let ?out = "''R100'' @ [tab] @ ''tests/old.spec.ts'' @ [tab] @ ''tests/new.spec.ts'' @ [nl]"
  let ?added = "[\<lparr>tc_type = Added, tc_testName = ''t'', tc_filePath = ''tests/new.spec.ts'',
                tc_lineNumber = 1, changeKind = Test, impactType = Direct, impactedBy = None\<rparr>]"
  have h1: "git_diff_name_status rename_git ''base'' ''head'' = Some ?out"
    by (simp add: rename_git_def memory_git_def)
  have h2: "split_on nl (js_trim ?out) = [] @ ?line # []"
    by (simp add: js_trim_def is_space_def nl_def tab_def)
  have h3: "split_on tab ?line = [''R100'', ''tests/old.spec.ts'', ''tests/new.spec.ts'']"
    by (simp add: tab_def)
  have h4: "prefix ''R'' ''R100''" by simp
  have h5: "''tests/new.spec.ts'' \<noteq> []" by simp
  have ne: "''tests/old.spec.ts'' \<noteq> ''tests/new.spec.ts''" by simp
  have nb: "git_show rename_git ''base'' ''tests/new.spec.ts'' = None"
    by (simp add: rename_git_def memory_git_def tree_of_def)
  have t: "isPlaywrightTestFile ''tests/new.spec.ts''" by code_simp
  note th = renamed_file_uses_new_path [OF h1 h2 h3 h4 h5, of posix_path]
  from th obtain files res where all:
    "(files = List.map_filter parse_status_line []
               @ \<lparr>path = ''tests/new.spec.ts'', changeType = FileRenamed\<rparr>
               # List.map_filter parse_status_line [])
     \<and> (getChangedFiles rename_git ''base'' ''head'' = Inr files)
     \<and> (analyze posix_path rename_git ''base'' ''head'' = Inr res)
     \<and> (changedFiles res =
         map (fileChange_of rename_git ''base'' ''head'') (List.map_filter parse_status_line [])
         @ \<lparr>fc_filePath = ''tests/new.spec.ts'', fc_changeType = FileRenamed,
             isTestFile = isPlaywrightTestFile ''tests/new.spec.ts'',
             testChanges = (if isPlaywrightTestFile ''tests/new.spec.ts''
                            then Some (analyzeTestFileChanges rename_git ''base'' ''head''
                                         ''tests/new.spec.ts'')
                            else None)\<rparr>
         # map (fileChange_of rename_git ''base'' ''head'') (List.map_filter parse_status_line []))
     \<and> (directlyImpactedTests res =
         concat (map (\<lambda>f. analyzeTestFileChanges rename_git ''base'' ''head'' (path f))
                   (filter (\<lambda>f. isPlaywrightTestFile (path f)) files)))
     \<and> (''tests/old.spec.ts'' \<noteq> ''tests/new.spec.ts''
          \<and> (\<forall>l \<in> set ([] @ []).
                map_option path (parse_status_line l) \<noteq> Some ''tests/old.spec.ts'')
        \<longrightarrow> ''tests/old.spec.ts'' \<notin> path ` set files
            \<and> ''tests/old.spec.ts'' \<notin> fc_filePath ` set (changedFiles res)
            \<and> ''tests/old.spec.ts'' \<notin> tc_filePath ` set (directlyImpactedTests res))
     \<and> (analyzeTestFileChanges rename_git ''base'' ''head'' ''tests/new.spec.ts'' =
         diffTests ''tests/new.spec.ts''
           (case git_show rename_git ''base'' ''tests/new.spec.ts'' of
              None \<Rightarrow> [] | Some c \<Rightarrow> extractTestsFromContent c ''tests/new.spec.ts'')
           (case git_show rename_git ''head'' ''tests/new.spec.ts'' of
              None \<Rightarrow> [] | Some c \<Rightarrow> extractTestsFromContent c ''tests/new.spec.ts''))
     \<and> (git_show rename_git ''base'' ''tests/new.spec.ts'' = None \<longrightarrow>
           analyzeTestFileChanges rename_git ''base'' ''head'' ''tests/new.spec.ts'' =
             map (direct_change Added ''tests/new.spec.ts'')
               (case git_show rename_git ''head'' ''tests/new.spec.ts'' of
                  None \<Rightarrow> [] | Some c \<Rightarrow> extractTestsFromContent c ''tests/new.spec.ts''))"
    by (elim exE) (rule that)
  note fs = all[THEN conjunct1]
  note gc = all[THEN conjunct2, THEN conjunct1]
  note an = all[THEN conjunct2, THEN conjunct2, THEN conjunct1]
  note cf = all[THEN conjunct2, THEN conjunct2, THEN conjunct2, THEN conjunct1]
  note di = all[THEN conjunct2, THEN conjunct2, THEN conjunct2, THEN conjunct2, THEN conjunct1]
  note old = all[THEN conjunct2, THEN conjunct2, THEN conjunct2, THEN conjunct2, THEN conjunct2, THEN conjunct1]
  note ad = all[THEN conjunct2, THEN conjunct2, THEN conjunct2, THEN conjunct2, THEN conjunct2, THEN conjunct2, THEN conjunct2]
  have fs': "files = [\<lparr>path = ''tests/new.spec.ts'', changeType = FileRenamed\<rparr>]"
    unfolding fs by (simp add: List.map_filter_simps)
  have c1: "getChangedFiles rename_git ''base'' ''head''
       = Inr [\<lparr>path = ''tests/new.spec.ts'', changeType = FileRenamed\<rparr>]"
    using gc fs' by simp
  have cf': "changedFiles res =
             [\<lparr>fc_filePath = ''tests/new.spec.ts'', fc_changeType = FileRenamed,
                isTestFile = True, testChanges = Some ?added\<rparr>]"
    unfolding cf using t by (simp add: List.map_filter_simps rename_added)
  have di': "directlyImpactedTests res = ?added"
    unfolding di fs' using t by (simp add: rename_added)
  from old ne have o2: "''tests/old.spec.ts'' \<notin> fc_filePath ` set (changedFiles res)"
    and o3: "''tests/old.spec.ts'' \<notin> tc_filePath ` set (directlyImpactedTests res)"
    by simp_all
  have c2: "\<exists>res. analyze posix_path rename_git ''base'' ''head'' = Inr res
         \<and> changedFiles res =
             [\<lparr>fc_filePath = ''tests/new.spec.ts'', fc_changeType = FileRenamed,
                isTestFile = True, testChanges = Some ?added\<rparr>]
         \<and> directlyImpactedTests res = ?added
         \<and> ''tests/old.spec.ts'' \<notin> fc_filePath ` set (changedFiles res)
         \<and> ''tests/old.spec.ts'' \<notin> tc_filePath ` set (directlyImpactedTests res)"
    by (rule exI[of _ res]) (intro conjI an cf' di' o2 o3)
  from ad nb have c3: "analyzeTestFileChanges rename_git ''base'' ''head'' ''tests/new.spec.ts'' =
       map (direct_change Added ''tests/new.spec.ts'')
         (case git_show rename_git ''head'' ''tests/new.spec.ts'' of
            None \<Rightarrow> [] | Some c \<Rightarrow> extractTestsFromContent c ''tests/new.spec.ts'')"
    by (rule mp)
  show ?thesis
    by (intro conjI h1 h2 h3 h4 h5 ne nb c1 c2 c3)
qed

section \<open>Matches consume input and carry their capture\<close>

lemma star_greedy_cont:
  "star_greedy P s k = Some res \<Longrightarrow> \<exists>s'. length s' \<le> length s \<and> k s' = Some res"
proof (induction s)
  case Nil
  then show ?case by (intro exI[of _ "[]"]) simp
next
  case (Cons c cs)
  show ?case
  proof (cases "P c \<and> star_greedy P cs k \<noteq> None")
    case True
    with Cons.prems have "star_greedy P cs k = Some res" by auto
    from Cons.IH[OF this] obtain s' where "length s' \<le> length cs" "k s' = Some res" by blast
    then show ?thesis by (intro exI[of _ s']) simp
  next
    case False
    with Cons.prems have "k (c # cs) = Some res" by (auto split: if_splits option.splits)
    then show ?thesis by (intro exI[of _ "c # cs"]) simp
  qed
qed

lemma star_lazy_cont:
  "star_lazy P s k = Some res \<Longrightarrow> \<exists>s'. length s' \<le> length s \<and> k s' = Some res"
proof (induction s)
  case Nil
  then show ?case by (intro exI[of _ "[]"]) simp
next
  case (Cons c cs)
  show ?case
  proof (cases "k (c # cs)")
    case None
    with Cons.prems have "star_lazy P cs k = Some res" by (auto split: if_splits)
    from Cons.IH[OF this] obtain s' where "length s' \<le> length cs" "k s' = Some res" by blast
    then show ?thesis by (intro exI[of _ s']) simp
  next
    case (Some r)
    with Cons.prems have "k (c # cs) = Some res" by simp
    then show ?thesis by (intro exI[of _ "c # cs"]) simp
  qed
qed

lemma contI:
  "length s' \<le> length s \<Longrightarrow> (cap \<noteq> None \<or> c \<longrightarrow> cap' \<noteq> None) \<Longrightarrow> k s' cap' = Some res
     \<Longrightarrow> \<exists>s' cap'. length s' \<le> length s \<and> (cap \<noteq> None \<or> c \<longrightarrow> cap' \<noteq> None)
           \<and> k s' cap' = Some res"
  by (rule exI[of _ s'], rule exI[of _ cap']) simp

lemma rx_match_cont:
  "rx_match r s cap k = Some res
     \<Longrightarrow> \<exists>s' cap'. length s' \<le> length s \<and> (cap \<noteq> None \<or> captures r \<longrightarrow> cap' \<noteq> None)
           \<and> k s' cap' = Some res"
proof (induction r arbitrary: s cap k)
  case (Lit p)
  then obtain s' where s': "strip_prefix p s = Some s'" "k s' cap = Some res"
    by (auto split: option.splits)
  show ?case by (rule contI[of s' _ _ _ cap]) (use s' in \<open>simp_all add: strip_prefix_Some\<close>)
next
  case (Cls P)
  then obtain c cs where c: "s = c # cs" "k cs cap = Some res"
    by (cases s) (auto split: if_splits)
  show ?case by (rule contI[of cs _ _ _ cap]) (use c in simp_all)
next
  case (Seq a b)
  from Seq.prems have "rx_match a s cap (\<lambda>s' cap'. rx_match b s' cap' k) = Some res" by simp
  from Seq.IH(1)[OF this] obtain s1 cap1 where
    a: "length s1 \<le> length s" "cap \<noteq> None \<or> captures a \<longrightarrow> cap1 \<noteq> None"
       "rx_match b s1 cap1 k = Some res" by blast
  from Seq.IH(2)[OF a(3)] obtain s2 cap2 where
    b: "length s2 \<le> length s1" "cap1 \<noteq> None \<or> captures b \<longrightarrow> cap2 \<noteq> None"
       "k s2 cap2 = Some res" by blast
  show ?case by (rule contI[of s2 _ _ _ cap2]) (use a b in auto)
next
  case (Alt a b)
  show ?case
  proof (cases "rx_match a s cap k")
    case None
    with Alt.prems have "rx_match b s cap k = Some res" by simp
    from Alt.IH(2)[OF this] obtain s' cap' where
      "length s' \<le> length s" "cap \<noteq> None \<or> captures b \<longrightarrow> cap' \<noteq> None" "k s' cap' = Some res"
      by blast
    then show ?thesis by (intro contI[of s' _ _ _ cap']) auto
  next
    case (Some r)
    with Alt.prems have "rx_match a s cap k = Some res" by simp
    from Alt.IH(1)[OF this] obtain s' cap' where
      "length s' \<le> length s" "cap \<noteq> None \<or> captures a \<longrightarrow> cap' \<noteq> None" "k s' cap' = Some res"
      by blast
    then show ?thesis by (intro contI[of s' _ _ _ cap']) auto
  qed
next
  case (Opt a)
  show ?case
  proof (cases "rx_match a s cap k")
    case None
    with Opt.prems have "k s cap = Some res" by simp
    then show ?thesis by (intro contI[of s _ _ _ cap]) auto
  next
    case (Some r)
    with Opt.prems have "rx_match a s cap k = Some res" by simp
    from Opt.IH[OF this] obtain s' cap' where
      "length s' \<le> length s" "cap \<noteq> None \<or> captures a \<longrightarrow> cap' \<noteq> None" "k s' cap' = Some res"
      by blast
    then show ?thesis by (intro contI[of s' _ _ _ cap']) auto
  qed
next
  case (Star P)
  then have "star_greedy P s (\<lambda>s'. k s' cap) = Some res" by simp
  from star_greedy_cont[OF this] obtain s' where "length s' \<le> length s" "k s' cap = Some res"
    by blast
  then show ?case by (intro contI[of s' _ _ _ cap]) auto
next
  case (Plus P)
  then obtain c cs where s: "s = c # cs" "star_greedy P cs (\<lambda>s'. k s' cap) = Some res"
    by (cases s) (auto split: if_splits)
  from star_greedy_cont[OF s(2)] obtain s' where "length s' \<le> length cs" "k s' cap = Some res"
    by blast
  with s(1) show ?case by (intro contI[of s' _ _ _ cap]) auto
next
  case (LazyPlus P)
  then obtain c cs where s: "s = c # cs" "star_lazy P cs (\<lambda>s'. k s' cap) = Some res"
    by (cases s) (auto split: if_splits)
  from star_lazy_cont[OF s(2)] obtain s' where "length s' \<le> length cs" "k s' cap = Some res"
    by blast
  with s(1) show ?case by (intro contI[of s' _ _ _ cap]) auto
next
  case (Cap a)
  then have "rx_match a s cap (\<lambda>s' cap'. k s' (Some (take (length s - length s') s))) = Some res"
    by simp
  from Cap.IH[OF this] obtain s' cap' where
    "length s' \<le> length s" "k s' (Some (take (length s - length s') s)) = Some res"
    by blast
  then show ?case by (intro contI[of s' _ _ _ "Some (take (length s - length s') s)"]) auto
next
  case Eoi
  then have "k s cap = Some res" by (auto split: if_splits)
  then show ?case by (intro contI[of s _ _ _ cap]) auto
qed

lemma rx_match_literal_first:
  assumes "rx_match (Seq (Lit (c # p)) r) s None (\<lambda>s' cap. Some (s', cap)) = Some (rest, cap)"
  shows "length rest < length s \<and> (captures r \<longrightarrow> cap \<noteq> None)"
proof -
  from assms obtain s1 where s1: "strip_prefix (c # p) s = Some s1"
    "rx_match r s1 None (\<lambda>s' cap. Some (s', cap)) = Some (rest, cap)"
    by (auto split: option.splits)
  from s1(1) have "length s1 < length s" by (simp add: strip_prefix_Some)
  moreover from rx_match_cont[OF s1(2)] obtain s' cap' where
    "length s' \<le> length s1" "captures r \<longrightarrow> cap' \<noteq> None" "Some (s', cap') = Some (rest, cap)"
    by auto
  then have "length rest \<le> length s1 \<and> (captures r \<longrightarrow> cap \<noteq> None)" by simp
  ultimately show ?thesis by simp
qed

lemma rx_exec_literal_first:
  "rx_exec (Seq (Lit (c # p)) r) s = Some (rest, cap)
     \<Longrightarrow> length rest < length s \<and> (captures r \<longrightarrow> cap \<noteq> None)"
proof (induction s)
  case Nil
  then show ?case using rx_match_literal_first[of c p r "[]" rest cap] by simp
next
  case (Cons x xs)
  show ?case
  proof (cases "rx_match (Seq (Lit (c # p)) r) (x # xs) None (\<lambda>s' cap. Some (s', cap))")
    case None
    with Cons.prems have "rx_exec (Seq (Lit (c # p)) r) xs = Some (rest, cap)" by simp
    from Cons.IH[OF this] show ?thesis by simp
  next
    case (Some m)
    with Cons.prems
    have "rx_match (Seq (Lit (c # p)) r) (x # xs) None (\<lambda>s' cap. Some (s', cap)) = Some (rest, cap)"
      by simp
    then show ?thesis by (rule rx_match_literal_first)
  qed
qed

text \<open>Every pattern of the source starts with a literal and has its capture group on the
  only path through it: a match is never empty and always carries the capture. So the
  guard of \<open>exec_all\<close> always holds, no match is dropped for want of a capture, and
  \<open>exec_group1\<close> is \<open>None\<close> only when \<open>exec\<close> returns \<open>null\<close>.\<close>

lemma import_patterns_shape:
  "(\<exists>r. es6ImportPattern = Seq (Lit (CHR ''i'' # ''mport'')) r \<and> captures r)
   \<and> (\<exists>r. requirePattern = Seq (Lit (CHR ''r'' # ''equire'')) r \<and> captures r)"
  by (simp add: es6ImportPattern_def requirePattern_def)

lemma import_match_consumes:
  assumes "pattern = es6ImportPattern \<or> pattern = requirePattern"
    and "rx_exec pattern s = Some (rest, cap)"
  shows "length rest < length s \<and> cap \<noteq> None"
proof -
  from assms(1) import_patterns_shape obtain c p r where
    "pattern = Seq (Lit (c # p)) r" "captures r"
    by metis
  with assms(2) show ?thesis using rx_exec_literal_first by blast
qed

lemma exec_all_unguarded:
  assumes "pattern = es6ImportPattern \<or> pattern = requirePattern"
  shows "exec_all pattern s =
           (case rx_exec pattern s of
              None \<Rightarrow> []
            | Some (rest, cap) \<Rightarrow> the cap # exec_all pattern rest)"
proof (cases "rx_exec pattern s")
  case None
  then show ?thesis by (subst exec_all.simps) simp
next
  case (Some m)
  obtain rest cap where m: "m = (rest, cap)" by (cases m)
  from import_match_consumes[OF assms] Some m
  have "length rest < length s" "cap \<noteq> None" by auto
  with Some m show ?thesis by (subst exec_all.simps) auto
qed

lemma declPattern_shape:
  "\<exists>r. declPattern (x # xs) = Seq (Lit (x # xs)) r \<and> captures r"
  by (simp add: declPattern_def)

lemma allPatterns_callee:
  assumes "(pattern, k) \<in> set allPatterns"
  shows "\<exists>x xs. pattern = declPattern (x # xs)"
proof -
  from assms have "pattern \<in> set (map fst allPatterns)" by force
  then have "pattern = declPattern ''test'' \<or> pattern = declPattern ''test.only''
     \<or> pattern = declPattern ''test.skip'' \<or> pattern = declPattern ''test.describe''
     \<or> pattern = declPattern ''test.describe.only'' \<or> pattern = declPattern ''test.describe.skip''"
    by (simp add: allPatterns_def testPatterns_def describePatterns_def)
  then show ?thesis by blast
qed

lemma declPattern_captures:
  assumes "(pattern, k) \<in> set allPatterns"
  shows "(exec_group1 pattern line = None) = (rx_exec pattern line = None)"
proof -
  from allPatterns_callee[OF assms] obtain x xs where "pattern = declPattern (x # xs)" by blast
  with declPattern_shape[of x xs] obtain r where r: "pattern = Seq (Lit (x # xs)) r" "captures r"
    by auto
  show ?thesis
  proof (cases "rx_exec pattern line")
    case None
    then show ?thesis by (simp add: exec_group1_def)
  next
    case (Some m)
    obtain rest cap where m: "m = (rest, cap)" by (cases m)
    with Some r rx_exec_literal_first[of x xs r line rest cap] have "cap \<noteq> None" by simp
    with Some m show ?thesis by (auto simp: exec_group1_def)
  qed
qed

end
